(* ===== verification/Prelude.thy ===== *)
theory Prelude
  imports Main
    "HOL-Library.Word"
    "HOL-Library.AList"
    "HOL-Library.Multiset"
    "HOL-Library.List_Lexorder"
    "HOL-Library.Char_ord"
begin

text \<open>
  Shared vocabulary of the development.

  \<^item> Go's \<open>byte\<close> is \<open>char\<close> (eight bits), so \<open>string\<close> and \<open>[]byte\<close> are both lists of bytes and
    the conversions \<open>[]byte(s)\<close>, \<open>string(b)\<close> are the identity, as they are on the bytes in Go.
    The order of strings is the library's lexicographic order of bytes, Go's \<open><\<close> on strings.
  \<^item> \<open>uint64\<close>, \<open>uint\<close> and \<open>int\<close> (64 bits on the platforms the program runs on) are \<open>64 word\<close>;
    a signed reading is written \<open>sint\<close>.
  \<^item> A Go map is an association list with distinct keys. The list order stands for one order in
    which the runtime may range over the map; the theorems say where the order does not matter.
  \<^item> A call that can fail returns \<open>('e, 'a) res\<close>: a value, a returned error, a panic of the Go
    runtime, or a goroutine that blocks for ever.
  \<^item> A channel is nil, open or closed; \<open>close\<close> panics unless it is open.
\<close>

section \<open>Types shared by all components\<close>

type_synonym bytes = string
type_synonym u64 = "64 word"
type_synonym u8 = "8 word"
type_synonym ('k, 'v) gomap = "('k \<times> 'v) list"

datatype panic =
    NilDeref
  | CloseOfNilChannel
  | CloseOfClosedChannel
  | SendOnClosedChannel
  | SliceBounds
  | IndexOutOfRange
  | TypeAssertion
  | ExplicitPanic string

datatype ('e, 'a) res =
    Ok 'a
  | Err 'e
  | Panicked panic
  | Blocked

fun res_bind :: "('e, 'a) res \<Rightarrow> ('a \<Rightarrow> ('e, 'b) res) \<Rightarrow> ('e, 'b) res" where
  "res_bind (Ok a) k = k a"
| "res_bind (Err e) k = Err e"
| "res_bind (Panicked p) k = Panicked p"
| "res_bind Blocked k = Blocked"

fun map_err :: "('e \<Rightarrow> 'f) \<Rightarrow> ('e, 'a) res \<Rightarrow> ('f, 'a) res" where
  "map_err f (Ok a) = Ok a"
| "map_err f (Err e) = Err (f e)"
| "map_err f (Panicked p) = Panicked p"
| "map_err f Blocked = Blocked"

datatype chan = NilChan | OpenChan | ClosedChan

fun close_chan :: "chan \<Rightarrow> ('e, chan) res" where
  "close_chan NilChan = Panicked CloseOfNilChannel"
| "close_chan OpenChan = Ok ClosedChan"
| "close_chan ClosedChan = Panicked CloseOfClosedChannel"

section \<open>Go maps\<close>

definition gm_put :: "'k \<Rightarrow> 'v \<Rightarrow> ('k, 'v) gomap \<Rightarrow> ('k, 'v) gomap" where
  "gm_put k v m = AList.update k v m"

definition gm_get0 :: "'v \<Rightarrow> ('k, 'v) gomap \<Rightarrow> 'k \<Rightarrow> 'v" where
  "gm_get0 z m k = (case map_of m k of None \<Rightarrow> z | Some v \<Rightarrow> v)"

definition gm_wf :: "('k, 'v) gomap \<Rightarrow> bool" where
  "gm_wf m \<longleftrightarrow> distinct (map fst m)"

definition gm_eq :: "('k, 'v) gomap \<Rightarrow> ('k, 'v) gomap \<Rightarrow> bool" where
  "gm_eq m m' \<longleftrightarrow> gm_wf m \<and> gm_wf m' \<and> map_of m = map_of m'"

text \<open>Loops with an error exit: the first error ends the loop.\<close>

fun foldM :: "('a \<Rightarrow> 's \<Rightarrow> ('e, 's) res) \<Rightarrow> 'a list \<Rightarrow> 's \<Rightarrow> ('e, 's) res" where
  "foldM f [] s = Ok s"
| "foldM f (x # xs) s = res_bind (f x s) (foldM f xs)"

fun foldO :: "('a \<Rightarrow> 's \<Rightarrow> 's option) \<Rightarrow> 'a list \<Rightarrow> 's \<Rightarrow> 's option" where
  "foldO f [] s = Some s"
| "foldO f (x # xs) s = (case f x s of None \<Rightarrow> None | Some s' \<Rightarrow> foldO f xs s')"

fun mapO :: "('a \<Rightarrow> 'b option) \<Rightarrow> 'a list \<Rightarrow> 'b list option" where
  "mapO f [] = Some []"
| "mapO f (x # xs) =
     (case f x of None \<Rightarrow> None
      | Some y \<Rightarrow> (case mapO f xs of None \<Rightarrow> None | Some ys \<Rightarrow> Some (y # ys)))"

section \<open>Collections and shared facts\<close>

named_theorems go_simps \<open>rewrite rules for the Go vocabulary (maps, channels, results)\<close>
named_theorems model_defs \<open>definitions of operations, unfolded by the component proofs\<close>

lemma res_bind_Ok_iff [go_simps]:
  "res_bind r k = Ok b \<longleftrightarrow> (\<exists>a. r = Ok a \<and> k a = Ok b)"
  by (cases r) auto

lemma res_bind_Err_iff [go_simps]:
  "res_bind r k = Err e \<longleftrightarrow> r = Err e \<or> (\<exists>a. r = Ok a \<and> k a = Err e)"
  by (cases r) auto

lemma res_bind_cong [fundef_cong]:
  "r = r' \<Longrightarrow> (\<And>a. r' = Ok a \<Longrightarrow> k a = k' a) \<Longrightarrow> res_bind r k = res_bind r' k'"
  by (cases r') auto

lemma close_chan_Ok_iff [go_simps]: "close_chan c = Ok d \<longleftrightarrow> c = OpenChan \<and> d = ClosedChan"
  by (cases c) auto

lemma map_of_gm_put [simp]: "map_of (gm_put k v m) = (map_of m)(k \<mapsto> v)"
  by (simp add: gm_put_def update_conv')

lemma gm_wf_put [simp, intro]: "gm_wf m \<Longrightarrow> gm_wf (gm_put k v m)"
  by (simp add: gm_put_def gm_wf_def distinct_update)

lemma gm_wf_Nil [simp]: "gm_wf []"
  by (simp add: gm_wf_def)

lemma gm_put_keys: "fst ` set (gm_put k v m) = insert k (fst ` set m)"
  by (simp add: gm_put_def dom_update)

lemma gm_put_not_Nil [simp]: "gm_put k v m \<noteq> []"
  by (simp add: gm_put_def update_nonempty)

lemma gm_get0_put [simp]:
  "gm_get0 z (gm_put k v m) k' = (if k' = k then v else gm_get0 z m k')"
  by (simp add: gm_get0_def)

lemma gm_get0_Nil [simp]: "gm_get0 z [] k = z"
  by (simp add: gm_get0_def)

lemma set_gm_put_subset: "set (gm_put k v m) \<subseteq> insert (k, v) (set m)"
  unfolding gm_put_def by (induction m) auto

lemma gm_get0_in: "P z \<Longrightarrow> (\<And>k v. (k, v) \<in> set m \<Longrightarrow> P v) \<Longrightarrow> P (gm_get0 z m k)"
  by (auto simp: gm_get0_def split: option.splits dest: map_of_SomeD)

lemma gm_wf_map_of: "gm_wf m \<Longrightarrow> (k, v) \<in> set m \<longleftrightarrow> map_of m k = Some v"
  by (auto simp: gm_wf_def)

lemma gm_eq_mset: "gm_eq m m' \<Longrightarrow> mset m = mset m'"
proof -
  assume *: "gm_eq m m'"
  then have "distinct m" "distinct m'"
    by (auto simp: gm_eq_def gm_wf_def distinct_map)
  moreover from * have "set m = set m'"
    by (metis gm_eq_def gm_wf_map_of subset_antisym subrelI)
  ultimately show ?thesis by (simp add: set_eq_iff_mset_eq_distinct)
qed

lemma mset_gm_eq: "gm_wf m \<Longrightarrow> mset m = mset m' \<Longrightarrow> gm_eq m m'"
proof -
  assume wf: "gm_wf m" and eq: "mset m = mset m'"
  then have "mset (map fst m) = mset (map fst m')" by simp
  with wf have wf': "gm_wf m'"
    unfolding gm_wf_def by (metis mset_eq_imp_distinct_iff)
  from eq have "set m = set m'" by (rule mset_eq_setD)
  with wf wf' have "map_of m = map_of m'"
    by (simp add: gm_wf_def map_of_inject_set)
  with wf wf' show ?thesis by (simp add: gm_eq_def)
qed

lemma foldM_append [go_simps]:
  "foldM f (xs @ ys) s = res_bind (foldM f xs s) (foldM f ys)"
proof (induction xs arbitrary: s)
  case (Cons x xs)
  then show ?case by (cases "f x s") auto
qed simp

lemma mapO_Some_iff:
  "mapO f xs = Some ys \<longleftrightarrow> list_all2 (\<lambda>x y. f x = Some y) xs ys"
proof (induction xs arbitrary: ys)
  case (Cons x xs)
  then show ?case
    by (cases "f x"; cases "mapO f xs") (auto simp: list_all2_Cons1 simp flip: Cons.IH)
qed auto

lemma mapO_map_id:
  "(\<And>x. x \<in> set xs \<Longrightarrow> f (g x) = Some x) \<Longrightarrow> mapO f (map g xs) = Some xs"
  by (induction xs) auto

lemma mapO_cong [fundef_cong]:
  "xs = ys \<Longrightarrow> (\<And>x. x \<in> set ys \<Longrightarrow> f x = g x) \<Longrightarrow> mapO f xs = mapO g ys"
  by (induction ys arbitrary: xs) (auto split: option.splits)

lemma mapO_length: "mapO f xs = Some ys \<Longrightarrow> length ys = length xs"
  by (simp add: mapO_Some_iff list_all2_lengthD)

lemma sint_eq_unat:
  assumes "unat (w :: u64) < 2 ^ 63" shows "sint w = int (unat w)"
proof -
  have "uint w = int (unat w)" by simp
  also have "\<dots> < 2 ^ 63" using assms of_nat_less_iff [of "unat w" "2 ^ 63", where 'a = int] by simp
  finally have "uint w < 2 ^ 63" .
  moreover have "- (2 ^ 63) \<le> uint w" by (rule order_trans [OF _ uint_ge_0]) simp
  ultimately have "signed_take_bit 63 (uint w) = uint w" by (simp add: signed_take_bit_int_eq_self)
  then show ?thesis by (simp add: sint_uint)
qed

lemma sint_of_nat: "n < 2 ^ 63 \<Longrightarrow> sint (of_nat n :: u64) = int n"
  by (subst sint_eq_unat) (simp_all add: unat_of_nat)

lemma unat_double_Suc: "2 * unat f + 1 < 2 ^ 64 \<Longrightarrow> unat (2 * f + 1 :: u64) = 2 * unat f + 1"
  by (simp add: unat_word_ariths mod_Suc_eq)

lemma sort_key_map: "sort_key f (map h xs) = map h (sort_key (f \<circ> h) xs)"
proof -
  have "insort_key f (h x) (map h ys) = map h (insort_key (f \<circ> h) x ys)" for x ys
    by (induction ys) simp_all
  then show ?thesis by (induction xs) simp_all
qed

end
