(* ===== verification/Crypto.thy ===== *)
theory Crypto
  imports Prelude
begin

text \<open>
  The package \<open>crypto/\<close>: hexadecimal text (\<open>encoding/hex\<close>, as the package uses it), addresses
  (\<open>address.go\<close>), and public keys and signatures (\<open>keypairs.go\<close>).

  The curve, the signature scheme and the hash function are the fields of \<open>cprims\<close>, an argument of
  every definition that uses them: \<open>sha256.Sum256\<close>, \<open>hmac\<close> over it,
  \<open>elliptic.UnmarshalCompressed\<close> on P-256, \<open>ecdsa.Verify\<close> and \<open>ecdsa.Sign\<close> (whose random bits are
  the argument of type \<open>nat\<close>). Nothing is assumed about them in the definitions. The two ECDSA
  operations expect a hash and, as their documentation says, truncate a longer one to the bit length of
  the curve's order: \<open>leftmost\<close> is that truncation for P-256, and the primitives see only what it keeps.
\<close>

section \<open>Definitions\<close>

subsection \<open>Hexadecimal text\<close>

definition hexDigit :: "nat \<Rightarrow> char" where
  "hexDigit n = ''0123456789abcdef'' ! n"

definition hexEncode :: "bytes \<Rightarrow> string" where
  "hexEncode bs = concat (map (\<lambda>b. [hexDigit (of_char b div 16), hexDigit (of_char b mod 16)]) bs)"

definition fromHexChar :: "char \<Rightarrow> nat option" where
  "fromHexChar c =
     (let n = of_char c in
      if 48 \<le> n \<and> n \<le> 57 then Some (n - 48)
      else if 97 \<le> n \<and> n \<le> 102 then Some (n - 87)
      else if 65 \<le> n \<and> n \<le> 70 then Some (n - 55)
      else None)"

datatype hex_error = InvalidByteError char | ErrLength

fun hexDecode :: "string \<Rightarrow> (hex_error, bytes) res" where
  "hexDecode [] = Ok []"
| "hexDecode [c] =
     (case fromHexChar c of None \<Rightarrow> Err (InvalidByteError c) | Some _ \<Rightarrow> Err ErrLength)"
| "hexDecode (c # d # s) =
     (case fromHexChar c of
        None \<Rightarrow> Err (InvalidByteError c)
      | Some a \<Rightarrow>
         (case fromHexChar d of
            None \<Rightarrow> Err (InvalidByteError d)
          | Some b \<Rightarrow> res_bind (hexDecode s) (\<lambda>bs. Ok (char_of (16 * a + b) # bs))))"

subsection \<open>Addresses\<close>

text \<open>\<open>type Address [20]uint8\<close>: a list of bytes; \<open>is_address\<close> is the array's length.\<close>

type_synonym Address = bytes

definition is_address :: "Address \<Rightarrow> bool" where
  "is_address a \<longleftrightarrow> length a = 20"

definition Address_ToSlice :: "Address \<Rightarrow> bytes" where
  "Address_ToSlice a = map (\<lambda>i. a ! i) [0..<20]"

definition AddressFromBytes :: "bytes \<Rightarrow> ('e, Address) res" where
  "AddressFromBytes b =
     (if length b \<noteq> 20 then Panicked (ExplicitPanic ''Binary Address must be 20 bytes long'')
      else Ok (map (\<lambda>i. b ! i) [0..<20]))"

definition Address_String :: "Address \<Rightarrow> string" where
  "Address_String a = ''0x'' @ hexEncode (Address_ToSlice a)"

datatype address_error = AddrHex hex_error | InvalidAddressLength

definition Address_UnmarshalText :: "bytes \<Rightarrow> (address_error, Address) res" where
  "Address_UnmarshalText text =
     (let hexStr = (if length text \<ge> 2 \<and> take 2 text = ''0x'' then drop 2 text else text)
      in case hexDecode hexStr of
           Ok decoded \<Rightarrow>
             (if length decoded \<noteq> 20 then Err InvalidAddressLength else Ok decoded)
         | Err e \<Rightarrow> Err (AddrHex e)
         | Panicked p \<Rightarrow> Panicked p
         | Blocked \<Rightarrow> Blocked)"

definition Address_MarshalText :: "Address \<Rightarrow> (address_error, bytes) res" where
  "Address_MarshalText a = Ok (Address_String a)"

subsection \<open>Keys and signatures\<close>

text \<open>\<open>big.Int.Bytes\<close>: the big-endian bytes of a number, without leading zero bytes.\<close>

fun bigBytes :: "nat \<Rightarrow> bytes" where
  "bigBytes n = (if n = 0 then [] else bigBytes (n div 256) @ [char_of (n mod 256)])"

record PublicKey =
  pk_X :: nat
  pk_Y :: nat

text \<open>\<open>Signature{R, S *big.Int}\<close>: the zero value has two nil pointers.\<close>

record Signature =
  sig_R :: "int option"
  sig_S :: "int option"

definition zero_Signature :: Signature where
  "zero_Signature = \<lparr>sig_R = None, sig_S = None\<rparr>"

record cprims =
  sha256 :: "bytes \<Rightarrow> bytes"
  hmac_sha256 :: "bytes \<Rightarrow> bytes \<Rightarrow> bytes"
  unmarshalCompressed :: "bytes \<Rightarrow> PublicKey option"
  ecdsa_verify :: "PublicKey \<Rightarrow> bytes \<Rightarrow> int \<Rightarrow> int \<Rightarrow> bool"
  ecdsa_sign :: "nat \<Rightarrow> nat \<Rightarrow> bytes \<Rightarrow> (int \<times> int) option"

record PrivateKey =
  priv_D :: nat
  priv_pub :: PublicKey

definition PrivateKey_PublicKey :: "PrivateKey \<Rightarrow> PublicKey" where
  "PrivateKey_PublicKey p = priv_pub p"

definition PublicKey_Bytes :: "PublicKey \<Rightarrow> bytes" where
  "PublicKey_Bytes p =
     (let x = bigBytes (pk_X p);
          prefix = (if bit (pk_Y p) 0 then CHR 0x03 else CHR 0x02)
      in prefix # x)"

definition PublicKey_String :: "PublicKey \<Rightarrow> string" where
  "PublicKey_String p = hexEncode (PublicKey_Bytes p)"

definition PublicKey_Address :: "cprims \<Rightarrow> PublicKey \<Rightarrow> ('e, Address) res" where
  "PublicKey_Address cp p =
     (let hash = sha256 cp (PublicKey_Bytes p)
      in AddressFromBytes (drop (length hash - 20) hash))"

datatype key_error = InvalidHexString hex_error | InvalidCompressedKey

definition StringToPublicKey :: "cprims \<Rightarrow> string \<Rightarrow> (key_error, PublicKey) res" where
  "StringToPublicKey cp hexString =
     (case hexDecode hexString of
        Ok bs \<Rightarrow>
          (case unmarshalCompressed cp bs of
             None \<Rightarrow> Err InvalidCompressedKey
           | Some p \<Rightarrow> Ok p)
      | Err e \<Rightarrow> Err (InvalidHexString e)
      | Panicked p \<Rightarrow> Panicked p
      | Blocked \<Rightarrow> Blocked)"

datatype sign_error = SignFailed

definition leftmost :: "bytes \<Rightarrow> bytes" where
  "leftmost hash = take 32 hash"

definition PrivateKey_Sign ::
  "cprims \<Rightarrow> nat \<Rightarrow> PrivateKey \<Rightarrow> bytes \<Rightarrow> (sign_error, Signature) res" where
  "PrivateKey_Sign cp rnd p data =
     (case ecdsa_sign cp rnd (priv_D p) (leftmost data) of
        None \<Rightarrow> Err SignFailed
      | Some (r, s) \<Rightarrow> Ok \<lparr>sig_R = Some r, sig_S = Some s\<rparr>)"

text \<open>
  \<open>ecdsa.Verify\<close> reads the signs of \<open>r\<close> and \<open>s\<close> first (a nil pointer panics there), answers false
  when one is not positive, and then uses the coordinates of the key, which are nil (a panic) when
  \<open>UnmarshalCompressed\<close> refused the bytes.
\<close>

definition Signature_Verify ::
  "cprims \<Rightarrow> Signature \<Rightarrow> bytes \<Rightarrow> PublicKey \<Rightarrow> ('e, bool) res" where
  "Signature_Verify cp sg data p =
     (case (sig_R sg, sig_S sg) of
        (Some r, Some s) \<Rightarrow>
          if r \<le> 0 \<or> s \<le> 0 then Ok False
          else (case unmarshalCompressed cp (PublicKey_Bytes p) of
                  None \<Rightarrow> Panicked NilDeref
                | Some pk \<Rightarrow> Ok (ecdsa_verify cp pk (leftmost data) r s))
      | (Some r, None) \<Rightarrow> if r \<le> 0 then Ok False else Panicked NilDeref
      | (None, _) \<Rightarrow> Panicked NilDeref)"

text \<open>
  What the documentation of \<open>crypto/elliptic\<close> says of \<open>UnmarshalCompressed\<close> on P-256, for the
  points of a set \<open>C\<close>: it accepts the 33 bytes that \<open>MarshalCompressed\<close> gives for a point of the
  curve (a byte 2 or 3 for the parity of \<open>Y\<close>, then \<open>X\<close> in 32 bytes), and nothing else.
\<close>

fun fixedBytes :: "nat \<Rightarrow> nat \<Rightarrow> bytes" where
  "fixedBytes 0 x = []"
| "fixedBytes (Suc n) x = fixedBytes n (x div 256) @ [char_of (x mod 256)]"

definition marshalCompressed :: "PublicKey \<Rightarrow> bytes" where
  "marshalCompressed p = (if bit (pk_Y p) 0 then CHR 0x03 else CHR 0x02) # fixedBytes 32 (pk_X p)"

definition compressed_points :: "cprims \<Rightarrow> PublicKey set \<Rightarrow> bool" where
  "compressed_points cp C \<longleftrightarrow>
     (\<forall>p\<in>C. pk_X p < 256 ^ 32) \<and>
     (\<forall>bs p. unmarshalCompressed cp bs = Some p \<longleftrightarrow> p \<in> C \<and> bs = marshalCompressed p)"

text \<open>
  What the documentation of \<open>crypto/ecdsa\<close> says of a key pair: signing succeeds, and the two positive
  numbers it gives are accepted for the same hash and the public key.
\<close>

definition key_pair :: "cprims \<Rightarrow> PrivateKey \<Rightarrow> bool" where
  "key_pair cp sk \<longleftrightarrow>
     (\<forall>rnd h. \<exists>r s. ecdsa_sign cp rnd (priv_D sk) h = Some (r, s) \<and> 0 < r \<and> 0 < s \<and>
        ecdsa_verify cp (priv_pub sk) h r s)"

text \<open>A set of primitives that knows one key, for the witnesses.\<close>

definition single_key_prims :: "PublicKey \<Rightarrow> cprims" where
  "single_key_prims k =
     \<lparr>sha256 = (\<lambda>b. b), hmac_sha256 = (\<lambda>k b. b),
      unmarshalCompressed = (\<lambda>bs. if bs = marshalCompressed k then Some k else None),
      ecdsa_verify = (\<lambda>pk m r s. r = s), ecdsa_sign = (\<lambda>rnd d m. Some (1, 1))\<rparr>"

declare bigBytes.simps [simp del]

section \<open>Lemmas\<close>

subsection \<open>Hexadecimal text\<close>

lemma hex_digits_all:
  "n < (16::nat) \<Longrightarrow> list_all P [0..<16] \<Longrightarrow> P n"
  by (simp add: list_all_iff)

lemma fromHexChar_hexDigit [simp]: "n < 16 \<Longrightarrow> fromHexChar (hexDigit n) = Some n"
  by (erule hex_digits_all) (simp add: hexDigit_def fromHexChar_def upt_rec)

lemma fromHexChar_bound: "fromHexChar c = Some n \<Longrightarrow> n < 16"
  by (auto simp: fromHexChar_def Let_def split: if_splits)

lemma of_char_less_256: "(of_char c :: nat) < 256"
  by (metis of_char_mod_256 mod_less_divisor zero_less_numeral)

lemma hexEncode_Nil [simp]: "hexEncode [] = []"
  and hexEncode_Cons [simp]:
    "hexEncode (b # bs) =
       hexDigit (of_char b div 16) # hexDigit (of_char b mod 16) # hexEncode bs"
  by (simp_all add: hexEncode_def)

lemma hex_halves [simp]: "char_of (16 * (of_char b div 16) + of_char b mod 16 :: nat) = b"
  by simp

lemma hexDecode_hexEncode [simp]: "hexDecode (hexEncode bs) = Ok bs"
proof (induction bs)
  case (Cons b bs)
  have "of_char b div 16 < (16::nat)" using of_char_less_256 [of b] by (simp add: div_less_iff_less_mult)
  with Cons show ?case by simp
qed simp

lemma length_hexEncode [simp]: "length (hexEncode bs) = 2 * length bs"
  by (induction bs) auto

lemma hexEncode_inj: "hexEncode a = hexEncode b \<longleftrightarrow> a = b"
  by (metis hexDecode_hexEncode res.inject(1))

lemma hexDecode_length: "hexDecode s = Ok bs \<Longrightarrow> length s = 2 * length bs"
  by (induction s arbitrary: bs rule: hexDecode.induct)
     (auto split: option.splits simp: go_simps)

lemma hexDecode_no_panic: "hexDecode s \<noteq> Panicked p" "hexDecode s \<noteq> Blocked"
proof -
  have "(\<exists>bs. hexDecode s = Ok bs) \<or> (\<exists>e. hexDecode s = Err e)"
    by (induction s rule: hexDecode.induct) (auto split: option.splits simp: go_simps)
  then show "hexDecode s \<noteq> Panicked p" "hexDecode s \<noteq> Blocked" by auto
qed

subsection \<open>Addresses\<close>

lemma map_nth_20: "length a = 20 \<Longrightarrow> map (\<lambda>i. a ! i) [0..<20] = a"
  by (metis map_nth)

lemma Address_ToSlice_id: "is_address a \<Longrightarrow> Address_ToSlice a = a"
  by (simp add: is_address_def Address_ToSlice_def map_nth_20 del: upt_rec_numeral)

text \<open>
  The text form of an address reads back as the same address (\<open>MarshalText\<close> then
  \<open>UnmarshalText\<close>), with or without the \<open>0x\<close> prefix.
\<close>

theorem address_text_roundtrip:
  assumes "is_address a"
  shows "\<exists>t. Address_MarshalText a = Ok t \<and> Address_UnmarshalText t = Ok a \<and>
             length t = 42 \<and> Address_UnmarshalText (drop 2 t) = Ok a"
proof -
  have len: "length a = 20" using assms by (simp add: is_address_def)
  have "take 2 (hexEncode a) \<noteq> ''0x''"
  proof
    assume "take 2 (hexEncode a) = ''0x''"
    then obtain b bs where "a = b # bs" and "hexDigit (of_char b mod 16) = CHR ''x''"
      using len by (cases a) auto
    then have "fromHexChar (CHR ''x'') = Some (of_char b mod 16)"
      by (metis fromHexChar_hexDigit mod_less_divisor zero_less_numeral)
    then show False by (simp add: fromHexChar_def)
  qed
  then show ?thesis
    using len assms
    by (simp add: Address_MarshalText_def Address_String_def Address_UnmarshalText_def
        Address_ToSlice_id)
qed

theorem address_text_roundtrip_witness:
  "is_address (replicate 20 (CHR 0xAB)) \<and>
   Address_UnmarshalText (Address_String (replicate 20 (CHR 0xAB))) = Ok (replicate 20 (CHR 0xAB))"
proof -
  have "is_address (replicate 20 (CHR 0xAB))" by (simp add: is_address_def)
  with address_text_roundtrip [OF this] show ?thesis
    by (auto simp: Address_MarshalText_def)
qed

lemma AddressFromBytes_Ok_iff: "AddressFromBytes b = Ok a \<longleftrightarrow> length b = 20 \<and> a = b"
  by (auto simp: AddressFromBytes_def map_nth_20 simp del: upt_rec_numeral)

subsection \<open>Keys\<close>

lemma length_fixedBytes [simp]: "length (fixedBytes n x) = n"
  by (induction n arbitrary: x) auto

lemma length_bigBytes_le: "x < 256 ^ n \<Longrightarrow> length (bigBytes x) \<le> n"
proof (induction n arbitrary: x)
  case 0
  then show ?case by (simp add: bigBytes.simps)
next
  case (Suc n)
  then have "x div 256 < 256 ^ n" by (simp add: div_less_iff_less_mult)
  with Suc.IH show ?case by (subst bigBytes.simps) simp
qed

lemma bigBytes_fixedBytes:
  "256 ^ n \<le> x \<Longrightarrow> x < 256 ^ Suc n \<Longrightarrow> bigBytes x = fixedBytes (Suc n) x"
proof (induction n arbitrary: x)
  case 0
  then show ?case by (simp add: bigBytes.simps [of x] bigBytes.simps [of 0])
next
  case (Suc n)
  from Suc.prems have "256 ^ n \<le> x div 256" "x div 256 < 256 ^ Suc n" "x \<noteq> 0"
    by (simp_all add: div_less_iff_less_mult less_eq_div_iff_mult_less_eq mult.commute)
  with Suc.IH show ?case by (subst bigBytes.simps) simp
qed

lemma PublicKey_Bytes_marshalCompressed:
  assumes "pk_X p < 256 ^ 32"
  shows "PublicKey_Bytes p = marshalCompressed p \<longleftrightarrow> 256 ^ 31 \<le> pk_X p"
proof
  assume "256 ^ 31 \<le> pk_X p"
  with assms have "bigBytes (pk_X p) = fixedBytes (Suc 31) (pk_X p)"
    by (intro bigBytes_fixedBytes) simp_all
  then show "PublicKey_Bytes p = marshalCompressed p"
    by (simp add: PublicKey_Bytes_def marshalCompressed_def del: fixedBytes.simps)
next
  assume "PublicKey_Bytes p = marshalCompressed p"
  then have "length (bigBytes (pk_X p)) = 32"
    by (simp add: PublicKey_Bytes_def marshalCompressed_def del: fixedBytes.simps)
  moreover have "length (bigBytes (pk_X p)) \<le> 31" if "pk_X p < 256 ^ 31"
    using that by (rule length_bigBytes_le)
  ultimately show "256 ^ 31 \<le> pk_X p"
    by (cases "pk_X p < 256 ^ 31") auto
qed

lemma PublicKey_Bytes_unmarshal_Some:
  assumes "compressed_points cp C" and "p \<in> C" and "256 ^ 31 \<le> pk_X p"
  shows "unmarshalCompressed cp (PublicKey_Bytes p) = Some p"
  using assms PublicKey_Bytes_marshalCompressed [of p] by (simp add: compressed_points_def)

lemma PublicKey_Bytes_unmarshal_None:
  assumes "compressed_points cp C" and "pk_X p < 256 ^ 31"
  shows "unmarshalCompressed cp (PublicKey_Bytes p) = None"
proof (rule ccontr)
  assume "unmarshalCompressed cp (PublicKey_Bytes p) \<noteq> None"
  then obtain q where "PublicKey_Bytes p = marshalCompressed q"
    using assms(1) by (auto simp: compressed_points_def)
  then have "length (bigBytes (pk_X p)) = 32"
    by (simp add: PublicKey_Bytes_def marshalCompressed_def del: fixedBytes.simps)
  with length_bigBytes_le [OF assms(2)] show False by simp
qed

text \<open>
  C34: The text form of a public key (\<open>PublicKey.String\<close>, the identity of a server on the network)
  is accepted by \<open>StringToPublicKey\<close> and gives the same key exactly when the x coordinate needs
  all of its 32 bytes. \<open>PublicKey.Bytes\<close> drops leading zero bytes, so a key whose x coordinate is
  below \<open>256 ^ 31\<close> (one key in 256) is refused.
\<close>

theorem publicKey_text_roundtrip:
  assumes "compressed_points cp C" and "p \<in> C"
  shows "StringToPublicKey cp (PublicKey_String p) =
           (if 256 ^ 31 \<le> pk_X p then Ok p else Err InvalidCompressedKey)"
  using PublicKey_Bytes_unmarshal_Some [OF assms] PublicKey_Bytes_unmarshal_None [OF assms(1), of p]
  by (simp add: StringToPublicKey_def PublicKey_String_def not_le)

lemma single_key_prims_points:
  "pk_X k < 256 ^ 32 \<Longrightarrow> compressed_points (single_key_prims k) {k}"
  by (auto simp: compressed_points_def single_key_prims_def)

theorem publicKey_text_roundtrip_witness:
  "let k = \<lparr>pk_X = 256 ^ 31, pk_Y = 3\<rparr> in
   compressed_points (single_key_prims k) {k} \<and>
   StringToPublicKey (single_key_prims k) (PublicKey_String k) = Ok k"
  unfolding Let_def
  using single_key_prims_points [of "\<lparr>pk_X = 256 ^ 31, pk_Y = 3\<rparr>"]
    publicKey_text_roundtrip [of "single_key_prims \<lparr>pk_X = 256 ^ 31, pk_Y = 3\<rparr>"
      "{\<lparr>pk_X = 256 ^ 31, pk_Y = 3\<rparr>}" "\<lparr>pk_X = 256 ^ 31, pk_Y = 3\<rparr>"]
  by simp

text \<open>What a node signs, its own verification accepts, under the key its identity names.\<close>

lemma sign_verify:
  assumes "compressed_points cp C" and "priv_pub sk \<in> C" and "256 ^ 31 \<le> pk_X (priv_pub sk)" and "key_pair cp sk"
  shows "\<exists>sg. PrivateKey_Sign cp rnd sk m = Ok sg \<and>
           StringToPublicKey cp (PublicKey_String (priv_pub sk)) = Ok (priv_pub sk) \<and>
           Signature_Verify cp sg m (priv_pub sk) = Ok True"
proof -
  have u: "unmarshalCompressed cp (PublicKey_Bytes (priv_pub sk)) = Some (priv_pub sk)"
    by (rule PublicKey_Bytes_unmarshal_Some [OF assms(1-3)])
  obtain r s where "ecdsa_sign cp rnd (priv_D sk) (leftmost m) = Some (r, s)" "0 < r" "0 < s"
      "ecdsa_verify cp (priv_pub sk) (leftmost m) r s"
    using assms(4) unfolding key_pair_def by blast
  with u show ?thesis
    by (simp add: PrivateKey_Sign_def Signature_Verify_def StringToPublicKey_def PublicKey_String_def)
qed

text \<open>
  For such a short key \<open>Signature.Verify\<close> does not answer at all: the key it rebuilds from
  \<open>PublicKey.Bytes\<close> has nil coordinates, and every signature with positive \<open>R\<close> and \<open>S\<close> makes the
  verifier panic. For every other key the answer is that of \<open>ecdsa.Verify\<close> on the key itself.
\<close>

theorem signature_verify_cases:
  assumes "compressed_points cp C" and "p \<in> C" and "r > 0" and "s > 0"
  shows "Signature_Verify cp \<lparr>sig_R = Some r, sig_S = Some s\<rparr> m p =
           (if 256 ^ 31 \<le> pk_X p then Ok (ecdsa_verify cp p (leftmost m) r s) else Panicked NilDeref)"
  using PublicKey_Bytes_unmarshal_Some [OF assms(1,2)] PublicKey_Bytes_unmarshal_None [OF assms(1), of p]
    assms(3,4)
  by (simp add: Signature_Verify_def not_le)

theorem signature_verify_cases_witness:
  "let k = \<lparr>pk_X = 1, pk_Y = 3\<rparr> in
   compressed_points (single_key_prims k) {k} \<and>
   Signature_Verify (single_key_prims k) \<lparr>sig_R = Some 5, sig_S = Some 5\<rparr> [] k =
     (Panicked NilDeref :: (unit, bool) res)"
  unfolding Let_def
  using single_key_prims_points [of "\<lparr>pk_X = 1, pk_Y = 3\<rparr>"]
    signature_verify_cases [of "single_key_prims \<lparr>pk_X = 1, pk_Y = 3\<rparr>"
      "{\<lparr>pk_X = 1, pk_Y = 3\<rparr>}" "\<lparr>pk_X = 1, pk_Y = 3\<rparr>" 5 5 "[]"]
  by simp

end
