(* ===== verification/Json.thy ===== *)
theory Json
  imports Crypto
begin

text \<open>
  The part of \<open>encoding/json\<close> the program uses: JSON values, the compact text \<open>json.Marshal\<close>
  writes (with its HTML-safe escapes), a parser for the JSON grammar \<open>json.Unmarshal\<close> accepts, the
  decimal form of unsigned integers, and the standard base64 form of byte slices.

  Numbers are kept as their literals, as the decoder does before it knows the target type. Bytes
  above 127 are passed through: the strings of the program are hexadecimal identities, UUIDs and
  ASCII field values, and the round trip is stated for ASCII text. Parsing uses fuel, twice the
  length of the text and one more, which the round trip shows to be enough.
\<close>

section \<open>Definitions\<close>

datatype json =
    JNull
  | JBool bool
  | JNum string
  | JStr string
  | JArr "json list"
  | JObj "(string \<times> json) list"

subsection \<open>Writing\<close>

definition esc_char :: "char \<Rightarrow> string" where
  "esc_char c =
     (if c = CHR 0x22 then [CHR 0x5C, CHR 0x22]
      else if c = CHR 0x5C then [CHR 0x5C, CHR 0x5C]
      else if c = CHR 0x08 then [CHR 0x5C, CHR ''b'']
      else if c = CHR 0x0C then [CHR 0x5C, CHR ''f'']
      else if c = CHR 0x0A then [CHR 0x5C, CHR ''n'']
      else if c = CHR 0x0D then [CHR 0x5C, CHR ''r'']
      else if c = CHR 0x09 then [CHR 0x5C, CHR ''t'']
      else if of_char c < (32::nat) \<or> c = CHR ''<'' \<or> c = CHR ''>'' \<or> c = CHR ''&''
        then [CHR 0x5C, CHR ''u'', CHR ''0'', CHR ''0'',
              hexDigit (of_char c div 16), hexDigit (of_char c mod 16)]
      else [c])"

definition print_string :: "string \<Rightarrow> string" where
  "print_string s = [CHR 0x22] @ concat (map esc_char s) @ [CHR 0x22]"

fun print_json :: "json \<Rightarrow> string"
  and print_elems :: "json list \<Rightarrow> string"
  and print_members :: "(string \<times> json) list \<Rightarrow> string" where
  "print_json JNull = ''null''"
| "print_json (JBool b) = (if b then ''true'' else ''false'')"
| "print_json (JNum n) = n"
| "print_json (JStr s) = print_string s"
| "print_json (JArr js) = ''['' @ print_elems js @ '']''"
| "print_json (JObj kvs) = ''{'' @ print_members kvs @ ''}''"
| "print_elems [] = []"
| "print_elems [j] = print_json j"
| "print_elems (j # j' # js) = print_json j @ '','' @ print_elems (j' # js)"
| "print_members [] = []"
| "print_members [(k, v)] = print_string k @ '':'' @ print_json v"
| "print_members ((k, v) # kv # kvs) =
     print_string k @ '':'' @ print_json v @ '','' @ print_members (kv # kvs)"

subsection \<open>Reading\<close>

definition is_ws :: "char \<Rightarrow> bool" where
  "is_ws c \<longleftrightarrow> c = CHR '' '' \<or> c = CHR 0x09 \<or> c = CHR 0x0A \<or> c = CHR 0x0D"

definition skip_ws :: "string \<Rightarrow> string" where
  "skip_ws s = dropWhile is_ws s"

definition is_digit :: "char \<Rightarrow> bool" where
  "is_digit c \<longleftrightarrow> 48 \<le> (of_char c :: nat) \<and> (of_char c :: nat) \<le> 57"

definition utf8 :: "nat \<Rightarrow> string" where
  "utf8 n =
     (if n < 128 then [char_of n]
      else if n < 2048 then [char_of (192 + n div 64), char_of (128 + n mod 64)]
      else if n < 65536 then
        [char_of (224 + n div 4096), char_of (128 + n div 64 mod 64), char_of (128 + n mod 64)]
      else [char_of (240 + n div 262144), char_of (128 + n div 4096 mod 64),
            char_of (128 + n div 64 mod 64), char_of (128 + n mod 64)])"

definition hex4 :: "char \<Rightarrow> char \<Rightarrow> char \<Rightarrow> char \<Rightarrow> nat option" where
  "hex4 a b c d =
     (case (fromHexChar a, fromHexChar b, fromHexChar c, fromHexChar d) of
        (Some w, Some x, Some y, Some z) \<Rightarrow> Some (((w * 16 + x) * 16 + y) * 16 + z)
      | _ \<Rightarrow> None)"

definition simple_escape :: "char \<Rightarrow> char option" where
  "simple_escape e =
     (if e = CHR 0x22 \<or> e = CHR 0x5C \<or> e = CHR ''/'' then Some e
      else if e = CHR ''b'' then Some (CHR 0x08)
      else if e = CHR ''f'' then Some (CHR 0x0C)
      else if e = CHR ''n'' then Some (CHR 0x0A)
      else if e = CHR ''r'' then Some (CHR 0x0D)
      else if e = CHR ''t'' then Some (CHR 0x09)
      else None)"

text \<open>
  A string body after its opening quote. A surrogate half escaped as \<open>\u\<close> is read as U+FFFD unless
  the other half follows.
\<close>

function parse_string_body :: "string \<Rightarrow> (string \<times> string) option" where
  "parse_string_body [] = None"
| "parse_string_body (c # s) =
     (if c = CHR 0x22 then Some ([], s)
      else if c = CHR 0x5C then
        (case s of
           [] \<Rightarrow> None
         | e # s1 \<Rightarrow>
             (case simple_escape e of
                Some x \<Rightarrow> map_option (apfst (Cons x)) (parse_string_body s1)
              | None \<Rightarrow>
                  if e = CHR ''u'' then
                    (case s1 of
                       a # b # x # d # s2 \<Rightarrow>
                         (case hex4 a b x d of
                            None \<Rightarrow> None
                          | Some n \<Rightarrow>
                              if 0xD800 \<le> n \<and> n < 0xE000 then
                                (case s2 of
                                   bs # u # a' # b' # x' # d' # s3 \<Rightarrow>
                                     (case hex4 a' b' x' d' of
                                        Some m \<Rightarrow>
                                          if bs = CHR 0x5C \<and> u = CHR ''u'' \<and> n < 0xDC00 \<and>
                                             0xDC00 \<le> m \<and> m < 0xE000
                                          then map_option
                                                 (apfst (append (utf8 (0x10000 + (n - 0xD800) * 1024 + (m - 0xDC00)))))
                                                 (parse_string_body s3)
                                          else map_option (apfst (append (utf8 0xFFFD)))
                                                 (parse_string_body s2)
                                      | None \<Rightarrow> map_option (apfst (append (utf8 0xFFFD)))
                                                 (parse_string_body s2))
                                 | _ \<Rightarrow> map_option (apfst (append (utf8 0xFFFD)))
                                         (parse_string_body s2))
                              else map_option (apfst (append (utf8 n))) (parse_string_body s2))
                     | _ \<Rightarrow> None)
                  else None))
      else if of_char c < (32::nat) then None
      else map_option (apfst (Cons c)) (parse_string_body s))"
  by pat_completeness auto
termination
  by (relation "measure length") auto

definition lex_int :: "string \<Rightarrow> (string \<times> string) option" where
  "lex_int s =
     (case s of
        [] \<Rightarrow> None
      | c # r \<Rightarrow>
          if c = CHR ''0'' then Some ([c], r)
          else if is_digit c then Some (takeWhile is_digit s, dropWhile is_digit s)
          else None)"

definition lex_frac :: "string \<Rightarrow> (string \<times> string) option" where
  "lex_frac s =
     (case s of
        [] \<Rightarrow> Some ([], [])
      | c # r \<Rightarrow>
          if c = CHR ''.'' then
            (if r \<noteq> [] \<and> is_digit (hd r)
             then Some (c # takeWhile is_digit r, dropWhile is_digit r) else None)
          else Some ([], s))"

definition lex_exp :: "string \<Rightarrow> (string \<times> string) option" where
  "lex_exp s =
     (case s of
        [] \<Rightarrow> Some ([], [])
      | c # r \<Rightarrow>
          if c = CHR ''e'' \<or> c = CHR ''E'' then
            (let sg = (case r of d # _ \<Rightarrow> if d = CHR ''+'' \<or> d = CHR ''-'' then [d] else [] | [] \<Rightarrow> []);
                 r' = drop (length sg) r
             in if r' \<noteq> [] \<and> is_digit (hd r')
                then Some (c # sg @ takeWhile is_digit r', dropWhile is_digit r') else None)
          else Some ([], s))"

definition lex_unsigned :: "string \<Rightarrow> (string \<times> string) option" where
  "lex_unsigned s =
     (case lex_int s of
        None \<Rightarrow> None
      | Some (a, s2) \<Rightarrow>
          (case lex_frac s2 of
             None \<Rightarrow> None
           | Some (b, s3) \<Rightarrow>
               (case lex_exp s3 of
                  None \<Rightarrow> None
                | Some (c, s4) \<Rightarrow> Some (a @ b @ c, s4))))"

definition lex_number :: "string \<Rightarrow> (string \<times> string) option" where
  "lex_number s =
     (case s of
        [] \<Rightarrow> None
      | c # r \<Rightarrow> if c = CHR ''-'' then map_option (apfst (Cons c)) (lex_unsigned r)
                 else lex_unsigned s)"

definition is_number :: "string \<Rightarrow> bool" where
  "is_number n \<longleftrightarrow> lex_number n = Some (n, [])"

fun parse_value :: "nat \<Rightarrow> string \<Rightarrow> (json \<times> string) option"
  and parse_elems :: "nat \<Rightarrow> string \<Rightarrow> (json list \<times> string) option"
  and parse_members :: "nat \<Rightarrow> string \<Rightarrow> ((string \<times> json) list \<times> string) option" where
  "parse_value 0 s = None"
| "parse_value (Suc n) s =
     (case skip_ws s of
        [] \<Rightarrow> None
      | c # r \<Rightarrow>
          if c = CHR 0x22 then map_option (apfst JStr) (parse_string_body r)
          else if c = CHR ''['' then
            (case skip_ws r of
               [] \<Rightarrow> None
             | d # r' \<Rightarrow> if d = CHR '']'' then Some (JArr [], r')
                        else map_option (apfst JArr) (parse_elems n r))
          else if c = CHR ''{'' then
            (case skip_ws r of
               [] \<Rightarrow> None
             | d # r' \<Rightarrow> if d = CHR ''}'' then Some (JObj [], r')
                        else map_option (apfst JObj) (parse_members n r))
          else if c = CHR ''n'' then
            (if take 3 r = ''ull'' then Some (JNull, drop 3 r) else None)
          else if c = CHR ''t'' then
            (if take 3 r = ''rue'' then Some (JBool True, drop 3 r) else None)
          else if c = CHR ''f'' then
            (if take 4 r = ''alse'' then Some (JBool False, drop 4 r) else None)
          else map_option (apfst JNum) (lex_number (c # r)))"
| "parse_elems 0 s = None"
| "parse_elems (Suc n) s =
     (case parse_value n s of
        None \<Rightarrow> None
      | Some (v, r) \<Rightarrow>
          (case skip_ws r of
             [] \<Rightarrow> None
           | d # r' \<Rightarrow>
               if d = CHR '','' then map_option (apfst (Cons v)) (parse_elems n r')
               else if d = CHR '']'' then Some ([v], r')
               else None))"
| "parse_members 0 s = None"
| "parse_members (Suc n) s =
     (case skip_ws s of
        [] \<Rightarrow> None
      | q # s1 \<Rightarrow>
          if q \<noteq> CHR 0x22 then None
          else (case parse_string_body s1 of
                  None \<Rightarrow> None
                | Some (k, s2) \<Rightarrow>
                    (case skip_ws s2 of
                       [] \<Rightarrow> None
                     | c # s3 \<Rightarrow>
                         if c \<noteq> CHR '':'' then None
                         else (case parse_value n s3 of
                                 None \<Rightarrow> None
                               | Some (v, r) \<Rightarrow>
                                   (case skip_ws r of
                                      [] \<Rightarrow> None
                                    | d # r' \<Rightarrow>
                                        if d = CHR '','' then
                                          map_option (apfst (Cons (k, v))) (parse_members n r')
                                        else if d = CHR ''}'' then Some ([(k, v)], r')
                                        else None)))))"

definition json_parse :: "string \<Rightarrow> json option" where
  "json_parse s =
     (case parse_value (2 * length s + 1) s of
        None \<Rightarrow> None
      | Some (v, r) \<Rightarrow> if skip_ws r = [] then Some v else None)"

subsection \<open>Unsigned and signed integers\<close>

definition digit :: "nat \<Rightarrow> char" where
  "digit n = char_of (48 + n)"

fun nat_str :: "nat \<Rightarrow> string" where
  "nat_str n = (if n < 10 then [digit n] else nat_str (n div 10) @ [digit (n mod 10)])"

definition digits_val :: "string \<Rightarrow> nat" where
  "digits_val s = foldl (\<lambda>a c. 10 * a + (of_char c - 48)) 0 s"

definition str_nat :: "string \<Rightarrow> nat option" where
  "str_nat s = (if s \<noteq> [] \<and> list_all is_digit s then Some (digits_val s) else None)"

definition int_str :: "int \<Rightarrow> string" where
  "int_str i = (if i < 0 then CHR ''-'' # nat_str (nat (- i)) else nat_str (nat i))"

definition str_int :: "string \<Rightarrow> int option" where
  "str_int s =
     (case s of
        [] \<Rightarrow> None
      | c # r \<Rightarrow> if c = CHR ''-'' then map_option (\<lambda>n. - int n) (str_nat r)
                 else map_option int (str_nat s))"

subsection \<open>Base64\<close>

definition b64char :: "nat \<Rightarrow> char" where
  "b64char n =
     (if n < 26 then char_of (65 + n)        \<comment> \<open>A to Z\<close>
      else if n < 52 then char_of (71 + n)   \<comment> \<open>a to z\<close>
      else if n < 62 then char_of (n - 4)    \<comment> \<open>0 to 9\<close>
      else if n = 62 then CHR ''+'' else CHR ''/'')"

definition b64val :: "char \<Rightarrow> nat option" where
  "b64val c =
     (let n = of_char c in
      if 65 \<le> n \<and> n \<le> 90 then Some (n - 65)
      else if 97 \<le> n \<and> n \<le> 122 then Some (n - 71)
      else if 48 \<le> n \<and> n \<le> 57 then Some (n + 4)
      else if n = 43 then Some 62
      else if n = 47 then Some 63
      else None)"

fun b64encode :: "bytes \<Rightarrow> string" where
  "b64encode [] = []"
| "b64encode [a] =
     [b64char (of_char a div 4), b64char (of_char a mod 4 * 16), CHR ''='', CHR ''='']"
| "b64encode [a, b] =
     [b64char (of_char a div 4), b64char (of_char a mod 4 * 16 + of_char b div 16),
      b64char (of_char b mod 16 * 4), CHR ''='']"
| "b64encode (a # b # c # r) =
     b64char (of_char a div 4) # b64char (of_char a mod 4 * 16 + of_char b div 16) #
     b64char (of_char b mod 16 * 4 + of_char c div 64) # b64char (of_char c mod 64) # b64encode r"

fun b64dec :: "string \<Rightarrow> bytes option" where
  "b64dec [] = Some []"
| "b64dec (w # x # y # z # r) =
     (case (b64val w, b64val x) of
        (Some vw, Some vx) \<Rightarrow>
          if y = CHR ''='' then
            (if z = CHR ''='' \<and> r = [] then Some [char_of (vw * 4 + vx div 16)] else None)
          else
            (case b64val y of
               None \<Rightarrow> None
             | Some vy \<Rightarrow>
                 if z = CHR ''='' then
                   (if r = [] then Some [char_of (vw * 4 + vx div 16), char_of (vx mod 16 * 16 + vy div 4)]
                    else None)
                 else
                   (case b64val z of
                      None \<Rightarrow> None
                    | Some vz \<Rightarrow>
                        map_option
                          (append [char_of (vw * 4 + vx div 16), char_of (vx mod 16 * 16 + vy div 4),
                                   char_of (vy mod 4 * 64 + vz)])
                          (b64dec r)))
      | _ \<Rightarrow> None)"
| "b64dec _ = None"

definition b64decode :: "string \<Rightarrow> bytes option" where
  "b64decode s = b64dec (filter (\<lambda>c. c \<noteq> CHR 0x0A \<and> c \<noteq> CHR 0x0D) s)"

subsection \<open>Well-formed values\<close>

definition ascii :: "string \<Rightarrow> bool" where
  "ascii s \<longleftrightarrow> (\<forall>c\<in>set s. of_char c < (128::nat))"

fun json_wf :: "json \<Rightarrow> bool" where
  "json_wf JNull = True"
| "json_wf (JBool b) = True"
| "json_wf (JNum n) = is_number n"
| "json_wf (JStr s) = ascii s"
| "json_wf (JArr js) = (\<forall>j\<in>set js. json_wf j)"
| "json_wf (JObj kvs) = (\<forall>kv\<in>set kvs. ascii (fst kv) \<and> json_wf (snd kv))"

section \<open>Lemmas\<close>

lemma ascii_simps [simp]:
  "ascii []" "ascii (c # s) \<longleftrightarrow> of_char c < (128::nat) \<and> ascii s"
  "ascii (a @ b) \<longleftrightarrow> ascii a \<and> ascii b"
  by (auto simp: ascii_def)

lemma ascii_hexEncode [simp]: "ascii (hexEncode bs)"
proof -
  have d: "of_char (hexDigit n) < (128::nat)" if "n < 16" for n
    using that by (rule hex_digits_all) (simp add: hexDigit_def upt_rec)
  have "of_char b div 16 < (16::nat)" for b :: char
    using of_char_less_256 [of b] by (simp add: div_less_iff_less_mult)
  then show ?thesis by (induction bs) (auto simp: d)
qed

lemma ascii_Address_String [simp]: "ascii (Address_String a)"
  by (simp add: Address_String_def)

subsection \<open>Strings\<close>

declare parse_string_body.simps [simp del]

lemma hex4_byte: "m < 256 \<Longrightarrow> hex4 (CHR ''0'') (CHR ''0'') (hexDigit (m div 16)) (hexDigit (m mod 16)) = Some m"
proof -
  assume "m < 256"
  then have "m div 16 < 16" by (simp add: div_less_iff_less_mult)
  moreover have "fromHexChar (CHR ''0'') = Some 0" by (simp add: fromHexChar_def)
  ultimately show ?thesis by (simp add: hex4_def)
qed

lemma esc_char_cases:
  "(esc_char c = [c] \<and> c \<noteq> CHR 0x22 \<and> c \<noteq> CHR 0x5C \<and> \<not> of_char c < (32::nat)) \<or>
   esc_char c = [CHR 0x5C, CHR ''u'', CHR ''0'', CHR ''0'',
              hexDigit (of_char c div 16), hexDigit (of_char c mod 16)] \<or>
   (\<exists>e. esc_char c = [CHR 0x5C, e] \<and> simple_escape e = Some c)"
  by (simp add: esc_char_def simple_escape_def)

lemma parse_string_body_esc:
  assumes "of_char c < (128::nat)"
  shows "parse_string_body (esc_char c @ s) = map_option (apfst (Cons c)) (parse_string_body s)"
proof -
  have c256: "of_char c < (256::nat)" using assms by simp
  have u: "parse_string_body ([CHR 0x5C, CHR ''u'', CHR ''0'', CHR ''0'',
              hexDigit (of_char c div 16), hexDigit (of_char c mod 16)] @ s) =
           map_option (apfst (Cons c)) (parse_string_body s)"
    using hex4_byte [OF c256] assms
    by (simp add: parse_string_body.simps simple_escape_def utf8_def append_Cons [abs_def])
  from esc_char_cases [of c] show ?thesis
  proof (elim disjE)
    assume "\<exists>e. esc_char c = [CHR 0x5C, e] \<and> simple_escape e = Some c"
    then show ?thesis by (auto simp: parse_string_body.simps)
  next
    assume "esc_char c = [CHR 0x5C, CHR ''u'', CHR ''0'', CHR ''0'',
              hexDigit (of_char c div 16), hexDigit (of_char c mod 16)]"
    with u show ?thesis by simp
  qed (simp add: parse_string_body.simps)
qed

lemma parse_string_body_print:
  "ascii s \<Longrightarrow> parse_string_body (concat (map esc_char s) @ CHR 0x22 # r) = Some (s, r)"
  by (induction s) (simp_all add: ascii_def parse_string_body_esc parse_string_body.simps)

subsection \<open>Numbers\<close>

definition num_stop :: "string \<Rightarrow> bool" where
  "num_stop r \<longleftrightarrow> r = [] \<or>
     (\<not> is_digit (hd r) \<and> hd r \<noteq> CHR ''.'' \<and> hd r \<noteq> CHR ''e'' \<and> hd r \<noteq> CHR ''E'')"

lemma takeWhile_dropWhile_stop:
  assumes "ys = [] \<or> \<not> P (hd ys)"
  shows "takeWhile P (xs @ ys) = takeWhile P xs" and "dropWhile P (xs @ ys) = dropWhile P xs @ ys"
  using assms by (induction xs; cases ys; simp)+

lemma lex_int_append:
  "lex_int s = Some (a, b) \<Longrightarrow> num_stop r \<Longrightarrow> lex_int (s @ r) = Some (a, b @ r)"
  unfolding lex_int_def num_stop_def
  by (cases s) (auto simp: takeWhile_dropWhile_stop split: if_splits)

lemma lex_frac_append:
  "lex_frac s = Some (a, b) \<Longrightarrow> num_stop r \<Longrightarrow> lex_frac (s @ r) = Some (a, b @ r)"
  unfolding lex_frac_def num_stop_def
  by (cases s; cases r) (auto simp: takeWhile_dropWhile_stop split: if_splits)

lemma lex_exp_append:
  assumes "lex_exp s = Some (a, b)" and "num_stop r"
  shows "lex_exp (s @ r) = Some (a, b @ r)"
proof (cases s)
  case Nil
  with assms show ?thesis by (cases r) (auto simp: lex_exp_def num_stop_def)
next
  case (Cons c t)
  with assms show ?thesis
    by (cases t) (auto simp: lex_exp_def num_stop_def Let_def takeWhile_dropWhile_stop
        split: if_splits)
qed

lemma lex_unsigned_append:
  "lex_unsigned s = Some (a, b) \<Longrightarrow> num_stop r \<Longrightarrow> lex_unsigned (s @ r) = Some (a, b @ r)"
  by (simp add: lex_unsigned_def lex_int_append lex_frac_append lex_exp_append
      split: option.splits prod.splits if_splits)
     (auto simp: lex_int_append lex_frac_append lex_exp_append)

lemma lex_number_append:
  "lex_number s = Some (a, b) \<Longrightarrow> num_stop r \<Longrightarrow> lex_number (s @ r) = Some (a, b @ r)"
  using lex_unsigned_append [of s a b r]
  by (cases s) (auto simp: lex_number_def lex_unsigned_append split: if_splits)

lemma is_number_lex: "is_number n \<Longrightarrow> num_stop r \<Longrightarrow> lex_number (n @ r) = Some (n, r)"
  unfolding is_number_def by (drule lex_number_append) auto

lemma is_number_hd:
  assumes "is_number n"
  obtains c r where "n = c # r" and "is_digit c \<or> c = CHR ''-''"
  using assms
  by (cases n) (auto simp: is_number_def lex_number_def lex_unsigned_def lex_int_def is_digit_def
      split: if_splits)

subsection \<open>Values\<close>

lemma skip_ws_Cons: "\<not> is_ws c \<Longrightarrow> skip_ws (c # s) = c # s"
  by (simp add: skip_ws_def)

lemma skip_ws_tokens [simp]:
  "skip_ws (CHR 0x22 # s) = CHR 0x22 # s" "skip_ws (CHR '','' # s) = CHR '','' # s"
  "skip_ws (CHR '']'' # s) = CHR '']'' # s" "skip_ws (CHR ''}'' # s) = CHR ''}'' # s"
  "skip_ws (CHR ''['' # s) = CHR ''['' # s" "skip_ws (CHR ''{'' # s) = CHR ''{'' # s"
  "skip_ws (CHR '':'' # s) = CHR '':'' # s" "skip_ws (CHR ''n'' # s) = CHR ''n'' # s"
  "skip_ws (CHR ''t'' # s) = CHR ''t'' # s" "skip_ws (CHR ''f'' # s) = CHR ''f'' # s"
  "skip_ws [] = []"
  by (simp_all add: skip_ws_def is_ws_def)

lemma num_start:
  assumes "is_digit c \<or> c = CHR ''-''"
  shows "\<not> is_ws c" "c \<noteq> CHR 0x22" "c \<noteq> CHR ''[''" "c \<noteq> CHR ''{''" "c \<noteq> CHR ''n''"
    "c \<noteq> CHR ''t''" "c \<noteq> CHR ''f''" "c \<noteq> CHR '']''"
  using assms by (auto simp: is_digit_def is_ws_def)

lemma print_json_start:
  "json_wf j \<Longrightarrow> \<exists>c r. print_json j = c # r \<and> \<not> is_ws c \<and> c \<noteq> CHR '']''"
proof (cases j)
  case (JNum n)
  assume "json_wf j"
  with JNum obtain c r where "n = c # r" "is_digit c \<or> c = CHR ''-''"
    by (auto elim: is_number_hd)
  with JNum num_start(1,8) show ?thesis by auto
qed (simp_all add: is_ws_def print_string_def)

lemma print_json_nonempty: "json_wf j \<Longrightarrow> print_json j \<noteq> []"
  by (drule print_json_start) auto

lemma print_elems_start:
  "json_wf (JArr (j # js)) \<Longrightarrow>
     \<exists>c r. print_elems (j # js) = c # r \<and> \<not> is_ws c \<and> c \<noteq> CHR '']''"
  using print_json_start [of j] by (cases js) auto

lemma print_members_start:
  "\<exists>r. print_members (kv # kvs) = CHR 0x22 # r"
  by (cases kv; cases kvs) (auto simp: print_string_def)

lemma num_stop_tokens [simp]:
  "num_stop []" "num_stop (CHR '','' # r)" "num_stop (CHR '']'' # r)" "num_stop (CHR ''}'' # r)"
  by (simp_all add: num_stop_def is_digit_def)

lemma parse_value_scalars:
  "parse_value (Suc n) (print_json JNull @ r) = Some (JNull, r)"
  "parse_value (Suc n) (print_json (JBool b) @ r) = Some (JBool b, r)"
  "ascii s \<Longrightarrow> parse_value (Suc n) (print_json (JStr s) @ r) = Some (JStr s, r)"
  "is_number l \<Longrightarrow> num_stop r \<Longrightarrow> parse_value (Suc n) (print_json (JNum l) @ r) = Some (JNum l, r)"
proof -
  assume l: "is_number l" "num_stop r"
  then obtain c t where c: "l = c # t" "is_digit c \<or> c = CHR ''-''" by (blast elim: is_number_hd)
  with l is_number_lex [OF l] num_start [OF c(2)]
  show "parse_value (Suc n) (print_json (JNum l) @ r) = Some (JNum l, r)"
    by (simp add: skip_ws_Cons)
qed (simp_all add: print_string_def parse_string_body_print)

lemma parse_print:
  "json_wf j \<Longrightarrow> num_stop r \<Longrightarrow> 2 * length (print_json j) \<le> n \<Longrightarrow>
     parse_value n (print_json j @ r) = Some (j, r)"
  "json_wf (JArr js) \<Longrightarrow> js \<noteq> [] \<Longrightarrow> 2 * length (print_elems js) < n \<Longrightarrow>
     parse_elems n (print_elems js @ CHR '']'' # r) = Some (js, r)"
  "json_wf (JObj kvs) \<Longrightarrow> kvs \<noteq> [] \<Longrightarrow> 2 * length (print_members kvs) < n \<Longrightarrow>
     parse_members n (print_members kvs @ CHR ''}'' # r) = Some (kvs, r)"
proof (induction j and js and kvs arbitrary: n r and n r and n r
    rule: print_json_print_elems_print_members.induct)
  case (1 n r)
  then show ?case by (cases n) simp_all
next
  case (2 b n r)
  then show ?case by (cases n; cases b) simp_all
next
  case (3 l)
  then show ?case
    using print_json_nonempty [of "JNum l"]
      parse_value_scalars(4) [of l r "n - 1"]
    by (cases n) (simp_all del: parse_value.simps)
next
  case (4 s)
  then show ?case
    using parse_value_scalars(3) [of s "n - 1" r]
    by (cases n) (simp_all del: parse_value.simps, simp add: print_string_def)
next
  case (5 js)
  then obtain m where n: "n = Suc m" by (cases n) auto
  show ?case
  proof (cases js)
    case Nil
    then show ?thesis by (simp add: n)
  next
    case (Cons j js')
    with 5 have "parse_elems m (print_elems js @ CHR '']'' # r) = Some (js, r)"
      by (intro "5.IH") (simp_all add: n)
    moreover obtain c t where "print_elems js = c # t" "\<not> is_ws c" "c \<noteq> CHR '']''"
      using "5.prems"(1) Cons print_elems_start by blast
    ultimately show ?thesis by (simp add: n skip_ws_Cons)
  qed
next
  case (6 kvs)
  then obtain m where n: "n = Suc m" by (cases n) auto
  show ?case
  proof (cases kvs)
    case Nil
    then show ?thesis by (simp add: n)
  next
    case (Cons kv kvs')
    with 6 have "parse_members m (print_members kvs @ CHR ''}'' # r) = Some (kvs, r)"
      by (intro "6.IH") (simp_all add: n)
    moreover obtain t where "print_members kvs = CHR 0x22 # t"
      using print_members_start Cons by blast
    ultimately show ?thesis by (simp add: n)
  qed
next
  case (8 j)
  then obtain m where n: "n = Suc m" by (cases n) auto
  from 8 show ?case by (simp add: n)
next
  case (9 j j' js)
  then obtain m where n: "n = Suc m" by (cases n) auto
  from 9 show ?case by (simp add: n)
next
  case (11 k v)
  then obtain m where n: "n = Suc m" by (cases n) auto
  from 11 show ?case by (simp add: n print_string_def parse_string_body_print)
next
  case (12 k v kv kvs)
  then obtain m where n: "n = Suc m" by (cases n) auto
  from 12 show ?case by (simp add: n print_string_def parse_string_body_print)
qed (auto simp: Suc_le_eq elim!: lessE)

lemma json_parse_print: "json_wf j \<Longrightarrow> json_parse (print_json j) = Some j"
  using parse_print(1) [of j "[]" "2 * length (print_json j) + 1"] by (simp add: json_parse_def)

subsection \<open>Integers\<close>

declare nat_str.simps [simp del]

lemma of_char_digit: "n < 10 \<Longrightarrow> of_char (digit n) = (48 + n :: nat)"
  by (simp add: digit_def of_char_of)

lemma is_digit_digit [simp]: "n < 10 \<Longrightarrow> is_digit (digit n)"
  by (simp add: is_digit_def of_char_digit)

lemma nat_str_digits: "list_all is_digit (nat_str n)"
  by (induction n rule: nat_str.induct) (subst nat_str.simps, simp)

lemma nat_str_nonempty [simp]: "nat_str n \<noteq> []"
  by (subst nat_str.simps) simp

lemma digits_val_snoc: "digits_val (s @ [c]) = 10 * digits_val s + (of_char c - 48)"
  by (simp add: digits_val_def)

lemma digits_val_nat_str: "digits_val (nat_str n) = n"
proof (induction n rule: nat_str.induct)
  case (1 n)
  show ?case
  proof (cases "n < 10")
    case True
    then show ?thesis by (simp add: nat_str.simps [of n] digits_val_def of_char_digit)
  next
    case False
    with 1 show ?thesis by (simp add: nat_str.simps [of n] digits_val_snoc of_char_digit)
  qed
qed

lemma str_nat_nat_str [simp]: "str_nat (nat_str n) = Some n"
  by (simp add: str_nat_def nat_str_digits digits_val_nat_str)

lemma nat_str_hd: "0 < n \<Longrightarrow> hd (nat_str n) \<noteq> CHR ''0''"
proof (induction n rule: nat_str.induct)
  case (1 n)
  show ?case
  proof (cases "n < 10")
    case True
    then have "hd (nat_str n) = digit n" by (simp add: nat_str.simps [of n])
    moreover from True have "of_char (digit n) = (48 + n :: nat)" by (rule of_char_digit)
    ultimately show ?thesis using "1.prems" by auto
  next
    case False
    with 1 show ?thesis by (simp add: nat_str.simps [of n] hd_append)
  qed
qed

lemma nat_str_Cons:
  obtains c r where "nat_str n = c # r" "is_digit c" "list_all is_digit r" "c = CHR ''0'' \<longrightarrow> r = []"
proof (cases "nat_str n")
  case (Cons c r)
  have "r = []" if "c = CHR ''0''"
  proof -
    from nat_str_hd [of n] Cons that have "n = 0" by auto
    with Cons show ?thesis by (auto simp: nat_str.simps)
  qed
  with Cons nat_str_digits [of n] show thesis by (intro that [of c r]) simp_all
qed simp

lemma lex_int_nat_str: "lex_int (nat_str n) = Some (nat_str n, [])"
proof -
  obtain c r where n: "nat_str n = c # r" "is_digit c" "list_all is_digit r" "c = CHR ''0'' \<longrightarrow> r = []"
    by (rule nat_str_Cons [of n])
  from n(3) have tw: "takeWhile is_digit r = r" "dropWhile is_digit r = []"
    by (auto simp: list_all_iff takeWhile_eq_all_conv dropWhile_eq_Nil_conv)
  show ?thesis using n(1,2,4) by (auto simp: lex_int_def tw)
qed

lemma lex_unsigned_nat_str: "lex_unsigned (nat_str n) = Some (nat_str n, [])"
  by (simp add: lex_unsigned_def lex_int_nat_str lex_frac_def lex_exp_def)

lemma nat_str_hd_minus: "hd (nat_str n) \<noteq> CHR ''-''"
proof -
  obtain c r where "nat_str n = c # r" "is_digit c" by (rule nat_str_Cons [of n])
  then show ?thesis by (auto simp: is_digit_def)
qed

lemma is_number_nat_str [simp]: "is_number (nat_str n)"
proof -
  obtain c r where n: "nat_str n = c # r" "is_digit c" by (rule nat_str_Cons [of n])
  with lex_unsigned_nat_str [of n] show ?thesis
    by (auto simp: is_number_def lex_number_def is_digit_def)
qed

lemma is_number_int_str [simp]: "is_number (int_str i)"
  using is_number_nat_str [of "nat i"] lex_unsigned_nat_str
  by (simp add: int_str_def) (simp add: is_number_def lex_number_def)

lemma str_int_int_str [simp]: "str_int (int_str i) = Some i"
proof (cases "i < 0")
  case False
  obtain c r where n: "nat_str (nat i) = c # r" "is_digit c" by (rule nat_str_Cons [of "nat i"])
  then have "c \<noteq> CHR ''-''" by (auto simp: is_digit_def)
  with n False str_nat_nat_str [of "nat i"] show ?thesis
    by (simp add: str_int_def int_str_def)
qed (simp add: str_int_def int_str_def)

subsection \<open>Base64\<close>

lemma b64val_b64char [simp]:
  assumes "n < 64"
  shows "b64val (b64char n) = Some n" and "of_char (b64char n) < (128::nat)"
  using assms by (auto simp: b64char_def b64val_def of_char_of Let_def)

lemma b64char_neq [simp]:
  assumes "n < 64"
  shows "b64char n \<noteq> CHR ''=''" "b64char n \<noteq> CHR 0x0A" "b64char n \<noteq> CHR 0x0D"
proof -
  have "b64val (CHR ''='') = None" "b64val (CHR 0x0A) = None" "b64val (CHR 0x0D) = None"
    by (simp_all add: b64val_def)
  with b64val_b64char(1) [OF assms]
  show "b64char n \<noteq> CHR ''=''" "b64char n \<noteq> CHR 0x0A" "b64char n \<noteq> CHR 0x0D" by force+
qed

lemma of_char_parts [simp]:
  "of_char c div 4 < (64::nat)" "of_char c div 16 < (16::nat)" "of_char c div 64 < (4::nat)"
  using of_char_less_256 [of c] by (simp_all add: div_less_iff_less_mult)

lemma b64_sextets [simp]:
  "of_char a mod 4 * 16 < (64::nat)" "of_char b mod 16 * 4 < (64::nat)"
  "of_char a mod 4 * 16 + of_char b div 16 < (64::nat)"
  "of_char b mod 16 * 4 + of_char c div 64 < (64::nat)"
proof -
  have "of_char a mod 4 < (4::nat)" "of_char b mod 16 < (16::nat)" by simp_all
  then show "of_char a mod 4 * 16 < (64::nat)" "of_char b mod 16 * 4 < (64::nat)"
    "of_char a mod 4 * 16 + of_char b div 16 < (64::nat)"
    "of_char b mod 16 * 4 + of_char c div 64 < (64::nat)"
    using of_char_parts(2) [of b] of_char_parts(3) [of c] by linarith+
qed

lemma b64dec_b64encode: "b64dec (b64encode bs) = Some bs"
  by (induction bs rule: b64encode.induct) simp_all

lemma b64encode_chars: "c \<in> set (b64encode bs) \<Longrightarrow> c \<noteq> CHR 0x0A \<and> c \<noteq> CHR 0x0D \<and> of_char c < (128::nat)"
  by (induction bs rule: b64encode.induct) auto

lemma b64decode_b64encode [simp]: "b64decode (b64encode bs) = Some bs"
proof -
  have "filter (\<lambda>c. c \<noteq> CHR 0x0A \<and> c \<noteq> CHR 0x0D) (b64encode bs) = b64encode bs"
    using b64encode_chars by (auto simp: filter_id_conv)
  then show ?thesis by (simp add: b64decode_def b64dec_b64encode)
qed

lemma ascii_b64encode [simp]: "ascii (b64encode bs)"
  by (auto simp: ascii_def dest: b64encode_chars)

end
