(* ===== verification/Values.thy ===== *)
theory Values
  imports Json Complex_Main
begin

text \<open>
  Run-time values: \<open>float64\<close> (IEEE 754 binary64 with rounding to nearest, ties to even) and the
  dynamic values of type \<open>interface{}\<close> that cross the wire, with their conversions from and to JSON.

  A finite double is its rational value; negative zero is kept apart. \<open>strconv\<close>'s shortest decimal
  form of a double is the parameter \<open>ff\<close> of the conversions to JSON.
\<close>

section \<open>Definitions\<close>

subsection \<open>Doubles\<close>

datatype float64 = FNaN | FPosInf | FNegInf | FNegZero | FFin rat

fun ilog2 :: "nat \<Rightarrow> nat" where
  "ilog2 n = (if n < 2 then 0 else Suc (ilog2 (n div 2)))"

definition pow2 :: "int \<Rightarrow> rat" where
  "pow2 k = (if 0 \<le> k then 2 ^ nat k else 1 / 2 ^ nat (- k))"

text \<open>The binary exponent of a positive rational: \<open>pow2 e \<le> x < pow2 (e + 1)\<close>.\<close>

definition fexp :: "rat \<Rightarrow> int" where
  "fexp x =
     (if 1 \<le> x then int (ilog2 (nat \<lfloor>x\<rfloor>))
      else (let m = nat \<lceil>1 / x\<rceil> in if m \<le> 1 then 0 else - int (ilog2 (m - 1)) - 1))"

definition round_even :: "rat \<Rightarrow> int" where
  "round_even y =
     (let f = \<lfloor>y\<rfloor>; d = y - of_int f
      in if d < 1 / 2 then f else if d > 1 / 2 then f + 1 else if even f then f else f + 1)"

definition fround :: "rat \<Rightarrow> float64" where
  "fround x =
     (if x = 0 then FFin 0
      else (let q = max (fexp x - 52) (- 1074);
                v = of_int (round_even (x / pow2 q)) * pow2 q
            in if v \<ge> 2 ^ 1024 then FPosInf else FFin v))"

fun fneg :: "float64 \<Rightarrow> float64" where
  "fneg FNaN = FNaN"
| "fneg FPosInf = FNegInf"
| "fneg FNegInf = FPosInf"
| "fneg FNegZero = FFin 0"
| "fneg (FFin x) = (if x = 0 then FNegZero else FFin (- x))"

definition sround :: "bool \<Rightarrow> rat \<Rightarrow> float64" where
  "sround neg x = (if neg then fneg (fround x) else fround x)"

fun fval :: "float64 \<Rightarrow> rat" where
  "fval (FFin x) = x"
| "fval _ = 0"

fun fsign :: "float64 \<Rightarrow> bool" where
  "fsign FNegInf = True"
| "fsign FNegZero = True"
| "fsign (FFin x) = (x < 0)"
| "fsign _ = False"

fun finite64 :: "float64 \<Rightarrow> bool" where
  "finite64 (FFin x) = True"
| "finite64 FNegZero = True"
| "finite64 _ = False"

definition fadd :: "float64 \<Rightarrow> float64 \<Rightarrow> float64" where
  "fadd a b =
     (if a = FNaN \<or> b = FNaN then FNaN
      else if \<not> finite64 a then (if \<not> finite64 b \<and> a \<noteq> b then FNaN else a)
      else if \<not> finite64 b then b
      else if a = FNegZero \<and> b = FNegZero then FNegZero
      else (let s = fval a + fval b in sround (s < 0) \<bar>s\<bar>))"

definition fmul :: "float64 \<Rightarrow> float64 \<Rightarrow> float64" where
  "fmul a b =
     (let neg = (fsign a \<noteq> fsign b) in
      if a = FNaN \<or> b = FNaN then FNaN
      else if \<not> finite64 a \<or> \<not> finite64 b then
        (if (finite64 a \<and> fval a = 0) \<or> (finite64 b \<and> fval b = 0) then FNaN
         else if neg then FNegInf else FPosInf)
      else sround neg (\<bar>fval a\<bar> * \<bar>fval b\<bar>))"

definition fdiv :: "float64 \<Rightarrow> float64 \<Rightarrow> float64" where
  "fdiv a b =
     (let neg = (fsign a \<noteq> fsign b) in
      if a = FNaN \<or> b = FNaN then FNaN
      else if \<not> finite64 a then (if \<not> finite64 b then FNaN else if neg then FNegInf else FPosInf)
      else if \<not> finite64 b then (if neg then FNegZero else FFin 0)
      else if fval b = 0 then
        (if fval a = 0 then FNaN else if neg then FNegInf else FPosInf)
      else sround neg (\<bar>fval a\<bar> / \<bar>fval b\<bar>))"

definition float64_of_int :: "int \<Rightarrow> float64" where
  "float64_of_int i = sround (i < 0) \<bar>of_int i\<bar>"

text \<open>
  The double a JSON number literal denotes; a literal beyond the largest double is refused, as
  \<open>json.Unmarshal\<close> does.
\<close>

definition scale10 :: "nat \<Rightarrow> int \<Rightarrow> rat" where
  "scale10 m k = (if 0 \<le> k then of_nat m * 10 ^ nat k else of_nat m / 10 ^ nat (- k))"

definition exp_val :: "string \<Rightarrow> int" where
  "exp_val e =
     (case e of
        [] \<Rightarrow> 0
      | _ # r \<Rightarrow>
          (case r of
             [] \<Rightarrow> 0
           | d # ds \<Rightarrow> if d = CHR ''-'' then - int (digits_val ds)
                      else if d = CHR ''+'' then int (digits_val ds)
                      else int (digits_val r)))"

definition unsigned_rat :: "string \<Rightarrow> rat option" where
  "unsigned_rat s =
     (case lex_int s of
        None \<Rightarrow> None
      | Some (i, s2) \<Rightarrow>
          (case lex_frac s2 of
             None \<Rightarrow> None
           | Some (f, s3) \<Rightarrow>
               (case lex_exp s3 of
                  None \<Rightarrow> None
                | Some (e, s4) \<Rightarrow>
                    if s4 = [] then
                      Some (scale10 (digits_val (i @ tl f)) (exp_val e - int (length (tl f))))
                    else None)))"

definition lit_float64 :: "string \<Rightarrow> float64 option" where
  "lit_float64 s =
     (let neg = (s \<noteq> [] \<and> hd s = CHR ''-'')
      in case unsigned_rat (if neg then tl s else s) of
           None \<Rightarrow> None
         | Some x \<Rightarrow> (let r = sround neg x in if finite64 r then Some r else None))"

subsection \<open>Dynamic values\<close>

datatype goval =
    VNil
  | VBool bool
  | VNum float64
  | VStr string
  | VArr "goval list"
  | VMap "(string \<times> goval) list"

text \<open>\<open>json.Unmarshal\<close> into \<open>interface{}\<close>: a later duplicate of a key wins.\<close>

fun json_val :: "json \<Rightarrow> goval option" where
  "json_val JNull = Some VNil"
| "json_val (JBool b) = Some (VBool b)"
| "json_val (JNum n) = map_option VNum (lit_float64 n)"
| "json_val (JStr s) = Some (VStr s)"
| "json_val (JArr js) = map_option VArr (mapO json_val js)"
| "json_val (JObj kvs) =
     map_option (\<lambda>vs. VMap (fold (\<lambda>(k, v). gm_put k v) (zip (map fst kvs) vs) []))
       (mapO (\<lambda>kv. json_val (snd kv)) kvs)"

text \<open>\<open>json.Marshal\<close>: NaN and infinities are errors, the keys of a map are written in order.\<close>

fun val_json :: "(float64 \<Rightarrow> string) \<Rightarrow> goval \<Rightarrow> json option" where
  "val_json ff VNil = Some JNull"
| "val_json ff (VBool b) = Some (JBool b)"
| "val_json ff (VNum x) = (if finite64 x then Some (JNum (ff x)) else None)"
| "val_json ff (VStr s) = Some (JStr s)"
| "val_json ff (VArr vs) = map_option JArr (mapO (val_json ff) vs)"
| "val_json ff (VMap kvs) =
     map_option (\<lambda>js. JObj (sort_key fst (zip (map fst kvs) js)))
       (mapO (\<lambda>kv. val_json ff (snd kv)) kvs)"

definition jmarshal :: "(float64 \<Rightarrow> string) \<Rightarrow> goval \<Rightarrow> bytes option" where
  "jmarshal ff v = map_option print_json (val_json ff v)"

subsection \<open>Decoding JSON into Go values\<close>

text \<open>
  \<open>json.Unmarshal\<close> into a struct walks over the members of the object, finds the field whose name
  matches without regard to case, and decodes the value into it; unknown members are ignored and
  JSON null leaves a scalar as it is. A type mismatch makes the whole call fail.
\<close>

definition lower :: "char \<Rightarrow> char" where
  "lower c = (let n = of_char c in if 65 \<le> n \<and> n \<le> (90::nat) then char_of (n + 32) else c)"

definition decode_struct :: "(string \<Rightarrow> json \<Rightarrow> 's \<Rightarrow> 's option) \<Rightarrow> 's \<Rightarrow> json \<Rightarrow> 's option" where
  "decode_struct setf z j =
     (case j of
        JNull \<Rightarrow> Some z
      | JObj kvs \<Rightarrow> foldO (\<lambda>(k, v) s. setf (map lower k) v s) kvs z
      | _ \<Rightarrow> None)"

fun dec_str :: "json \<Rightarrow> string \<Rightarrow> string option" where
  "dec_str JNull old = Some old"
| "dec_str (JStr s) old = Some s"
| "dec_str _ old = None"

fun dec_word :: "json \<Rightarrow> 'w::len word \<Rightarrow> 'w word option" where
  "dec_word JNull old = Some old"
| "dec_word (JNum n) old =
     (case str_nat n of
        None \<Rightarrow> None
      | Some k \<Rightarrow> if k < 2 ^ LENGTH('w) then Some (of_nat k) else None)"
| "dec_word _ old = None"

fun dec_float :: "json \<Rightarrow> float64 \<Rightarrow> float64 option" where
  "dec_float JNull old = Some old"
| "dec_float (JNum n) old = lit_float64 n"
| "dec_float _ old = None"

fun dec_bytes :: "json \<Rightarrow> bytes option" where
  "dec_bytes JNull = Some []"
| "dec_bytes (JStr s) = b64decode s"
| "dec_bytes _ = None"

fun dec_slice :: "(json \<Rightarrow> 'a option) \<Rightarrow> json \<Rightarrow> 'a list option" where
  "dec_slice d JNull = Some []"
| "dec_slice d (JArr js) = mapO d js"
| "dec_slice d _ = None"

definition enc_word :: "'w::len word \<Rightarrow> json" where
  "enc_word w = JNum (nat_str (unat w))"

text \<open>A slice that was only ever appended to is nil when it is empty, and nil is written as null.\<close>

definition enc_slice :: "('a \<Rightarrow> json) \<Rightarrow> 'a list \<Rightarrow> json" where
  "enc_slice e xs = (if xs = [] then JNull else JArr (map e xs))"

section \<open>Lemmas\<close>

lemma dec_word_enc_word [simp]: "dec_word (enc_word w) old = Some w"
  by (simp add: enc_word_def unsigned_less)

lemma json_wf_enc_word [simp]: "json_wf (enc_word w)"
  by (simp add: enc_word_def)

lemma dec_slice_enc_slice:
  "(\<And>x. x \<in> set xs \<Longrightarrow> d (e x) = Some x) \<Longrightarrow> dec_slice d (enc_slice e xs) = Some xs"
  by (simp add: enc_slice_def mapO_map_id)

lemma json_wf_enc_slice: "(\<And>x. x \<in> set xs \<Longrightarrow> json_wf (e x)) \<Longrightarrow> json_wf (enc_slice e xs)"
  by (simp add: enc_slice_def)

declare ilog2.simps [simp del]

lemma ilog2_bounds: "0 < n \<Longrightarrow> 2 ^ ilog2 n \<le> n \<and> n < 2 ^ Suc (ilog2 n)"
proof (induction n rule: ilog2.induct)
  case (1 n)
  show ?case
  proof (cases "n < 2")
    case True
    with "1.prems" show ?thesis by (simp add: ilog2.simps [of n])
  next
    case False
    with 1 have "2 ^ ilog2 (n div 2) \<le> n div 2 \<and> n div 2 < 2 ^ Suc (ilog2 (n div 2))" by simp
    with False show ?thesis by (simp add: ilog2.simps [of n]) linarith
  qed
qed

lemma round_even_int [simp]: "round_even (of_int i) = i"
  by (simp add: round_even_def)

lemma fround_nat:
  assumes "n \<le> 2 ^ 53"
  shows "fround (of_nat n) = FFin (of_nat n)"
proof (cases "n = 0")
  case False
  define e where "e = ilog2 n"
  have e: "2 ^ e \<le> n" "n < 2 ^ Suc e" using ilog2_bounds [of n] False by (auto simp: e_def)
  have e53: "e \<le> 53"
  proof (rule ccontr)
    assume "\<not> e \<le> 53"
    then have "(2::nat) ^ 54 \<le> 2 ^ e" by (intro power_increasing) auto
    with e(1) assms show False by simp
  qed
  have fe: "fexp (of_nat n) = int e" using False by (simp add: fexp_def e_def)
  have q: "max (int e - 52) (- 1074) = int e - 52" by simp
  have dyadic: "\<exists>i. of_nat n / pow2 (int e - 52) = of_int i"
  proof (cases "e \<le> 52")
    case True
    then have "of_nat n / pow2 (int e - 52) = (of_int (int n * 2 ^ nat (52 - int e)) :: rat)"
      by (auto simp: pow2_def)
    then show ?thesis by blast
  next
    case False
    with e53 have "e = 53" by simp
    with e assms have n: "n = 2 ^ 53" by simp
    have "of_nat n / pow2 (int e - 52) = (of_int (2 ^ 52) :: rat)"
      unfolding n \<open>e = 53\<close> by (simp add: pow2_def)
    then show ?thesis by blast
  qed
  then obtain i where i: "of_nat n / pow2 (int e - 52) = (of_int i :: rat)" ..
  have "pow2 (int e - 52) \<noteq> 0" by (simp add: pow2_def)
  with i have v: "of_int i * pow2 (int e - 52) = (of_nat n :: rat)" by (simp add: field_simps)
  have "(of_nat n :: rat) \<le> of_nat (2 ^ 53)" using assms by (simp only: of_nat_le_iff)
  also have "\<dots> < 2 ^ 1024" by simp
  finally have "(of_nat n :: rat) < 2 ^ 1024" .
  with False show ?thesis
    by (simp add: fround_def Let_def fe q i v)
qed (simp add: fround_def)

lemma floor_rat_numeral: "\<lfloor>numeral a / numeral b :: rat\<rfloor> = numeral a div numeral b"
  using floor_divide_of_int_eq [of "numeral a" "numeral b", where 'a = rat] by simp

lemmas fround_eval = fround_def Let_def fexp_def ilog2.simps pow2_def round_even_def floor_rat_numeral

lemma sround_int:
  assumes "\<bar>i\<bar> \<le> 2 ^ 53"
  shows "sround (i < 0) \<bar>of_int i\<bar> = FFin (of_int i)"
proof -
  from assms have "nat \<bar>i\<bar> \<le> 2 ^ 53" by (simp add: nat_le_iff)
  then have "fround (of_nat (nat \<bar>i\<bar>)) = FFin (of_nat (nat \<bar>i\<bar>))" by (rule fround_nat)
  then have "fround \<bar>of_int i\<bar> = FFin \<bar>of_int i\<bar>" by simp
  then show ?thesis by (auto simp: sround_def)
qed

lemma float64_of_int_exact: "\<bar>i\<bar> \<le> 2 ^ 53 \<Longrightarrow> float64_of_int i = FFin (of_int i)"
  by (simp add: float64_of_int_def sround_int)

lemma fadd_int:
  assumes "\<bar>i + j\<bar> \<le> 2 ^ 53"
  shows "fadd (FFin (of_int i)) (FFin (of_int j)) = FFin (of_int (i + j))"
  using sround_int [OF assms] by (simp add: fadd_def Let_def flip: of_int_add)

subsection \<open>Whole numbers as JSON literals\<close>

lemma unsigned_rat_nat_str: "unsigned_rat (nat_str n) = Some (of_nat n)"
  by (simp add: unsigned_rat_def lex_int_nat_str lex_frac_def lex_exp_def exp_val_def scale10_def
      digits_val_nat_str)

lemma lit_float64_int_str:
  assumes "\<bar>i\<bar> \<le> 2 ^ 53"
  shows "lit_float64 (int_str i) = Some (FFin (of_int i))"
proof (cases "i < 0")
  case True
  with sround_int [OF assms] show ?thesis
    by (simp add: lit_float64_def int_str_def unsigned_rat_nat_str)
next
  case False
  with sround_int [OF assms] show ?thesis
    by (simp add: lit_float64_def int_str_def unsigned_rat_nat_str nat_str_hd_minus)
qed

lemma lit_float64_nat_str: "n \<le> 2 ^ 53 \<Longrightarrow> lit_float64 (nat_str n) = Some (FFin (of_nat n))"
  using lit_float64_int_str [of "int n"] by (simp add: int_str_def)

end
