(* ===== verification/Jobs.thy ===== *)
theory Jobs
  imports Values
begin

text \<open>
  The package \<open>ocr/jobs/\<close>: the job model (\<open>job.go\<close>), direct requests and their task pipeline
  (\<open>direct_req.go\<close>), the report assemblers (\<open>report_assembler.go\<close>) and the job reader
  (\<open>job_reader.go\<close>).

  What the package calls outside itself is the record \<open>job_env\<close>: \<open>http.Get\<close> with the reading of the
  body, \<open>strconv.ParseFloat\<close>, \<open>fmt.Sprintf("%v")\<close> and the shortest decimal form of a double. The
  TOML parser is an argument of \<open>JobReaderFactory_Read\<close>. A context with a timeout is its duration
  and the time elapsed when each task is about to start.
\<close>

section \<open>Definitions\<close>

subsection \<open>Data\<close>

type_synonym JobType = string

definition DirectReqJob :: JobType where "DirectReqJob = ''directrequest''"
definition CcipJob :: JobType where "CcipJob = ''ccip''"

record DirectReqReportGenParms =
  Strategy :: string
  ResultType :: string
  Schema :: string

record DirectReqTask =
  t_Name :: string
  t_Type :: string
  t_Method :: string
  t_URL :: string
  t_Input :: string
  t_Path :: string
  t_Factor :: float64

record DirectRequestTemplateParams =
  ContractAddress :: Address
  EvmChainID :: u64
  ChainID :: string
  ExternalJobID :: string
  SchemaVersion :: u64
  p_Name :: string
  ObservationSource :: "DirectReqTask list"
  ReportingStrategy :: DirectReqReportGenParms

record JobObservationResponse =
  JobId :: string
  Response :: bytes

text \<open>
  An assembler holds its job; it reads the job's type and parameters, which are never written
  after the job is made.
\<close>

datatype ReportAssembler = MeanValueAssembler JobType DirectRequestTemplateParams

record DirectRequest =
  dr_JobID :: string
  dr_JobType :: JobType
  dr_params :: DirectRequestTemplateParams
  dr_Results :: "(string, goval) gomap"
  dr_timeout :: u64
  dr_assembler :: "ReportAssembler option"

text \<open>\<open>Template interface{}\<close> holds the parameters on the leader, a decoded JSON value on a follower.\<close>

datatype Template = TParams DirectRequestTemplateParams | TValue goval

record JobInfo =
  ji_JobID :: string
  ji_JobType :: JobType
  ji_Template :: Template
  ji_Timeout :: u64

record JobEventResponse =
  ev_id :: string
  ev_event :: string
  ev_result :: bytes

record job_env =
  http_get :: "string \<Rightarrow> bytes option"
  parseFloat :: "string \<Rightarrow> float64 option"
  fmt_v :: "goval \<Rightarrow> string"
  shortest :: "float64 \<Rightarrow> string"

datatype job_error =
    HttpFailed
  | InvalidJSONInput string
  | JSONSyntax
  | KeyNotFound string
  | ParseFloatFailed
  | InvalidMathInput string
  | UnknownTaskType string
  | ExecutionCancelled
  | TaskFailed string job_error
  | UnsupportedStrategy string
  | TaskNotInResults string
  | NonNumericMean
  | ParseResponseFailed
  | NoObservations
  | UnsupportedJobType
  | MarshalTemplate
  | ParseTemplate
  | CcipNotProvided
  | UnknownJobType
  | TomlError

subsection \<open>Direct requests\<close>

definition NewDirectReq :: "DirectRequestTemplateParams \<Rightarrow> DirectRequest" where
  "NewDirectReq ps =
     \<lparr>dr_JobID = ExternalJobID ps, dr_JobType = DirectReqJob, dr_params = ps, dr_Results = [],
      dr_timeout = 0, dr_assembler = None\<rparr>"

definition DirectRequest_Payload :: "DirectRequest \<Rightarrow> DirectRequestTemplateParams" where
  "DirectRequest_Payload dr = dr_params dr"

definition TaskTimeout :: "DirectRequest \<Rightarrow> u64" where
  "TaskTimeout dr = dr_timeout dr"

text \<open>\<open>json.Unmarshal\<close> into \<open>map[string]interface{}\<close>.\<close>

definition unmarshal_map :: "string \<Rightarrow> (string, goval) gomap option" where
  "unmarshal_map s =
     (case json_parse s of
        Some JNull \<Rightarrow> Some []
      | Some (JObj kvs) \<Rightarrow>
          (case json_val (JObj kvs) of Some (VMap m) \<Rightarrow> Some m | _ \<Rightarrow> None)
      | _ \<Rightarrow> None)"

definition Execute ::
  "job_env \<Rightarrow> DirectReqTask \<Rightarrow> DirectRequest \<Rightarrow> (job_error, DirectRequest) res" where
  "Execute env task dr =
     (let put = (\<lambda>v. Ok (dr\<lparr>dr_Results := gm_put (t_Name task) v (dr_Results dr)\<rparr>)) in
      if t_Type task = ''http'' then
        (case http_get env (t_URL task) of
           None \<Rightarrow> Err HttpFailed
         | Some body \<Rightarrow> put (VStr body))
      else if t_Type task = ''json'' then
        (case map_of (dr_Results dr) (t_Input task) of
           Some (VStr input) \<Rightarrow>
             (case unmarshal_map input of
                None \<Rightarrow> Err JSONSyntax
              | Some parsed \<Rightarrow>
                  (case map_of parsed (t_Path task) of
                     None \<Rightarrow> Err (KeyNotFound (t_Path task))
                   | Some v \<Rightarrow> put v))
         | _ \<Rightarrow> Err (InvalidJSONInput (t_Input task)))
      else if t_Type task = ''math'' then
        (case map_of (dr_Results dr) (t_Input task) of
           Some (VNum input) \<Rightarrow> put (VNum (fmul input (t_Factor task)))
         | Some (VStr str) \<Rightarrow>
             (case parseFloat env str of
                None \<Rightarrow> Err ParseFloatFailed
              | Some num \<Rightarrow> put (VNum (fmul num (t_Factor task))))
         | _ \<Rightarrow> Err (InvalidMathInput (t_Input task)))
      else if t_Type task = ''log'' then Ok dr
      else Err (UnknownTaskType (t_Type task)))"

text \<open>The context of \<open>context.WithTimeout\<close>: done at once when the duration is not positive.\<close>

record ctx =
  ctx_timeout :: "int option"
  ctx_elapsed :: "nat \<Rightarrow> int"

definition ctx_done :: "ctx \<Rightarrow> nat \<Rightarrow> bool" where
  "ctx_done c i = (case ctx_timeout c of None \<Rightarrow> False | Some d \<Rightarrow> d \<le> 0 \<or> d \<le> ctx_elapsed c i)"

fun run_tasks ::
  "job_env \<Rightarrow> ctx \<Rightarrow> nat \<Rightarrow> DirectReqTask list \<Rightarrow> DirectRequest \<Rightarrow> (job_error, DirectRequest) res" where
  "run_tasks env c i [] dr = Ok dr"
| "run_tasks env c i (task # tasks) dr =
     (if ctx_done c i then Err ExecutionCancelled
      else (case Execute env task dr of
              Ok dr' \<Rightarrow> run_tasks env c (Suc i) tasks dr'
            | Err e \<Rightarrow> Err (TaskFailed (t_Name task) e)
            | Panicked p \<Rightarrow> Panicked p
            | Blocked \<Rightarrow> Blocked))"

definition NewReportAssembler ::
  "string \<Rightarrow> DirectRequest \<Rightarrow> (job_error, ReportAssembler) res" where
  "NewReportAssembler strategy job =
     (if strategy = ''mean'' then Ok (MeanValueAssembler (dr_JobType job) (DirectRequest_Payload job))
      else Err (UnsupportedStrategy strategy))"

definition Run :: "job_env \<Rightarrow> ctx \<Rightarrow> DirectRequest \<Rightarrow> (job_error, DirectRequest) res" where
  "Run env c dr =
     res_bind (run_tasks env c 0 (ObservationSource (dr_params dr)) dr)
       (\<lambda>dr'. res_bind (NewReportAssembler (Strategy (ReportingStrategy (dr_params dr'))) dr')
         (\<lambda>reporter. Ok (dr'\<lparr>dr_assembler := Some reporter\<rparr>)))"

definition Result :: "job_env \<Rightarrow> DirectRequest \<Rightarrow> (job_error, bytes) res" where
  "Result env dr =
     (if ObservationSource (dr_params dr) = [] then Panicked IndexOutOfRange
      else (let finalTask = last (ObservationSource (dr_params dr))
            in case map_of (dr_Results dr) (t_Name finalTask) of
                 None \<Rightarrow> Err (TaskNotInResults (t_Name finalTask))
               | Some result \<Rightarrow> Ok (fmt_v env result)))"

definition Listen :: "job_env \<Rightarrow> DirectRequest \<Rightarrow> (job_error, JobEventResponse) res" where
  "Listen env dr =
     (let ev = (\<lambda>r. Ok \<lparr>ev_id = dr_JobID dr, ev_event = ''dummy_event'', ev_result = r\<rparr>)
      in case Result env dr of
           Ok r \<Rightarrow> ev r
         | Err _ \<Rightarrow> ev []
         | Panicked p \<Rightarrow> Panicked p
         | Blocked \<Rightarrow> Blocked)"

subsection \<open>Report assembly\<close>

text \<open>\<open>json.Unmarshal\<close> of a response into a fresh \<open>float64\<close>.\<close>

definition response_float :: "bytes \<Rightarrow> float64 option" where
  "response_float b = (case json_parse b of None \<Rightarrow> None | Some j \<Rightarrow> dec_float j (FFin 0))"

fun sum_responses ::
  "JobObservationResponse list \<Rightarrow> float64 \<Rightarrow> nat \<Rightarrow> (job_error, float64 \<times> nat) res" where
  "sum_responses [] sm cnt = Ok (sm, cnt)"
| "sum_responses (r # rs) sm cnt =
     (case response_float (Response r) of
        None \<Rightarrow> Err ParseResponseFailed
      | Some val \<Rightarrow> sum_responses rs (fadd sm val) (Suc cnt))"

fun Assemble ::
  "ReportAssembler \<Rightarrow> JobObservationResponse list \<Rightarrow> (job_error, goval) res" where
  "Assemble (MeanValueAssembler jt payload) obs =
     (if jt = DirectReqJob then
        (if ResultType (ReportingStrategy payload) \<noteq> ''numeric'' then Err NonNumericMean
         else res_bind (sum_responses obs (FFin 0) 0)
           (\<lambda>(sm, cnt).
              if cnt = 0 then Err NoObservations
              else Ok (VNum (fdiv sm (float64_of_int (int cnt))))))
      else Err UnsupportedJobType)"

text \<open>
  \<open>Assemble\<close> through the interface \<open>Job\<close>: a direct request has the method from its embedded
  assembler, which is nil until \<open>Run\<close> has set it.
\<close>

definition Job_Assemble ::
  "DirectRequest \<Rightarrow> JobObservationResponse list \<Rightarrow> (job_error, goval) res" where
  "Job_Assemble dr obs =
     (case dr_assembler dr of None \<Rightarrow> Panicked NilDeref | Some a \<Rightarrow> Assemble a obs)"

subsection \<open>Job descriptions on the wire\<close>

definition task_json :: "(float64 \<Rightarrow> string) \<Rightarrow> DirectReqTask \<Rightarrow> json option" where
  "task_json ff t =
     (if finite64 (t_Factor t) then
        Some (JObj [(''Name'', JStr (t_Name t)), (''Type'', JStr (t_Type t)),
          (''Method'', JStr (t_Method t)), (''URL'', JStr (t_URL t)), (''Input'', JStr (t_Input t)),
          (''Path'', JStr (t_Path t)), (''Factor'', JNum (ff (t_Factor t)))])
      else None)"

definition strategy_json :: "DirectReqReportGenParms \<Rightarrow> json" where
  "strategy_json r =
     JObj [(''Strategy'', JStr (Strategy r)), (''ResultType'', JStr (ResultType r)),
       (''Schema'', JStr (Schema r))]"

definition params_json ::
  "(float64 \<Rightarrow> string) \<Rightarrow> DirectRequestTemplateParams \<Rightarrow> json option" where
  "params_json ff p =
     (case mapO (task_json ff) (ObservationSource p) of
        None \<Rightarrow> None
      | Some ts \<Rightarrow>
          Some (JObj [(''ContractAddress'', JStr (Address_String (ContractAddress p))),
            (''EvmChainID'', enc_word (EvmChainID p)), (''ChainID'', JStr (ChainID p)),
            (''ExternalJobID'', JStr (ExternalJobID p)),
            (''SchemaVersion'', enc_word (SchemaVersion p)), (''Name'', JStr (p_Name p)),
            (''ObservationSource'', if ts = [] then JNull else JArr ts),
            (''ReportingStrategy'', strategy_json (ReportingStrategy p))]))"

definition zero_task :: DirectReqTask where
  "zero_task = \<lparr>t_Name = [], t_Type = [], t_Method = [], t_URL = [], t_Input = [], t_Path = [],
     t_Factor = FFin 0\<rparr>"

definition set_task :: "string \<Rightarrow> json \<Rightarrow> DirectReqTask \<Rightarrow> DirectReqTask option" where
  "set_task k v t =
     (if k = ''name'' then map_option (\<lambda>x. t\<lparr>t_Name := x\<rparr>) (dec_str v (t_Name t))
      else if k = ''type'' then map_option (\<lambda>x. t\<lparr>t_Type := x\<rparr>) (dec_str v (t_Type t))
      else if k = ''method'' then map_option (\<lambda>x. t\<lparr>t_Method := x\<rparr>) (dec_str v (t_Method t))
      else if k = ''url'' then map_option (\<lambda>x. t\<lparr>t_URL := x\<rparr>) (dec_str v (t_URL t))
      else if k = ''input'' then map_option (\<lambda>x. t\<lparr>t_Input := x\<rparr>) (dec_str v (t_Input t))
      else if k = ''path'' then map_option (\<lambda>x. t\<lparr>t_Path := x\<rparr>) (dec_str v (t_Path t))
      else if k = ''factor'' then map_option (\<lambda>x. t\<lparr>t_Factor := x\<rparr>) (dec_float v (t_Factor t))
      else Some t)"

definition set_strategy ::
  "string \<Rightarrow> json \<Rightarrow> DirectReqReportGenParms \<Rightarrow> DirectReqReportGenParms option" where
  "set_strategy k v r =
     (if k = ''strategy'' then map_option (\<lambda>x. r\<lparr>Strategy := x\<rparr>) (dec_str v (Strategy r))
      else if k = ''resulttype'' then map_option (\<lambda>x. r\<lparr>ResultType := x\<rparr>) (dec_str v (ResultType r))
      else if k = ''schema'' then map_option (\<lambda>x. r\<lparr>Schema := x\<rparr>) (dec_str v (Schema r))
      else Some r)"

fun dec_address :: "json \<Rightarrow> Address \<Rightarrow> Address option" where
  "dec_address JNull old = Some old"
| "dec_address (JStr s) old = (case Address_UnmarshalText s of Ok a \<Rightarrow> Some a | _ \<Rightarrow> None)"
| "dec_address _ old = None"

definition set_params ::
  "string \<Rightarrow> json \<Rightarrow> DirectRequestTemplateParams \<Rightarrow> DirectRequestTemplateParams option" where
  "set_params k v p =
     (if k = ''contractaddress'' then
        map_option (\<lambda>x. p\<lparr>ContractAddress := x\<rparr>) (dec_address v (ContractAddress p))
      else if k = ''evmchainid'' then
        map_option (\<lambda>x. p\<lparr>EvmChainID := x\<rparr>) (dec_word v (EvmChainID p))
      else if k = ''chainid'' then map_option (\<lambda>x. p\<lparr>ChainID := x\<rparr>) (dec_str v (ChainID p))
      else if k = ''externaljobid'' then
        map_option (\<lambda>x. p\<lparr>ExternalJobID := x\<rparr>) (dec_str v (ExternalJobID p))
      else if k = ''schemaversion'' then
        map_option (\<lambda>x. p\<lparr>SchemaVersion := x\<rparr>) (dec_word v (SchemaVersion p))
      else if k = ''name'' then map_option (\<lambda>x. p\<lparr>p_Name := x\<rparr>) (dec_str v (p_Name p))
      else if k = ''observationsource'' then
        map_option (\<lambda>x. p\<lparr>ObservationSource := x\<rparr>)
          (dec_slice (decode_struct set_task zero_task) v)
      else if k = ''reportingstrategy'' then
        map_option (\<lambda>x. p\<lparr>ReportingStrategy := x\<rparr>)
          (decode_struct set_strategy (ReportingStrategy p) v)
      else Some p)"

definition zero_params :: DirectRequestTemplateParams where
  "zero_params = \<lparr>ContractAddress = replicate 20 (CHR 0x00), EvmChainID = 0, ChainID = [],
     ExternalJobID = [], SchemaVersion = 0, p_Name = [], ObservationSource = [],
     ReportingStrategy = \<lparr>Strategy = [], ResultType = [], Schema = []\<rparr>\<rparr>"

definition template_json :: "(float64 \<Rightarrow> string) \<Rightarrow> Template \<Rightarrow> json option" where
  "template_json ff t = (case t of TParams p \<Rightarrow> params_json ff p | TValue v \<Rightarrow> val_json ff v)"

definition NewJobFromInfo :: "job_env \<Rightarrow> JobInfo \<Rightarrow> (job_error, DirectRequest) res" where
  "NewJobFromInfo env info =
     (if ji_JobType info = DirectReqJob then
        (case template_json (shortest env) (ji_Template info) of
           None \<Rightarrow> Err MarshalTemplate
         | Some j \<Rightarrow>
             (case json_parse (print_json j) of
                None \<Rightarrow> Err ParseTemplate
              | Some j' \<Rightarrow>
                  (case decode_struct set_params zero_params j' of
                     None \<Rightarrow> Err ParseTemplate
                   | Some ps \<Rightarrow>
                       Ok \<lparr>dr_JobID = ji_JobID info, dr_JobType = DirectReqJob, dr_params = ps,
                           dr_Results = [], dr_timeout = ji_Timeout info, dr_assembler = None\<rparr>)))
      else if ji_JobType info = CcipJob then Err CcipNotProvided
      else Err UnknownJobType)"

subsection \<open>Reading job files\<close>

text \<open>
  The TOML library gives the \<open>type\<close> key and the parameters of a file, or refuses it. The reader
  answers \<open>(nil, nil)\<close>, here \<open>Ok None\<close>, for a type or format it does not support.
\<close>

datatype JobFormat = JobFormatJSON | JobFormatYAML | JobFormatTOML

record toml_lib =
  toml_type :: "bytes \<Rightarrow> string option"
  toml_params :: "bytes \<Rightarrow> DirectRequestTemplateParams option"

definition JobReaderFactory_Read ::
  "toml_lib \<Rightarrow> bytes option \<Rightarrow> JobFormat \<Rightarrow> (job_error, DirectRequest option) res" where
  "JobReaderFactory_Read lib r fmt =
     (case r of
        None \<Rightarrow> Err TomlError
      | Some data \<Rightarrow>
          (case toml_type lib data of
             None \<Rightarrow> Err TomlError
           | Some jType \<Rightarrow>
               if fmt = JobFormatTOML then
                 (if jType = DirectReqJob then
                    (case toml_params lib data of
                       None \<Rightarrow> Err TomlError
                     | Some ps \<Rightarrow>
                         (let i = (if ExternalJobID ps = [] then Address_String (ContractAddress ps)
                                   else ExternalJobID ps)
                          in Ok (Some \<lparr>dr_JobID = i, dr_JobType = DirectReqJob, dr_params = ps,
                                dr_Results = [], dr_timeout = 0, dr_assembler = None\<rparr>)))
                  else Ok None)
               else Ok None))"

text \<open>A directory entry: its name, whether it is a directory, and its content if it opens.\<close>

record dir_entry =
  de_name :: string
  de_is_dir :: bool
  de_open :: "bytes option"

fun open_files :: "dir_entry list \<Rightarrow> (job_error, bytes list) res" where
  "open_files [] = Ok []"
| "open_files (e # es) =
     (if de_is_dir e then open_files es
      else (case de_open e of
              None \<Rightarrow> Err TomlError
            | Some f \<Rightarrow> res_bind (open_files es) (\<lambda>rs. Ok (f # rs))))"

definition ReadJobsFromDir :: "dir_entry list option \<Rightarrow> (job_error, bytes list) res" where
  "ReadJobsFromDir d = (case d of None \<Rightarrow> Err TomlError | Some files \<Rightarrow> open_files files)"

subsection \<open>Well-formed job descriptions and their forms on the wire\<close>

text \<open>
  \<open>ff_ok ff x\<close>: the decimal form of the double is a JSON number that reads back as it.
  \<open>word_wf\<close>: an unsigned integer that a double represents exactly and that is written without
  fraction or exponent, as \<open>json.Marshal\<close> does below \<open>10 ^ 21\<close>.
  The \<open>_val\<close> and \<open>_sorted\<close> forms are the dynamic value a follower holds after decoding a template
  and the JSON it writes for it, with the keys in order.
\<close>

definition ff_ok :: "(float64 \<Rightarrow> string) \<Rightarrow> float64 \<Rightarrow> bool" where
  "ff_ok ff x \<longleftrightarrow> finite64 x \<and> is_number (ff x) \<and> lit_float64 (ff x) = Some x"

definition task_wf :: "(float64 \<Rightarrow> string) \<Rightarrow> DirectReqTask \<Rightarrow> bool" where
  "task_wf ff t \<longleftrightarrow> ff_ok ff (t_Factor t) \<and>
     list_all ascii [t_Name t, t_Type t, t_Method t, t_URL t, t_Input t, t_Path t]"

definition word_wf :: "(float64 \<Rightarrow> string) \<Rightarrow> u64 \<Rightarrow> bool" where
  "word_wf ff w \<longleftrightarrow> unat w \<le> 2 ^ 53 \<and> ff (FFin (of_nat (unat w))) = nat_str (unat w)"

definition params_wf :: "(float64 \<Rightarrow> string) \<Rightarrow> DirectRequestTemplateParams \<Rightarrow> bool" where
  "params_wf ff p \<longleftrightarrow> is_address (ContractAddress p) \<and> word_wf ff (EvmChainID p) \<and>
     word_wf ff (SchemaVersion p) \<and> list_all (task_wf ff) (ObservationSource p) \<and>
     list_all ascii [ChainID p, ExternalJobID p, p_Name p, Strategy (ReportingStrategy p),
       ResultType (ReportingStrategy p), Schema (ReportingStrategy p)]"

definition task_val :: "DirectReqTask \<Rightarrow> goval" where
  "task_val t = VMap [(''Name'', VStr (t_Name t)), (''Type'', VStr (t_Type t)),
          (''Method'', VStr (t_Method t)), (''URL'', VStr (t_URL t)), (''Input'', VStr (t_Input t)),
          (''Path'', VStr (t_Path t)), (''Factor'', VNum (t_Factor t))]"

definition task_sorted :: "(float64 \<Rightarrow> string) \<Rightarrow> DirectReqTask \<Rightarrow> json" where
  "task_sorted ff t = JObj [(''Factor'', JNum (ff (t_Factor t))), (''Input'', JStr (t_Input t)),
     (''Method'', JStr (t_Method t)), (''Name'', JStr (t_Name t)), (''Path'', JStr (t_Path t)),
     (''Type'', JStr (t_Type t)), (''URL'', JStr (t_URL t))]"

definition strategy_val :: "DirectReqReportGenParms \<Rightarrow> goval" where
  "strategy_val r = VMap [(''Strategy'', VStr (Strategy r)), (''ResultType'', VStr (ResultType r)),
       (''Schema'', VStr (Schema r))]"

definition strategy_sorted :: "DirectReqReportGenParms \<Rightarrow> json" where
  "strategy_sorted r = JObj [(''ResultType'', JStr (ResultType r)), (''Schema'', JStr (Schema r)),
       (''Strategy'', JStr (Strategy r))]"

definition tasks_val :: "DirectReqTask list \<Rightarrow> goval" where
  "tasks_val ts = (if ts = [] then VNil else VArr (map task_val ts))"

definition tasks_sorted :: "(float64 \<Rightarrow> string) \<Rightarrow> DirectReqTask list \<Rightarrow> json" where
  "tasks_sorted ff ts = (if ts = [] then JNull else JArr (map (task_sorted ff) ts))"

definition params_val :: "DirectRequestTemplateParams \<Rightarrow> goval" where
  "params_val p = VMap [(''ContractAddress'', VStr (Address_String (ContractAddress p))),
            (''EvmChainID'', VNum (FFin (of_nat (unat (EvmChainID p))))), (''ChainID'', VStr (ChainID p)),
            (''ExternalJobID'', VStr (ExternalJobID p)),
            (''SchemaVersion'', VNum (FFin (of_nat (unat (SchemaVersion p))))), (''Name'', VStr (p_Name p)),
            (''ObservationSource'', tasks_val (ObservationSource p)),
            (''ReportingStrategy'', strategy_val (ReportingStrategy p))]"

definition params_sorted :: "(float64 \<Rightarrow> string) \<Rightarrow> DirectRequestTemplateParams \<Rightarrow> json" where
  "params_sorted ff p = JObj [(''ChainID'', JStr (ChainID p)),
            (''ContractAddress'', JStr (Address_String (ContractAddress p))),
            (''EvmChainID'', enc_word (EvmChainID p)),
            (''ExternalJobID'', JStr (ExternalJobID p)),
            (''Name'', JStr (p_Name p)),
            (''ObservationSource'', tasks_sorted ff (ObservationSource p)),
            (''ReportingStrategy'', strategy_sorted (ReportingStrategy p)),
            (''SchemaVersion'', enc_word (SchemaVersion p))]"

subsection \<open>Concrete data for the witnesses\<close>

definition whole_obs :: "string \<Rightarrow> int list \<Rightarrow> JobObservationResponse list" where
  "whole_obs j vs = map (\<lambda>v. \<lparr>JobId = j, Response = int_str v\<rparr>) vs"

definition numeric_params :: DirectRequestTemplateParams where
  "numeric_params = zero_params\<lparr>ReportingStrategy := \<lparr>Strategy = ''mean'', ResultType = ''numeric'', Schema = []\<rparr>,
     ObservationSource := [zero_task\<lparr>t_Name := ''fetch'', t_Type := ''http'', t_URL := ''u''\<rparr>]\<rparr>"

definition echo_env :: job_env where
  "echo_env = \<lparr>http_get = (\<lambda>u. Some ''42''), parseFloat = (\<lambda>s. None),
     fmt_v = (\<lambda>v. case v of VStr s \<Rightarrow> s | _ \<Rightarrow> []), shortest = (\<lambda>x. ''0'')\<rparr>"

section \<open>Lemmas\<close>

subsection \<open>Running a job\<close>

lemma Execute_Ok:
  assumes "Execute env task dr = Ok dr'"
  shows "(t_Type task = ''log'' \<and> dr' = dr) \<or>
         (\<exists>v. dr' = dr\<lparr>dr_Results := gm_put (t_Name task) v (dr_Results dr)\<rparr>)"
  using assms
  by (auto simp: Execute_def Let_def split: if_splits option.splits goval.splits)

lemma Execute_frame:
  assumes "Execute env task dr = Ok dr'"
  shows "dr_params dr' = dr_params dr \<and> dr_JobID dr' = dr_JobID dr \<and> dr_JobType dr' = dr_JobType dr \<and>
     dr_timeout dr' = dr_timeout dr"
    and "map_of (dr_Results dr) k \<noteq> None \<Longrightarrow> map_of (dr_Results dr') k \<noteq> None"
    and "t_Type task \<noteq> ''log'' \<Longrightarrow> map_of (dr_Results dr') (t_Name task) \<noteq> None"
  using Execute_Ok [OF assms] by auto

lemma Execute_returns: "Execute env task dr \<noteq> Panicked p" "Execute env task dr \<noteq> Blocked"
  by (auto simp: Execute_def Let_def split: if_splits option.splits goval.splits)

lemma run_tasks_frame:
  "run_tasks env c i tasks dr = Ok dr' \<Longrightarrow>
     dr_params dr' = dr_params dr \<and> dr_JobID dr' = dr_JobID dr \<and> dr_JobType dr' = dr_JobType dr \<and>
     dr_timeout dr' = dr_timeout dr \<and>
     (\<forall>k. map_of (dr_Results dr) k \<noteq> None \<longrightarrow> map_of (dr_Results dr') k \<noteq> None) \<and>
     (\<forall>t\<in>set tasks. t_Type t \<noteq> ''log'' \<longrightarrow> map_of (dr_Results dr') (t_Name t) \<noteq> None)"
proof (induction tasks arbitrary: i dr)
  case (Cons t ts)
  from Cons.prems obtain d where d: "Execute env t dr = Ok d" "run_tasks env c (Suc i) ts d = Ok dr'"
    by (auto split: if_splits res.splits)
  from Execute_frame [OF d(1)] Cons.IH [OF d(2)] show ?case by (simp del: not_None_eq)
qed simp

lemma run_tasks_returns: "run_tasks env c i tasks dr \<noteq> Panicked p \<and> run_tasks env c i tasks dr \<noteq> Blocked"
  by (induction tasks arbitrary: i dr)
     (auto split: res.splits simp: Execute_returns)

lemmas Run_unfold = Run_def NewReportAssembler_def DirectRequest_Payload_def

text \<open>
  When \<open>Run\<close> succeeds, the job still has its identity and parameters, the result of every task
  that produces one is recorded under the task's name, the reporting strategy was \<open>mean\<close> and the
  assembler is set to it; if the last task produces a value, \<open>Result\<close> then returns it.
\<close>

theorem run_success:
  assumes "Run env c dr = Ok dr'"
  shows "dr_params dr' = dr_params dr \<and> dr_JobID dr' = dr_JobID dr \<and>
         (\<forall>t\<in>set (ObservationSource (dr_params dr)).
            t_Type t \<noteq> ''log'' \<longrightarrow> map_of (dr_Results dr') (t_Name t) \<noteq> None) \<and>
         Strategy (ReportingStrategy (dr_params dr)) = ''mean'' \<and>
         dr_assembler dr' = Some (MeanValueAssembler (dr_JobType dr) (dr_params dr)) \<and>
         (ObservationSource (dr_params dr) \<noteq> [] \<and>
          t_Type (last (ObservationSource (dr_params dr))) \<noteq> ''log'' \<longrightarrow>
            (\<exists>v. map_of (dr_Results dr') (t_Name (last (ObservationSource (dr_params dr)))) = Some v \<and>
                 Result env dr' = Ok (fmt_v env v)))"
proof -
  from assms obtain d where d: "run_tasks env c 0 (ObservationSource (dr_params dr)) dr = Ok d"
    and strat: "Strategy (ReportingStrategy (dr_params d)) = ''mean''"
    and dr': "dr' = d\<lparr>dr_assembler := Some (MeanValueAssembler (dr_JobType d) (dr_params d))\<rparr>"
    by (auto simp: Run_unfold go_simps split: if_splits)
  note frame = run_tasks_frame [OF d]
  have names: "map_of (dr_Results dr') (t_Name t) \<noteq> None"
    if "t \<in> set (ObservationSource (dr_params dr))" "t_Type t \<noteq> ''log''" for t
    using frame that dr' by (auto simp del: not_None_eq)
  then have "\<exists>v. map_of (dr_Results dr') (t_Name (last (ObservationSource (dr_params dr)))) = Some v \<and>
                 Result env dr' = Ok (fmt_v env v)"
    if "ObservationSource (dr_params dr) \<noteq> []"
       "t_Type (last (ObservationSource (dr_params dr))) \<noteq> ''log''"
    using that frame dr' names [of "last (ObservationSource (dr_params dr))"]
    by (cases "map_of (dr_Results dr') (t_Name (last (ObservationSource (dr_params dr))))")
       (auto simp: Result_def Let_def)
  with names frame strat dr' show ?thesis by auto
qed

text \<open>
  A job whose timeout is not positive never runs: \<open>context.WithTimeout\<close> is done from the start,
  so \<open>Run\<close> is cancelled before the first task.
\<close>

theorem run_cancelled_without_timeout:
  assumes "d \<le> 0" and "ObservationSource (dr_params dr) \<noteq> []"
  shows "Run env \<lparr>ctx_timeout = Some d, ctx_elapsed = el\<rparr> dr = Err ExecutionCancelled"
  using assms by (cases "ObservationSource (dr_params dr)") (simp_all add: Run_def ctx_done_def)

subsection \<open>The mean\<close>

lemma sum_responses_int:
  assumes "list_all2 (\<lambda>r v. response_float (Response r) = Some (FFin (of_int v))) obs vs"
    and "\<bar>s\<bar> + (\<Sum>v\<leftarrow>vs. \<bar>v\<bar>) \<le> 2 ^ 53"
  shows "sum_responses obs (FFin (of_int s)) n = Ok (FFin (of_int (s + sum_list vs)), n + length obs)"
  using assms
proof (induction obs vs arbitrary: s n rule: list_all2_induct)
  case (Cons r obs v vs)
  have nonneg: "0 \<le> (\<Sum>v\<leftarrow>vs. \<bar>v\<bar>)" by (rule sum_list_nonneg) auto
  with Cons.prems have "\<bar>s + v\<bar> \<le> 2 ^ 53" by simp
  then have add: "fadd (FFin (of_int s)) (FFin (of_int v)) = FFin (of_int (s + v))" by (rule fadd_int)
  from Cons.prems have "\<bar>s + v\<bar> + (\<Sum>v\<leftarrow>vs. \<bar>v\<bar>) \<le> 2 ^ 53" by simp
  with Cons.IH [of "s + v" "Suc n"] Cons.hyps(1) add show ?case by (simp add: add.assoc)
qed simp

lemma list_all2_fun_mset:
  "list_all2 (\<lambda>x y. f x = Some y) xs ys \<Longrightarrow> image_mset (\<lambda>x. the (f x)) (mset xs) = mset ys"
  by (induction xs ys rule: list_all2_induct) auto

lemma fdiv_whole:
  assumes "\<bar>a\<bar> \<le> 2 ^ 53" and "0 < n" and "n \<le> 2 ^ 53"
  shows "fdiv (FFin (of_int a)) (float64_of_int (int n)) = sround (a < 0) (\<bar>of_int a\<bar> / of_nat n)"
  using assms(2,3) float64_of_int_exact [of "int n"] by (simp add: fdiv_def Let_def)

lemma sround_whole_quotient:
  assumes "\<bar>a\<bar> \<le> 2 ^ 53" and "0 < n" and "int n dvd a"
  shows "sround (a < 0) (\<bar>of_int a\<bar> / of_nat n) = FFin (of_int (a div int n))"
proof -
  obtain q where q: "a = int n * q" using assms(3) by (auto elim: dvdE)
  have "\<bar>q\<bar> \<le> \<bar>a\<bar>" unfolding q abs_mult using assms(2) by (simp add: mult_le_cancel_right1)
  with assms(1) have "\<bar>q\<bar> \<le> 2 ^ 53" by simp
  moreover have "\<bar>of_int a\<bar> / of_nat n = (\<bar>of_int q\<bar> :: rat)" using assms(2) by (simp add: q abs_mult)
  moreover have "a < 0 \<longleftrightarrow> q < 0" using assms(2) by (simp add: q mult_less_0_iff)
  ultimately show ?thesis using sround_int [of q] assms(2) by (simp add: q)
qed

text \<open>
  C31: When the observations are whole numbers whose absolute values add up to at most \<open>2 ^ 53\<close>, the
  mean assembler adds them up without error and returns their mean rounded once to a double, and
  the order in which the observations arrive does not matter. When the number of observations divides
  the sum, the result is the mean itself.
\<close>

theorem mean_of_whole_numbers:
  assumes "list_all2 (\<lambda>r v. response_float (Response r) = Some (FFin (of_int v))) obs vs"
    and "(\<Sum>v\<leftarrow>vs. \<bar>v\<bar>) \<le> 2 ^ 53" and "obs \<noteq> []"
    and "length obs \<le> 2 ^ 53"
    and "ResultType (ReportingStrategy ps) = ''numeric''" and "mset obs' = mset obs"
  shows "Assemble (MeanValueAssembler DirectReqJob ps) obs' =
           Ok (VNum (sround (sum_list vs < 0) (\<bar>of_int (sum_list vs)\<bar> / of_nat (length obs)))) \<and>
         (int (length obs) dvd sum_list vs \<longrightarrow>
            Assemble (MeanValueAssembler DirectReqJob ps) obs' =
              Ok (VNum (FFin (of_int (sum_list vs div int (length obs))))))"
proof -
  let ?f = "\<lambda>r. response_float (Response r)"
  let ?g = "\<lambda>r. \<lfloor>fval (the (?f r))\<rfloor>"
  define vs' where "vs' = map ?g obs'"
  have obs: "?f r = Some (FFin (of_int (?g r)))" if "r \<in> set obs" for r
    using assms(1) that by (auto simp: list_all2_conv_all_nth in_set_conv_nth)
  have vs: "vs = map ?g obs"
    using assms(1) by (auto simp: list_all2_conv_all_nth intro!: nth_equalityI)
  have m: "mset vs' = mset vs" unfolding vs'_def vs using assms(6) by simp
  have "set obs' = set obs" using assms(6) by (rule mset_eq_setD)
  with obs have all: "list_all2 (\<lambda>r v. ?f r = Some (FFin (of_int v))) obs' vs'"
    unfolding vs'_def by (intro list_all2_all_nthI) (simp, metis nth_map nth_mem)
  have "mset (map abs vs') = mset (map abs vs)" using m by simp
  then have "(\<Sum>v\<leftarrow>vs'. \<bar>v\<bar>) = (\<Sum>v\<leftarrow>vs. \<bar>v\<bar>)" by (metis sum_mset_sum_list)
  with assms(2) have bound: "\<bar>0\<bar> + (\<Sum>v\<leftarrow>vs'. \<bar>v\<bar>) \<le> 2 ^ 53" by simp
  have len: "length obs' = length obs" using assms(6) by (metis size_mset)
  have "sum_list vs' = sum_list vs" using m by (metis sum_mset_sum_list)
  with sum_responses_int [OF all bound, of 0] assms(3,5) len
  have "Assemble (MeanValueAssembler DirectReqJob ps) obs' =
      Ok (VNum (fdiv (FFin (of_int (sum_list vs))) (float64_of_int (int (length obs)))))" by simp
  moreover have "\<bar>sum_list vs\<bar> \<le> 2 ^ 53" using sum_list_abs [of vs] assms(2) by simp
  ultimately show ?thesis using fdiv_whole sround_whole_quotient assms(3,4) by simp
qed

lemma response_float_int_str:
  "\<bar>i\<bar> \<le> 2 ^ 53 \<Longrightarrow> response_float (int_str i) = Some (FFin (of_int i))"
  using json_parse_print [of "JNum (int_str i)"]
  by (simp add: response_float_def lit_float64_int_str)

lemma whole_obs_responses:
  "(\<forall>v\<in>set vs. \<bar>v\<bar> \<le> 2 ^ 53) \<Longrightarrow>
   list_all2 (\<lambda>r v. response_float (Response r) = Some (FFin (of_int v))) (whole_obs j vs) vs"
  by (induction vs) (auto simp: whole_obs_def response_float_int_str)

theorem mean_of_whole_numbers_witness:
  "Assemble (MeanValueAssembler DirectReqJob numeric_params) (whole_obs ''j'' [5, 3]) = Ok (VNum (FFin 4))"
  using mean_of_whole_numbers [of "whole_obs ''j'' [3, 5]" "[3, 5]" numeric_params "whole_obs ''j'' [5, 3]"]
    whole_obs_responses [of "[3, 5]" "''j''"]
  by (auto simp: whole_obs_def numeric_params_def add_mset_commute)

lemma mean_big_first:
  "Assemble (MeanValueAssembler DirectReqJob numeric_params) (whole_obs j [2 ^ 53, 1, 1]) =
     Ok (VNum (FFin (6004799503160661 / 2)))"
proof -
  have "fround 9007199254740993 = FFin 9007199254740992"
    "fround (9007199254740992 / 3) = FFin (6004799503160661 / 2)"
    "fround 9007199254740992 = FFin 9007199254740992"
    by (simp_all add: fround_eval)
  then show ?thesis
    by (simp add: whole_obs_def numeric_params_def response_float_int_str fadd_def fdiv_def Let_def
        sround_def float64_of_int_exact)
qed

lemma mean_big_last:
  "Assemble (MeanValueAssembler DirectReqJob numeric_params) (whole_obs j [1, 1, 2 ^ 53]) =
     Ok (VNum (FFin (6004799503160663 / 2)))"
proof -
  have "fround 1 = FFin 1" "fround 2 = FFin 2" "fround 9007199254740994 = FFin 9007199254740994"
    "fround (9007199254740994 / 3) = FFin (6004799503160663 / 2)"
    by (simp_all add: fround_eval)
  then show ?thesis
    by (simp add: whole_obs_def numeric_params_def response_float_int_str fadd_def fdiv_def Let_def
        sround_def float64_of_int_exact)
qed

text \<open>
  In general the order does matter: adding doubles is not associative, so the same three
  observations give two different means when they are visited in two different orders. A follower
  visits them in the order in which a Go map and a \<open>sync.Map\<close> hand them out, which is not fixed.
\<close>

theorem mean_depends_on_order:
  "\<exists>obs obs'. mset obs' = mset obs \<and>
     Assemble (MeanValueAssembler DirectReqJob numeric_params) obs \<noteq>
     Assemble (MeanValueAssembler DirectReqJob numeric_params) obs'"
proof (intro exI conjI)
  show "mset (whole_obs [] [1, 1, 2 ^ 53]) = mset (whole_obs [] [2 ^ 53, 1, 1])"
    by (simp add: whole_obs_def add_mset_commute)
  show "Assemble (MeanValueAssembler DirectReqJob numeric_params) (whole_obs [] [2 ^ 53, 1, 1]) \<noteq>
        Assemble (MeanValueAssembler DirectReqJob numeric_params) (whole_obs [] [1, 1, 2 ^ 53])"
    unfolding mean_big_first mean_big_last by simp
qed

subsection \<open>Witnesses for running a job\<close>

theorem run_success_witness:
  "\<exists>dr'. Run echo_env \<lparr>ctx_timeout = None, ctx_elapsed = (\<lambda>_. 0)\<rparr> (NewDirectReq numeric_params) = Ok dr' \<and>
     Result echo_env dr' = Ok ''42''"
proof -
  let ?c = "\<lparr>ctx_timeout = None, ctx_elapsed = (\<lambda>_. 0)\<rparr> :: ctx"
  obtain dr' where dr': "Run echo_env ?c (NewDirectReq numeric_params) = Ok dr'"
      "map_of (dr_Results dr') ''fetch'' = Some (VStr ''42'')"
    by (simp add: Run_unfold numeric_params_def NewDirectReq_def ctx_done_def Execute_def echo_env_def
        zero_task_def)
  from run_success [OF dr'(1)] dr' show ?thesis
    by (auto simp: numeric_params_def NewDirectReq_def zero_task_def echo_env_def)
qed

theorem run_cancelled_without_timeout_witness:
  "Run echo_env \<lparr>ctx_timeout = Some 0, ctx_elapsed = (\<lambda>_. 0)\<rparr> (NewDirectReq numeric_params) =
     Err ExecutionCancelled"
  using run_cancelled_without_timeout [of 0 "NewDirectReq numeric_params" echo_env "\<lambda>_. 0"]
  by (simp add: numeric_params_def NewDirectReq_def)

subsection \<open>Job descriptions on the wire\<close>

lemma lower_keys:
  "map lower ''Name'' = ''name''" "map lower ''Type'' = ''type''" "map lower ''Method'' = ''method''"
  "map lower ''URL'' = ''url''" "map lower ''Input'' = ''input''" "map lower ''Path'' = ''path''"
  "map lower ''Factor'' = ''factor''" "map lower ''ContractAddress'' = ''contractaddress''"
  "map lower ''EvmChainID'' = ''evmchainid''" "map lower ''ChainID'' = ''chainid''"
  "map lower ''ExternalJobID'' = ''externaljobid''" "map lower ''SchemaVersion'' = ''schemaversion''"
  "map lower ''ObservationSource'' = ''observationsource''"
  "map lower ''ReportingStrategy'' = ''reportingstrategy''" "map lower ''Strategy'' = ''strategy''"
  "map lower ''ResultType'' = ''resulttype''" "map lower ''Schema'' = ''schema''"
  by code_simp+

lemma task_wire:
  assumes "task_wf ff t" and "task_json ff t = Some j"
  shows "json_val j = Some (task_val t)"
    and "val_json ff (task_val t) = Some (task_sorted ff t)"
    and "json_wf (task_sorted ff t)"
    and "decode_struct set_task zero_task (task_sorted ff t) = Some t"
    and "json_wf j"
proof -
  have j: "j = JObj [(''Name'', JStr (t_Name t)), (''Type'', JStr (t_Type t)),
          (''Method'', JStr (t_Method t)), (''URL'', JStr (t_URL t)), (''Input'', JStr (t_Input t)),
          (''Path'', JStr (t_Path t)), (''Factor'', JNum (ff (t_Factor t)))]"
    and fin: "finite64 (t_Factor t)" and num: "is_number (ff (t_Factor t))"
    and lit: "lit_float64 (ff (t_Factor t)) = Some (t_Factor t)"
    using assms by (simp_all add: task_json_def task_wf_def ff_ok_def)
  show "json_val j = Some (task_val t)"
    by (simp add: j lit task_val_def gm_put_def)
  show "val_json ff (task_val t) = Some (task_sorted ff t)"
    by (simp add: task_val_def fin task_sorted_def)
  show "json_wf (task_sorted ff t)" "json_wf j"
    using assms(1) num by (simp_all add: task_sorted_def task_wf_def j)
  show "decode_struct set_task zero_task (task_sorted ff t) = Some t"
    by (simp add: decode_struct_def task_sorted_def lower_keys lit set_task_def zero_task_def del: list.map)
qed

lemma strategy_wire:
  "json_val (strategy_json r) = Some (strategy_val r)"
  "val_json ff (strategy_val r) = Some (strategy_sorted r)"
  "decode_struct set_strategy r0 (strategy_sorted r) = Some r"
proof -
  show "json_val (strategy_json r) = Some (strategy_val r)"
    by (simp add: strategy_json_def strategy_val_def gm_put_def)
  show "val_json ff (strategy_val r) = Some (strategy_sorted r)"
    by (simp add: strategy_val_def strategy_sorted_def)
  show "decode_struct set_strategy r0 (strategy_sorted r) = Some r"
    by (simp add: decode_struct_def strategy_sorted_def lower_keys set_strategy_def del: list.map)
qed

lemma mapO_map: "(\<And>x. x \<in> set xs \<Longrightarrow> f (g x) = Some (h x)) \<Longrightarrow> mapO f (map g xs) = Some (map h xs)"
  by (induction xs) auto

lemma tasks_json_total: "list_all (task_wf ff) ts \<Longrightarrow> \<exists>js. mapO (task_json ff) ts = Some js"
  by (induction ts) (auto simp: task_wf_def ff_ok_def task_json_def split: option.splits)

lemma tasks_wire:
  assumes "list_all (task_wf ff) ts" and "mapO (task_json ff) ts = Some js"
  shows "json_val (if js = [] then JNull else JArr js) = Some (tasks_val ts)"
    and "val_json ff (tasks_val ts) = Some (tasks_sorted ff ts)"
    and "json_wf (tasks_sorted ff ts)"
    and "dec_slice (decode_struct set_task zero_task) (tasks_sorted ff ts) = Some ts"
    and "json_wf (JArr js)"
proof -
  have wf: "task_wf ff t" and tj: "\<exists>j. task_json ff t = Some j" if "t \<in> set ts" for t
    using assms(1) that by (auto simp: list_all_iff task_wf_def ff_ok_def task_json_def)
  have "mapO json_val js = Some (map task_val ts)"
    using assms
  proof (induction ts arbitrary: js)
    case (Cons t ts)
    then obtain j js' where "task_json ff t = Some j" "mapO (task_json ff) ts = Some js'" "js = j # js'"
      by (auto split: option.splits)
    with Cons task_wire(1) [of ff t j] show ?case by simp
  qed simp
  moreover have "js = [] \<longleftrightarrow> ts = []" using mapO_length [OF assms(2)] by auto
  ultimately show "json_val (if js = [] then JNull else JArr js) = Some (tasks_val ts)"
    by (auto simp: tasks_val_def)
  have "mapO (val_json ff) (map task_val ts) = Some (map (task_sorted ff) ts)"
    by (rule mapO_map) (metis task_wire(2) wf tj)
  then show "val_json ff (tasks_val ts) = Some (tasks_sorted ff ts)"
    by (auto simp: tasks_val_def tasks_sorted_def)
  have "\<exists>t\<in>set ts. task_json ff t = Some j" if "j \<in> set js" for j
    using assms(2) that by (induction ts arbitrary: js) (auto split: option.splits)
  then show "json_wf (JArr js)" using task_wire(5) wf by fastforce
  show "json_wf (tasks_sorted ff ts)"
    unfolding tasks_sorted_def using task_wire(3) wf tj by fastforce
  show "dec_slice (decode_struct set_task zero_task) (tasks_sorted ff ts) = Some ts"
    unfolding tasks_sorted_def using mapO_map_id [of ts "decode_struct set_task zero_task" "task_sorted ff"]
      task_wire(4) wf tj by fastforce
qed

lemma params_wire:
  assumes "params_wf ff p"
  obtains j where "params_json ff p = Some j" and "json_wf j" and "json_val j = Some (params_val p)"
    and "val_json ff (params_val p) = Some (params_sorted ff p)"
    and "json_wf (params_sorted ff p)"
    and "decode_struct set_params zero_params (params_sorted ff p) = Some p"
proof -
  have tasks: "list_all (task_wf ff) (ObservationSource p)" using assms by (simp add: params_wf_def)
  then obtain js where js: "mapO (task_json ff) (ObservationSource p) = Some js"
    using tasks_json_total by blast
  note tw = tasks_wire [OF tasks js]
  have w: "lit_float64 (nat_str (unat (EvmChainID p))) = Some (FFin (of_nat (unat (EvmChainID p))))"
    "lit_float64 (nat_str (unat (SchemaVersion p))) = Some (FFin (of_nat (unat (SchemaVersion p))))"
    "ff (FFin (of_nat (unat (EvmChainID p)))) = nat_str (unat (EvmChainID p))"
    "ff (FFin (of_nat (unat (SchemaVersion p)))) = nat_str (unat (SchemaVersion p))"
    using assms by (simp_all add: params_wf_def word_wf_def lit_float64_nat_str)
  have addr: "is_address (ContractAddress p)" using assms by (simp add: params_wf_def)
  have u: "Address_UnmarshalText (Address_String (ContractAddress p)) = Ok (ContractAddress p)"
    using addr by (simp add: Address_UnmarshalText_def Address_String_def Address_ToSlice_id is_address_def)
  show thesis
  proof
    show "params_json ff p = Some (JObj [(''ContractAddress'', JStr (Address_String (ContractAddress p))),
            (''EvmChainID'', enc_word (EvmChainID p)), (''ChainID'', JStr (ChainID p)),
            (''ExternalJobID'', JStr (ExternalJobID p)),
            (''SchemaVersion'', enc_word (SchemaVersion p)), (''Name'', JStr (p_Name p)),
            (''ObservationSource'', if js = [] then JNull else JArr js),
            (''ReportingStrategy'', strategy_json (ReportingStrategy p))])" (is "_ = Some ?j")
      by (simp add: params_json_def js)
    show "json_wf ?j"
      using assms tw(5)
      by (simp add: params_wf_def strategy_json_def)
    show "json_val ?j = Some (params_val p)"
      by (simp add: tw(1) strategy_wire w(1,2) enc_word_def params_val_def gm_put_def del: if_split)
    show "val_json ff (params_val p) = Some (params_sorted ff p)"
      by (simp add: params_val_def tw(2) strategy_wire w(3,4) [simplified] params_sorted_def enc_word_def)
    show "json_wf (params_sorted ff p)"
      using assms tw(3)
      by (simp add: params_sorted_def params_wf_def strategy_sorted_def)
    show "decode_struct set_params zero_params (params_sorted ff p) = Some p"
      by (simp add: decode_struct_def [of set_params] params_sorted_def lower_keys set_params_def
          zero_params_def tw(4) strategy_wire u del: list.map)
  qed
qed

text \<open>
  C28: A job description survives the trip from the leader to a follower: the parameters are written
  as JSON in the OBSERVE-REQ message, decoded into a dynamic value, and \<open>NewJobFromInfo\<close> rebuilds
  from it a job with the same parameters, identity and timeout.
\<close>

theorem job_info_wire_roundtrip:
  assumes "params_wf (shortest env) ps"
  shows "\<exists>j v. template_json (shortest env) (TParams ps) = Some j \<and>
           json_parse (print_json j) = Some j \<and> json_val j = Some v \<and>
           NewJobFromInfo env \<lparr>ji_JobID = i, ji_JobType = DirectReqJob, ji_Template = TValue v,
               ji_Timeout = t\<rparr> =
             Ok \<lparr>dr_JobID = i, dr_JobType = DirectReqJob, dr_params = ps, dr_Results = [],
                 dr_timeout = t, dr_assembler = None\<rparr>"
proof -
  obtain j where "params_json (shortest env) ps = Some j" "json_wf j" "json_val j = Some (params_val ps)"
    "val_json (shortest env) (params_val ps) = Some (params_sorted (shortest env) ps)"
    "json_wf (params_sorted (shortest env) ps)"
    "decode_struct set_params zero_params (params_sorted (shortest env) ps) = Some ps"
    by (rule params_wire [OF assms])
  then show ?thesis
    by (intro exI [of _ j] exI [of _ "params_val ps"])
       (simp add: template_json_def json_parse_print NewJobFromInfo_def)
qed

lemma numeric_params_wf: "params_wf (shortest echo_env) numeric_params"
proof -
  have "nat_str 0 = ''0''" by code_simp
  moreover have "lit_float64 ''0'' = Some (FFin 0)"
    using lit_float64_nat_str [of 0] \<open>nat_str 0 = ''0''\<close> by simp
  moreover have "is_number ''0''" using is_number_nat_str [of 0] \<open>nat_str 0 = ''0''\<close> by simp
  ultimately show ?thesis
    by (simp add: params_wf_def numeric_params_def zero_params_def zero_task_def echo_env_def
        is_address_def word_wf_def task_wf_def ff_ok_def)
qed

theorem job_info_wire_roundtrip_witness:
  "params_wf (shortest echo_env) numeric_params \<and>
   (\<exists>j v. template_json (shortest echo_env) (TParams numeric_params) = Some j \<and> json_val j = Some v \<and>
      NewJobFromInfo echo_env \<lparr>ji_JobID = ''i'', ji_JobType = DirectReqJob, ji_Template = TValue v, ji_Timeout = 7\<rparr> =
        Ok \<lparr>dr_JobID = ''i'', dr_JobType = DirectReqJob, dr_params = numeric_params, dr_Results = [],
            dr_timeout = 7, dr_assembler = None\<rparr>)"
  using numeric_params_wf job_info_wire_roundtrip [OF numeric_params_wf, of "''i''" 7] by blast

end
