(* ===== verification/Rpc.thy ===== *)
theory Rpc
  imports Jobs
begin

text \<open>
  The package \<open>rpc/\<close>: the messages of the protocol (\<open>message.go\<close>, \<open>pacemaker_rpc.go\<close>,
  \<open>reporter_rpc.go\<close>, \<open>rpc.go\<close>, \<open>packermaker.go\<close>), the two builders (\<open>builder.go\<close>) and the interface
  \<open>Codec\<close> (\<open>codec.go\<close>).

  What a codec is asked to encode is one of the protocol's structs, a \<open>Message\<close> or an \<open>RPCMessage\<close>;
  \<open>wire\<close> is their sum and \<open>wtype\<close> names the struct a call of \<open>Decode\<close> fills. The locale \<open>wire_codec\<close>
  states what the protocol relies on: a well-formed value is encoded, and decoding gives what the
  receiver sees of it (\<open>rcv\<close>: dynamic values instead of typed ones, map keys in the order of the
  text).
\<close>

section \<open>Definitions\<close>

subsection \<open>Message types and topics\<close>

type_synonym MessageType = u8
type_synonym MesageTopic = u8

definition MessageNewEpoch :: MessageType where "MessageNewEpoch = 0x1"
definition MessageStatus :: MessageType where "MessageStatus = 0x2"
definition MessageChangeLeader :: MessageType where "MessageChangeLeader = 0x3"
definition MessageObserveReq :: MessageType where "MessageObserveReq = 0x4"
definition MessageObserveRes :: MessageType where "MessageObserveRes = 0x5"
definition MessageReportReq :: MessageType where "MessageReportReq = 0x6"
definition MessageReportRes :: MessageType where "MessageReportRes = 0x7"
definition MessageObservationMap :: MessageType where "MessageObservationMap = 0x8"
definition MessageFinalReport :: MessageType where "MessageFinalReport = 0x9"
definition MessageFinalEcho :: MessageType where "MessageFinalEcho = 0x10"
definition MessageProgressRound :: MessageType where "MessageProgressRound = 0x11"

text \<open>\<open>Pacemaker\<close> is \<open>iota\<close> in the twelfth line of its constant block.\<close>

definition TopicPacemaker :: MesageTopic where "TopicPacemaker = 11"
definition TopicReporter :: MesageTopic where "TopicReporter = 0x1"
definition TopicServer :: MesageTopic where "TopicServer = 0x4"

lemmas message_types =
  MessageNewEpoch_def MessageStatus_def MessageChangeLeader_def MessageObserveReq_def
  MessageObserveRes_def MessageReportReq_def MessageReportRes_def MessageObservationMap_def
  MessageFinalReport_def MessageFinalEcho_def MessageProgressRound_def

lemmas topics = TopicPacemaker_def TopicReporter_def TopicServer_def

subsection \<open>The protocol's structs\<close>

record NewEpochMesage =
  ne_EpochID :: u64

record StatusMsg =
  st_Id :: string
  st_NetworkId :: string
  st_ListenAddr :: string

record ObserveReq =
  oq_Epoch :: u64
  oq_Round :: u64
  oq_Leader :: string
  oq_Jobs :: "JobInfo list"

record ObserveResp =
  or_Epoch :: u64
  or_Round :: u64
  or_Leader :: string
  or_JobResponses :: "JobObservationResponse list"

record ReportReq =
  rq_Epoch :: u64
  rq_Round :: u64
  rq_Leader :: string
  rq_Observations :: bytes

type_synonym JobReports = "(string, goval) gomap"

record Signatories =
  sg_Sign :: Signature
  sg_ID :: string

record FinalReport =
  fr_Report :: JobReports
  fr_Signatories :: "Signatories list"

record ReportRes =
  rr_Epoch :: u64
  rr_Round :: u64
  rr_Leader :: string
  rr_Reports :: JobReports

record BroadcastObservationMap =
  om_Epoch :: u64
  om_Round :: u64
  om_Leader :: string
  om_Observations :: bytes

record BroadcastFinalReport =
  bf_Epoch :: u64
  bf_Round :: u64
  bf_Leader :: string
  bf_FinalReport :: FinalReport

record FinalEcho =
  fe_Epoch :: u64
  fe_Round :: u64
  fe_Leader :: string

record ProgressRound =
  pr_Epoch :: u64
  pr_Round :: u64
  pr_Leader :: string

datatype payload =
    PNewEpoch NewEpochMesage
  | PStatus StatusMsg
  | PChangeLeader
  | PObserveReq ObserveReq
  | PObserveResp ObserveResp
  | PReportReq ReportReq
  | PReportRes ReportRes
  | PObservationMap BroadcastObservationMap
  | PFinalReport BroadcastFinalReport
  | PFinalEcho FinalEcho
  | PProgressRound ProgressRound

text \<open>A value in an \<open>any\<close>: a pointer to one of the structs, or the struct itself.\<close>

datatype goany = Ptr payload | Val payload

record Message =
  m_Headers :: MessageType
  m_Topic :: MesageTopic
  m_Data :: bytes

record RPCMessage =
  rm_FromID :: string
  rm_Payload :: bytes
  rm_Signature :: Signature

record DecodedMsg =
  dm_FromId :: string
  dm_Topic :: MesageTopic
  dm_Data :: goany
  dm_Signature :: Signature

record InternalPeerServerInfoMsg =
  im_NetworkId :: string
  im_ListenAddr :: string
  im_ServerId :: string

datatype OCRState = PREPARE | FOLLOWING | LEADING | REPORT_GEN | TRANSMIT | UnknownOCRState u8

fun OCRState_String :: "OCRState \<Rightarrow> string" where
  "OCRState_String PREPARE = ''PREPARE''"
| "OCRState_String FOLLOWING = ''FOLLOWING''"
| "OCRState_String LEADING = ''LEADING''"
| "OCRState_String REPORT_GEN = ''REPORT_GEN''"
| "OCRState_String TRANSMIT = ''TRANSMIT''"
| "OCRState_String (UnknownOCRState b) = ''UNKNOWN''"

subsection \<open>Codecs\<close>

datatype wire = WPayload payload | WMessage Message | WRPC RPCMessage

datatype wtype =
    TNewEpoch | TStatus | TChangeLeader | TObserveReq | TObserveResp | TReportReq | TReportRes
  | TObservationMap | TFinalReport | TFinalEcho | TProgressRound | TMessage | TRPC

fun payload_type :: "payload \<Rightarrow> wtype" where
  "payload_type (PNewEpoch _) = TNewEpoch"
| "payload_type (PStatus _) = TStatus"
| "payload_type PChangeLeader = TChangeLeader"
| "payload_type (PObserveReq _) = TObserveReq"
| "payload_type (PObserveResp _) = TObserveResp"
| "payload_type (PReportReq _) = TReportReq"
| "payload_type (PReportRes _) = TReportRes"
| "payload_type (PObservationMap _) = TObservationMap"
| "payload_type (PFinalReport _) = TFinalReport"
| "payload_type (PFinalEcho _) = TFinalEcho"
| "payload_type (PProgressRound _) = TProgressRound"

fun wire_type :: "wire \<Rightarrow> wtype" where
  "wire_type (WPayload p) = payload_type p"
| "wire_type (WMessage _) = TMessage"
| "wire_type (WRPC _) = TRPC"

record codec =
  Encode :: "wire \<Rightarrow> bytes option"
  Decode :: "wtype \<Rightarrow> bytes \<Rightarrow> wire option"

text \<open>\<open>Bytes(codec)\<close> of the structs, of a \<open>Message\<close> and of an \<open>RPCMessage\<close>.\<close>

definition payload_Bytes :: "codec \<Rightarrow> payload \<Rightarrow> bytes option" where
  "payload_Bytes c p = Encode c (WPayload p)"

definition Message_Bytes :: "codec \<Rightarrow> Message \<Rightarrow> bytes option" where
  "Message_Bytes c m = Encode c (WMessage m)"

definition RPCMessage_Bytes :: "codec \<Rightarrow> RPCMessage \<Rightarrow> bytes option" where
  "RPCMessage_Bytes c m = Encode c (WRPC m)"

subsection \<open>Builders\<close>

record RPCMessageBuilder =
  b_fromSock :: string
  b_fromId :: string
  b_codec :: codec
  b_headers :: MessageType
  b_topic :: MesageTopic
  b_payloadData :: "payload option"
  b_signature :: Signature
  b_message :: "bytes option"

definition NewRPCMessageBuilder :: "string \<Rightarrow> codec \<Rightarrow> string \<Rightarrow> RPCMessageBuilder" where
  "NewRPCMessageBuilder from c fromID =
     \<lparr>b_fromSock = from, b_fromId = fromID, b_codec = c, b_headers = 0, b_topic = 0,
      b_payloadData = None, b_signature = zero_Signature, b_message = None\<rparr>"

definition SetHeaders :: "MessageType \<Rightarrow> RPCMessageBuilder \<Rightarrow> RPCMessageBuilder" where
  "SetHeaders h b = b\<lparr>b_headers := h\<rparr>"

definition SetTopic :: "MesageTopic \<Rightarrow> RPCMessageBuilder \<Rightarrow> RPCMessageBuilder" where
  "SetTopic t b = b\<lparr>b_topic := t\<rparr>"

definition SetPayload :: "payload \<Rightarrow> RPCMessageBuilder \<Rightarrow> RPCMessageBuilder" where
  "SetPayload p b = b\<lparr>b_payloadData := Some p\<rparr>"

definition SetSignature :: "Signature \<Rightarrow> RPCMessageBuilder \<Rightarrow> RPCMessageBuilder" where
  "SetSignature s b = b\<lparr>b_signature := s\<rparr>"

definition SetMessage :: "bytes \<Rightarrow> RPCMessageBuilder \<Rightarrow> RPCMessageBuilder" where
  "SetMessage m b = b\<lparr>b_message := Some m\<rparr>"

datatype build_error = EncodePayload | EncodeMessage | EncodeRPC | NilData

text \<open>The payload is set on every path of the program; without it the builder is given nothing to encode.\<close>

definition RPCMessageBuilder_Build :: "RPCMessageBuilder \<Rightarrow> (build_error, RPCMessage) res" where
  "RPCMessageBuilder_Build b =
     res_bind
       (case b_message b of
          None \<Rightarrow>
            (case Option.bind (b_payloadData b) (payload_Bytes (b_codec b)) of
               None \<Rightarrow> Err EncodePayload
             | Some payloadBytes \<Rightarrow>
                 (case Message_Bytes (b_codec b)
                         \<lparr>m_Headers = b_headers b, m_Topic = b_topic b, m_Data = payloadBytes\<rparr> of
                    None \<Rightarrow> Err EncodeMessage
                  | Some msgBytes \<Rightarrow> Ok msgBytes))
        | Some msg \<Rightarrow> Ok msg)
       (\<lambda>msgBytes. Ok \<lparr>rm_FromID = b_fromId b, rm_Payload = msgBytes, rm_Signature = b_signature b\<rparr>)"

definition RPCMessageBuilder_Bytes :: "RPCMessageBuilder \<Rightarrow> (build_error, bytes) res" where
  "RPCMessageBuilder_Bytes b =
     res_bind (RPCMessageBuilder_Build b)
       (\<lambda>m. case RPCMessage_Bytes (b_codec b) m of None \<Rightarrow> Err EncodeRPC | Some bs \<Rightarrow> Ok bs)"

record MessageBuilder =
  mb_headers :: MessageType
  mb_topic :: MesageTopic
  mb_data :: "bytes option"
  mb_codec :: codec

definition NewMessageBuilder :: "codec \<Rightarrow> MessageBuilder" where
  "NewMessageBuilder c = \<lparr>mb_headers = 0, mb_topic = 0, mb_data = None, mb_codec = c\<rparr>"

definition mb_SetHeaders :: "MessageType \<Rightarrow> MessageBuilder \<Rightarrow> MessageBuilder" where
  "mb_SetHeaders h b = b\<lparr>mb_headers := h\<rparr>"

definition mb_SetTopic :: "MesageTopic \<Rightarrow> MessageBuilder \<Rightarrow> MessageBuilder" where
  "mb_SetTopic t b = b\<lparr>mb_topic := t\<rparr>"

definition mb_SetData :: "payload \<Rightarrow> MessageBuilder \<Rightarrow> (build_error, MessageBuilder) res" where
  "mb_SetData p b =
     (case payload_Bytes (mb_codec b) p of
        None \<Rightarrow> Panicked (ExplicitPanic ''MessageBuilder: unable to encode msg'')
      | Some d \<Rightarrow> Ok (b\<lparr>mb_data := Some d\<rparr>))"

definition MessageBuilder_Build :: "MessageBuilder \<Rightarrow> (build_error, Message) res" where
  "MessageBuilder_Build b =
     (case mb_data b of
        None \<Rightarrow> Err NilData
      | Some d \<Rightarrow> Ok \<lparr>m_Headers = mb_headers b, m_Topic = mb_topic b, m_Data = d\<rparr>)"

definition MessageBuilder_Bytes :: "MessageBuilder \<Rightarrow> (build_error, bytes) res" where
  "MessageBuilder_Bytes b =
     res_bind (MessageBuilder_Build b)
       (\<lambda>m. case Message_Bytes (mb_codec b) m of None \<Rightarrow> Err EncodeMessage | Some bs \<Rightarrow> Ok bs)"

text \<open>
  The chain of calls every handler of the reporting engine makes:
  \<open>NewRPCMessageBuilder(...).SetHeaders(h).SetTopic(t).SetPayload(p).SetSignature(s).Bytes()\<close>.
\<close>

definition rpc_bytes ::
  "string \<Rightarrow> codec \<Rightarrow> string \<Rightarrow> MessageType \<Rightarrow> MesageTopic \<Rightarrow> payload \<Rightarrow> Signature \<Rightarrow>
   (build_error, bytes) res" where
  "rpc_bytes addr c fromID h t p s =
     RPCMessageBuilder_Bytes
       (SetSignature s (SetPayload p (SetTopic t (SetHeaders h (NewRPCMessageBuilder addr c fromID)))))"

section \<open>The interface of a codec\<close>

lemmas builder_defs =
  rpc_bytes_def RPCMessageBuilder_Bytes_def RPCMessageBuilder_Build_def SetSignature_def
  SetPayload_def SetTopic_def SetHeaders_def NewRPCMessageBuilder_def

lemmas message_builder_defs =
  MessageBuilder_Bytes_def MessageBuilder_Build_def mb_SetData_def mb_SetTopic_def
  mb_SetHeaders_def NewMessageBuilder_def

locale wire_codec =
  fixes c :: codec
    and wf :: "wire \<Rightarrow> bool"
    and rcv :: "wire \<Rightarrow> wire"
  assumes encode_wf: "wf v \<Longrightarrow> \<exists>b. Encode c v = Some b"
    and decode_encode: "wf v \<Longrightarrow> Encode c v = Some b \<Longrightarrow> Decode c (wire_type v) b = Some (rcv v)"
    and wf_message: "wf (WMessage m)"
    and rcv_message: "rcv (WMessage m) = WMessage m"
    and rcv_rpc: "rcv (WRPC r) = WRPC r"
begin

text \<open>A built message arrives: the three layers decode to the header, the topic and the payload.\<close>

lemma rpc_bytes_arrive:
  assumes "wf (WPayload p)" and "\<And>pl. wf (WRPC \<lparr>rm_FromID = i, rm_Payload = pl, rm_Signature = s\<rparr>)"
  shows "\<exists>bs mb pb. rpc_bytes a c i h t p s = Ok bs \<and>
           Decode c TRPC bs = Some (WRPC \<lparr>rm_FromID = i, rm_Payload = mb, rm_Signature = s\<rparr>) \<and>
           Decode c TMessage mb = Some (WMessage \<lparr>m_Headers = h, m_Topic = t, m_Data = pb\<rparr>) \<and>
           Decode c (payload_type p) pb = Some (rcv (WPayload p))"
proof -
  obtain pb where pb: "Encode c (WPayload p) = Some pb" using encode_wf [OF assms(1)] by blast
  let ?m = "\<lparr>m_Headers = h, m_Topic = t, m_Data = pb\<rparr>"
  obtain mb where mb: "Encode c (WMessage ?m) = Some mb"
    using encode_wf [OF wf_message] by blast
  let ?r = "\<lparr>rm_FromID = i, rm_Payload = mb, rm_Signature = s\<rparr>"
  obtain bs where bs: "Encode c (WRPC ?r) = Some bs" using encode_wf [OF assms(2)] by blast
  have "rpc_bytes a c i h t p s = Ok bs"
    by (simp add: builder_defs payload_Bytes_def Message_Bytes_def RPCMessage_Bytes_def pb mb bs)
  moreover have "Decode c TRPC bs = Some (WRPC ?r)"
    using decode_encode [OF assms(2) bs] by (simp add: rcv_rpc)
  moreover have "Decode c TMessage mb = Some (WMessage ?m)"
    using decode_encode [OF wf_message mb] by (simp add: rcv_message)
  moreover have "Decode c (payload_type p) pb = Some (rcv (WPayload p))"
    using decode_encode [OF assms(1) pb] by simp
  ultimately show ?thesis by blast
qed

end

end
