(* ===== verification/JsonCodec.thy ===== *)
theory JsonCodec
  imports Rpc
begin

text \<open>
  \<open>rpc/json_codec.go\<close>: the codec of the program, \<open>json.Marshal\<close> and \<open>json.Unmarshal\<close> on the
  structs of \<open>rpc/\<close> with their field tags. Its interpretation of the locale \<open>wire_codec\<close> is the
  round trip of every message of the protocol. The argument \<open>ff\<close> is the decimal form of a double.
\<close>

section \<open>Definitions\<close>

subsection \<open>Encoding\<close>

definition big_json :: "int option \<Rightarrow> json" where
  "big_json b = (case b of None \<Rightarrow> JNull | Some i \<Rightarrow> JNum (int_str i))"

definition sig_json :: "Signature \<Rightarrow> json" where
  "sig_json s = JObj [(''R'', big_json (sig_R s)), (''S'', big_json (sig_S s))]"

definition response_json :: "JobObservationResponse \<Rightarrow> json" where
  "response_json r = JObj [(''job_id'', JStr (JobId r)), (''response'', JStr (b64encode (Response r)))]"

definition jobinfo_json :: "(float64 \<Rightarrow> string) \<Rightarrow> JobInfo \<Rightarrow> json option" where
  "jobinfo_json ff i =
     (case template_json ff (ji_Template i) of
        None \<Rightarrow> None
      | Some t \<Rightarrow>
          Some (JObj [(''JobID'', JStr (ji_JobID i)), (''JobType'', JStr (ji_JobType i)),
            (''Template'', t), (''Timeout'', JNum (int_str (sint (ji_Timeout i))))]))"

definition head_json :: "u64 \<Rightarrow> u64 \<Rightarrow> string \<Rightarrow> (string \<times> json) list" where
  "head_json e r l = [(''epoch'', enc_word e), (''round'', enc_word r), (''leader'', JStr l)]"

definition signatory_json :: "Signatories \<Rightarrow> json" where
  "signatory_json s = JObj [(''Sign'', sig_json (sg_Sign s)), (''ID'', JStr (sg_ID s))]"

definition finalreport_json :: "(float64 \<Rightarrow> string) \<Rightarrow> FinalReport \<Rightarrow> json option" where
  "finalreport_json ff f =
     (case val_json ff (VMap (fr_Report f)) of
        None \<Rightarrow> None
      | Some r \<Rightarrow>
          Some (JObj [(''Report'', r), (''Signatories'', enc_slice signatory_json (fr_Signatories f))]))"

fun payload_json :: "(float64 \<Rightarrow> string) \<Rightarrow> payload \<Rightarrow> json option" where
  "payload_json ff (PNewEpoch m) = Some (JObj [(''EpochID'', enc_word (ne_EpochID m))])"
| "payload_json ff (PStatus m) =
     Some (JObj [(''Id'', JStr (st_Id m)), (''NetworkId'', JStr (st_NetworkId m)),
       (''ListenAddr'', JStr (st_ListenAddr m))])"
| "payload_json ff PChangeLeader = Some (JObj [])"
| "payload_json ff (PObserveReq m) =
     (case mapO (jobinfo_json ff) (oq_Jobs m) of
        None \<Rightarrow> None
      | Some js \<Rightarrow>
          Some (JObj (head_json (oq_Epoch m) (oq_Round m) (oq_Leader m) @
            [(''jobs'', if js = [] then JNull else JArr js)])))"
| "payload_json ff (PObserveResp m) =
     Some (JObj (head_json (or_Epoch m) (or_Round m) (or_Leader m) @
       [(''jobResponses'', enc_slice response_json (or_JobResponses m))]))"
| "payload_json ff (PReportReq m) =
     Some (JObj (head_json (rq_Epoch m) (rq_Round m) (rq_Leader m) @
       [(''observations'', JStr (b64encode (rq_Observations m)))]))"
| "payload_json ff (PReportRes m) =
     (case val_json ff (VMap (rr_Reports m)) of
        None \<Rightarrow> None
      | Some r \<Rightarrow>
          Some (JObj (head_json (rr_Epoch m) (rr_Round m) (rr_Leader m) @ [(''reports'', r)])))"
| "payload_json ff (PObservationMap m) =
     Some (JObj (head_json (om_Epoch m) (om_Round m) (om_Leader m) @
       [(''observations'', JStr (b64encode (om_Observations m)))]))"
| "payload_json ff (PFinalReport m) =
     (case finalreport_json ff (bf_FinalReport m) of
        None \<Rightarrow> None
      | Some f \<Rightarrow>
          Some (JObj (head_json (bf_Epoch m) (bf_Round m) (bf_Leader m) @ [(''finalReport'', f)])))"
| "payload_json ff (PFinalEcho m) = Some (JObj (head_json (fe_Epoch m) (fe_Round m) (fe_Leader m)))"
| "payload_json ff (PProgressRound m) = Some (JObj (head_json (pr_Epoch m) (pr_Round m) (pr_Leader m)))"

fun wire_json :: "(float64 \<Rightarrow> string) \<Rightarrow> wire \<Rightarrow> json option" where
  "wire_json ff (WPayload p) = payload_json ff p"
| "wire_json ff (WMessage m) =
     Some (JObj [(''Headers'', enc_word (m_Headers m)), (''Topic'', enc_word (m_Topic m)),
       (''Data'', JStr (b64encode (m_Data m)))])"
| "wire_json ff (WRPC m) =
     Some (JObj [(''from_id'', JStr (rm_FromID m)), (''payload'', JStr (b64encode (rm_Payload m))),
       (''signature'', sig_json (rm_Signature m))])"

subsection \<open>Decoding\<close>

fun dec_big :: "json \<Rightarrow> int option option" where
  "dec_big JNull = Some None"
| "dec_big (JNum n) = map_option Some (str_int n)"
| "dec_big _ = None"

definition set_sig :: "string \<Rightarrow> json \<Rightarrow> Signature \<Rightarrow> Signature option" where
  "set_sig k v s =
     (if k = ''r'' then map_option (\<lambda>x. s\<lparr>sig_R := x\<rparr>) (dec_big v)
      else if k = ''s'' then map_option (\<lambda>x. s\<lparr>sig_S := x\<rparr>) (dec_big v)
      else Some s)"

definition set_response ::
  "string \<Rightarrow> json \<Rightarrow> JobObservationResponse \<Rightarrow> JobObservationResponse option" where
  "set_response k v r =
     (if k = ''job_id'' then map_option (\<lambda>x. r\<lparr>JobId := x\<rparr>) (dec_str v (JobId r))
      else if k = ''response'' then map_option (\<lambda>x. r\<lparr>Response := x\<rparr>) (dec_bytes v)
      else Some r)"

fun dec_int64 :: "json \<Rightarrow> u64 \<Rightarrow> u64 option" where
  "dec_int64 JNull old = Some old"
| "dec_int64 (JNum n) old =
     (case str_int n of
        None \<Rightarrow> None
      | Some i \<Rightarrow> if - (2 ^ 63) \<le> i \<and> i < 2 ^ 63 then Some (word_of_int i) else None)"
| "dec_int64 _ old = None"

definition set_jobinfo :: "string \<Rightarrow> json \<Rightarrow> JobInfo \<Rightarrow> JobInfo option" where
  "set_jobinfo k v i =
     (if k = ''jobid'' then map_option (\<lambda>x. i\<lparr>ji_JobID := x\<rparr>) (dec_str v (ji_JobID i))
      else if k = ''jobtype'' then map_option (\<lambda>x. i\<lparr>ji_JobType := x\<rparr>) (dec_str v (ji_JobType i))
      else if k = ''template'' then map_option (\<lambda>x. i\<lparr>ji_Template := TValue x\<rparr>) (json_val v)
      else if k = ''timeout'' then map_option (\<lambda>x. i\<lparr>ji_Timeout := x\<rparr>) (dec_int64 v (ji_Timeout i))
      else Some i)"

definition zero_jobinfo :: JobInfo where
  "zero_jobinfo = \<lparr>ji_JobID = [], ji_JobType = [], ji_Template = TValue VNil, ji_Timeout = 0\<rparr>"

fun dec_reports :: "json \<Rightarrow> JobReports \<Rightarrow> JobReports option" where
  "dec_reports JNull old = Some []"
| "dec_reports (JObj kvs) old =
     (case json_val (JObj kvs) of
        Some (VMap m) \<Rightarrow> Some (fold (\<lambda>(k, v). gm_put k v) m old)
      | _ \<Rightarrow> None)"
| "dec_reports _ old = None"

definition set_signatory :: "string \<Rightarrow> json \<Rightarrow> Signatories \<Rightarrow> Signatories option" where
  "set_signatory k v s =
     (if k = ''sign'' then map_option (\<lambda>x. s\<lparr>sg_Sign := x\<rparr>) (decode_struct set_sig (sg_Sign s) v)
      else if k = ''id'' then map_option (\<lambda>x. s\<lparr>sg_ID := x\<rparr>) (dec_str v (sg_ID s))
      else Some s)"

definition set_finalreport :: "string \<Rightarrow> json \<Rightarrow> FinalReport \<Rightarrow> FinalReport option" where
  "set_finalreport k v f =
     (if k = ''report'' then map_option (\<lambda>x. f\<lparr>fr_Report := x\<rparr>) (dec_reports v (fr_Report f))
      else if k = ''signatories'' then
        map_option (\<lambda>x. f\<lparr>fr_Signatories := x\<rparr>)
          (dec_slice (decode_struct set_signatory \<lparr>sg_Sign = zero_Signature, sg_ID = []\<rparr>) v)
      else Some f)"

definition zero_finalreport :: FinalReport where
  "zero_finalreport = \<lparr>fr_Report = [], fr_Signatories = []\<rparr>"

text \<open>The members of a payload struct: \<open>None\<close> in the result is a type mismatch.\<close>

fun set_payload :: "string \<Rightarrow> json \<Rightarrow> payload \<Rightarrow> payload option" where
  "set_payload k v (PNewEpoch m) =
     (if k = ''epochid'' then map_option (\<lambda>x. PNewEpoch (m\<lparr>ne_EpochID := x\<rparr>)) (dec_word v (ne_EpochID m))
      else Some (PNewEpoch m))"
| "set_payload k v (PStatus m) =
     (if k = ''id'' then map_option (\<lambda>x. PStatus (m\<lparr>st_Id := x\<rparr>)) (dec_str v (st_Id m))
      else if k = ''networkid'' then
        map_option (\<lambda>x. PStatus (m\<lparr>st_NetworkId := x\<rparr>)) (dec_str v (st_NetworkId m))
      else if k = ''listenaddr'' then
        map_option (\<lambda>x. PStatus (m\<lparr>st_ListenAddr := x\<rparr>)) (dec_str v (st_ListenAddr m))
      else Some (PStatus m))"
| "set_payload k v PChangeLeader = Some PChangeLeader"
| "set_payload k v (PObserveReq m) =
     (if k = ''epoch'' then map_option (\<lambda>x. PObserveReq (m\<lparr>oq_Epoch := x\<rparr>)) (dec_word v (oq_Epoch m))
      else if k = ''round'' then map_option (\<lambda>x. PObserveReq (m\<lparr>oq_Round := x\<rparr>)) (dec_word v (oq_Round m))
      else if k = ''leader'' then map_option (\<lambda>x. PObserveReq (m\<lparr>oq_Leader := x\<rparr>)) (dec_str v (oq_Leader m))
      else if k = ''jobs'' then
        map_option (\<lambda>x. PObserveReq (m\<lparr>oq_Jobs := x\<rparr>))
          (dec_slice (decode_struct set_jobinfo zero_jobinfo) v)
      else Some (PObserveReq m))"
| "set_payload k v (PObserveResp m) =
     (if k = ''epoch'' then map_option (\<lambda>x. PObserveResp (m\<lparr>or_Epoch := x\<rparr>)) (dec_word v (or_Epoch m))
      else if k = ''round'' then map_option (\<lambda>x. PObserveResp (m\<lparr>or_Round := x\<rparr>)) (dec_word v (or_Round m))
      else if k = ''leader'' then map_option (\<lambda>x. PObserveResp (m\<lparr>or_Leader := x\<rparr>)) (dec_str v (or_Leader m))
      else if k = ''jobresponses'' then
        map_option (\<lambda>x. PObserveResp (m\<lparr>or_JobResponses := x\<rparr>))
          (dec_slice (decode_struct set_response \<lparr>JobId = [], Response = []\<rparr>) v)
      else Some (PObserveResp m))"
| "set_payload k v (PReportReq m) =
     (if k = ''epoch'' then map_option (\<lambda>x. PReportReq (m\<lparr>rq_Epoch := x\<rparr>)) (dec_word v (rq_Epoch m))
      else if k = ''round'' then map_option (\<lambda>x. PReportReq (m\<lparr>rq_Round := x\<rparr>)) (dec_word v (rq_Round m))
      else if k = ''leader'' then map_option (\<lambda>x. PReportReq (m\<lparr>rq_Leader := x\<rparr>)) (dec_str v (rq_Leader m))
      else if k = ''observations'' then
        map_option (\<lambda>x. PReportReq (m\<lparr>rq_Observations := x\<rparr>)) (dec_bytes v)
      else Some (PReportReq m))"
| "set_payload k v (PReportRes m) =
     (if k = ''epoch'' then map_option (\<lambda>x. PReportRes (m\<lparr>rr_Epoch := x\<rparr>)) (dec_word v (rr_Epoch m))
      else if k = ''round'' then map_option (\<lambda>x. PReportRes (m\<lparr>rr_Round := x\<rparr>)) (dec_word v (rr_Round m))
      else if k = ''leader'' then map_option (\<lambda>x. PReportRes (m\<lparr>rr_Leader := x\<rparr>)) (dec_str v (rr_Leader m))
      else if k = ''reports'' then
        map_option (\<lambda>x. PReportRes (m\<lparr>rr_Reports := x\<rparr>)) (dec_reports v (rr_Reports m))
      else Some (PReportRes m))"
| "set_payload k v (PObservationMap m) =
     (if k = ''epoch'' then map_option (\<lambda>x. PObservationMap (m\<lparr>om_Epoch := x\<rparr>)) (dec_word v (om_Epoch m))
      else if k = ''round'' then map_option (\<lambda>x. PObservationMap (m\<lparr>om_Round := x\<rparr>)) (dec_word v (om_Round m))
      else if k = ''leader'' then map_option (\<lambda>x. PObservationMap (m\<lparr>om_Leader := x\<rparr>)) (dec_str v (om_Leader m))
      else if k = ''observations'' then
        map_option (\<lambda>x. PObservationMap (m\<lparr>om_Observations := x\<rparr>)) (dec_bytes v)
      else Some (PObservationMap m))"
| "set_payload k v (PFinalReport m) =
     (if k = ''epoch'' then map_option (\<lambda>x. PFinalReport (m\<lparr>bf_Epoch := x\<rparr>)) (dec_word v (bf_Epoch m))
      else if k = ''round'' then map_option (\<lambda>x. PFinalReport (m\<lparr>bf_Round := x\<rparr>)) (dec_word v (bf_Round m))
      else if k = ''leader'' then map_option (\<lambda>x. PFinalReport (m\<lparr>bf_Leader := x\<rparr>)) (dec_str v (bf_Leader m))
      else if k = ''finalreport'' then
        map_option (\<lambda>x. PFinalReport (m\<lparr>bf_FinalReport := x\<rparr>))
          (decode_struct set_finalreport (bf_FinalReport m) v)
      else Some (PFinalReport m))"
| "set_payload k v (PFinalEcho m) =
     (if k = ''epoch'' then map_option (\<lambda>x. PFinalEcho (m\<lparr>fe_Epoch := x\<rparr>)) (dec_word v (fe_Epoch m))
      else if k = ''round'' then map_option (\<lambda>x. PFinalEcho (m\<lparr>fe_Round := x\<rparr>)) (dec_word v (fe_Round m))
      else if k = ''leader'' then map_option (\<lambda>x. PFinalEcho (m\<lparr>fe_Leader := x\<rparr>)) (dec_str v (fe_Leader m))
      else Some (PFinalEcho m))"
| "set_payload k v (PProgressRound m) =
     (if k = ''epoch'' then map_option (\<lambda>x. PProgressRound (m\<lparr>pr_Epoch := x\<rparr>)) (dec_word v (pr_Epoch m))
      else if k = ''round'' then map_option (\<lambda>x. PProgressRound (m\<lparr>pr_Round := x\<rparr>)) (dec_word v (pr_Round m))
      else if k = ''leader'' then map_option (\<lambda>x. PProgressRound (m\<lparr>pr_Leader := x\<rparr>)) (dec_str v (pr_Leader m))
      else Some (PProgressRound m))"

fun zero_payload :: "wtype \<Rightarrow> payload option" where
  "zero_payload TNewEpoch = Some (PNewEpoch \<lparr>ne_EpochID = 0\<rparr>)"
| "zero_payload TStatus = Some (PStatus \<lparr>st_Id = [], st_NetworkId = [], st_ListenAddr = []\<rparr>)"
| "zero_payload TChangeLeader = Some PChangeLeader"
| "zero_payload TObserveReq =
     Some (PObserveReq \<lparr>oq_Epoch = 0, oq_Round = 0, oq_Leader = [], oq_Jobs = []\<rparr>)"
| "zero_payload TObserveResp =
     Some (PObserveResp \<lparr>or_Epoch = 0, or_Round = 0, or_Leader = [], or_JobResponses = []\<rparr>)"
| "zero_payload TReportReq =
     Some (PReportReq \<lparr>rq_Epoch = 0, rq_Round = 0, rq_Leader = [], rq_Observations = []\<rparr>)"
| "zero_payload TReportRes =
     Some (PReportRes \<lparr>rr_Epoch = 0, rr_Round = 0, rr_Leader = [], rr_Reports = []\<rparr>)"
| "zero_payload TObservationMap =
     Some (PObservationMap \<lparr>om_Epoch = 0, om_Round = 0, om_Leader = [], om_Observations = []\<rparr>)"
| "zero_payload TFinalReport =
     Some (PFinalReport \<lparr>bf_Epoch = 0, bf_Round = 0, bf_Leader = [], bf_FinalReport = zero_finalreport\<rparr>)"
| "zero_payload TFinalEcho = Some (PFinalEcho \<lparr>fe_Epoch = 0, fe_Round = 0, fe_Leader = []\<rparr>)"
| "zero_payload TProgressRound = Some (PProgressRound \<lparr>pr_Epoch = 0, pr_Round = 0, pr_Leader = []\<rparr>)"
| "zero_payload _ = None"

definition set_message :: "string \<Rightarrow> json \<Rightarrow> Message \<Rightarrow> Message option" where
  "set_message k v m =
     (if k = ''headers'' then map_option (\<lambda>x. m\<lparr>m_Headers := x\<rparr>) (dec_word v (m_Headers m))
      else if k = ''topic'' then map_option (\<lambda>x. m\<lparr>m_Topic := x\<rparr>) (dec_word v (m_Topic m))
      else if k = ''data'' then map_option (\<lambda>x. m\<lparr>m_Data := x\<rparr>) (dec_bytes v)
      else Some m)"

definition set_rpc :: "string \<Rightarrow> json \<Rightarrow> RPCMessage \<Rightarrow> RPCMessage option" where
  "set_rpc k v m =
     (if k = ''from_id'' then map_option (\<lambda>x. m\<lparr>rm_FromID := x\<rparr>) (dec_str v (rm_FromID m))
      else if k = ''payload'' then map_option (\<lambda>x. m\<lparr>rm_Payload := x\<rparr>) (dec_bytes v)
      else if k = ''signature'' then
        map_option (\<lambda>x. m\<lparr>rm_Signature := x\<rparr>) (decode_struct set_sig (rm_Signature m) v)
      else Some m)"

definition zero_rpc :: RPCMessage where
  "zero_rpc = \<lparr>rm_FromID = [], rm_Payload = [], rm_Signature = zero_Signature\<rparr>"

fun json_wire :: "wtype \<Rightarrow> json \<Rightarrow> wire option" where
  "json_wire TMessage j =
     map_option WMessage (decode_struct set_message \<lparr>m_Headers = 0, m_Topic = 0, m_Data = []\<rparr> j)"
| "json_wire TRPC j = map_option WRPC (decode_struct set_rpc zero_rpc j)"
| "json_wire t j =
     (case zero_payload t of None \<Rightarrow> None | Some z \<Rightarrow> map_option WPayload (decode_struct set_payload z j))"

definition JSONCodec :: "(float64 \<Rightarrow> string) \<Rightarrow> codec" where
  "JSONCodec ff =
     \<lparr>Encode = (\<lambda>v. map_option print_json (wire_json ff v)),
      Decode = (\<lambda>t b. Option.bind (json_parse b) (json_wire t))\<rparr>"

subsection \<open>Well-formed messages and what the receiver sees\<close>

fun scalar_wf :: "(float64 \<Rightarrow> string) \<Rightarrow> goval \<Rightarrow> bool" where
  "scalar_wf ff VNil = True"
| "scalar_wf ff (VBool b) = True"
| "scalar_wf ff (VNum x) = ff_ok ff x"
| "scalar_wf ff (VStr s) = ascii s"
| "scalar_wf ff _ = False"

definition reports_wf :: "(float64 \<Rightarrow> string) \<Rightarrow> JobReports \<Rightarrow> bool" where
  "reports_wf ff m \<longleftrightarrow> gm_wf m \<and> (\<forall>(k, v)\<in>set m. ascii k \<and> scalar_wf ff v)"

fun jobinfo_wf :: "(float64 \<Rightarrow> string) \<Rightarrow> JobInfo \<Rightarrow> bool" where
  "jobinfo_wf ff i =
     (ascii (ji_JobID i) \<and> ascii (ji_JobType i) \<and>
      (case ji_Template i of TParams p \<Rightarrow> params_wf ff p | TValue v \<Rightarrow> False))"

fun payload_wf :: "(float64 \<Rightarrow> string) \<Rightarrow> payload \<Rightarrow> bool" where
  "payload_wf ff (PStatus m) = (ascii (st_Id m) \<and> ascii (st_NetworkId m) \<and> ascii (st_ListenAddr m))"
| "payload_wf ff (PObserveReq m) = (ascii (oq_Leader m) \<and> (\<forall>i\<in>set (oq_Jobs m). jobinfo_wf ff i))"
| "payload_wf ff (PObserveResp m) = (ascii (or_Leader m) \<and> (\<forall>r\<in>set (or_JobResponses m). ascii (JobId r)))"
| "payload_wf ff (PReportReq m) = ascii (rq_Leader m)"
| "payload_wf ff (PReportRes m) = (ascii (rr_Leader m) \<and> reports_wf ff (rr_Reports m))"
| "payload_wf ff (PObservationMap m) = ascii (om_Leader m)"
| "payload_wf ff (PFinalReport m) =
     (ascii (bf_Leader m) \<and> reports_wf ff (fr_Report (bf_FinalReport m)) \<and>
      (\<forall>s\<in>set (fr_Signatories (bf_FinalReport m)). ascii (sg_ID s)))"
| "payload_wf ff (PFinalEcho m) = ascii (fe_Leader m)"
| "payload_wf ff (PProgressRound m) = ascii (pr_Leader m)"
| "payload_wf ff _ = True"

fun wire_wf :: "(float64 \<Rightarrow> string) \<Rightarrow> wire \<Rightarrow> bool" where
  "wire_wf ff (WPayload p) = payload_wf ff p"
| "wire_wf ff (WMessage m) = True"
| "wire_wf ff (WRPC m) = ascii (rm_FromID m)"

fun rcv_jobinfo :: "JobInfo \<Rightarrow> JobInfo" where
  "rcv_jobinfo i =
     i\<lparr>ji_Template := (case ji_Template i of TParams p \<Rightarrow> TValue (params_val p) | TValue v \<Rightarrow> TValue v)\<rparr>"

fun rcv_payload :: "payload \<Rightarrow> payload" where
  "rcv_payload (PObserveReq m) = PObserveReq (m\<lparr>oq_Jobs := map rcv_jobinfo (oq_Jobs m)\<rparr>)"
| "rcv_payload (PReportRes m) = PReportRes (m\<lparr>rr_Reports := sort_key fst (rr_Reports m)\<rparr>)"
| "rcv_payload (PFinalReport m) =
     PFinalReport (m\<lparr>bf_FinalReport :=
       (bf_FinalReport m)\<lparr>fr_Report := sort_key fst (fr_Report (bf_FinalReport m))\<rparr>\<rparr>)"
| "rcv_payload p = p"

fun rcv_wire :: "wire \<Rightarrow> wire" where
  "rcv_wire (WPayload p) = WPayload (rcv_payload p)"
| "rcv_wire w = w"

section \<open>Lemmas\<close>

lemma sort_key_map_fst:
  assumes "\<And>x. fst (h x) = fst x"
  shows "sort_key fst (map h xs) = map h (sort_key fst xs)"
  by (simp add: sort_key_map assms comp_def)

lemma fold_gm_put_new:
  "distinct (map fst kvs) \<Longrightarrow> fst ` set m \<inter> fst ` set kvs = {} \<Longrightarrow>
     fold (\<lambda>(k, v). gm_put k v) kvs m = m @ kvs"
proof (induction kvs arbitrary: m)
  case (Cons kv kvs)
  obtain k v where kv: "kv = (k, v)" by (cases kv)
  have "k \<notin> fst ` set m" using Cons.prems kv by auto
  then have "gm_put k v m = m @ [(k, v)]"
    unfolding gm_put_def by (induction m) auto
  with Cons kv show ?case by simp
qed simp

lemma fold_gm_put_id: "gm_wf m \<Longrightarrow> fold (\<lambda>(k, v). gm_put k v) m [] = m"
  using fold_gm_put_new [of m "[]"] by (simp add: gm_wf_def)

lemma gm_wf_sort_key: "gm_wf (sort_key fst m) \<longleftrightarrow> gm_wf m"
  unfolding gm_wf_def by (metis mset_map mset_sort mset_eq_imp_distinct_iff)

lemma gm_eq_sort_key: "gm_wf m \<Longrightarrow> gm_eq (sort_key fst m) m"
  by (simp add: mset_gm_eq gm_wf_sort_key)

lemma scalar_wire:
  assumes "scalar_wf ff v"
  shows "\<exists>j. val_json ff v = Some j \<and> json_val j = Some v \<and> json_wf j"
  using assms by (cases v) (auto simp: ff_ok_def)

lemma reports_wire:
  assumes "reports_wf ff m"
  shows "\<exists>kvs. val_json ff (VMap m) = Some (JObj kvs) \<and> json_wf (JObj kvs) \<and>
           dec_reports (JObj kvs) [] = Some (sort_key fst m)"
proof -
  define g where "g kv = the (val_json ff (snd kv))" for kv :: "string \<times> goval"
  define h where "h kv = (fst kv, g kv)" for kv :: "string \<times> goval"
  have g: "val_json ff (snd kv) = Some (g kv)" "json_val (g kv) = Some (snd kv)" "json_wf (g kv)"
    if "kv \<in> set m" for kv
  proof -
    have "scalar_wf ff (snd kv)" using assms that by (auto simp: reports_wf_def)
    then show "val_json ff (snd kv) = Some (g kv)" "json_val (g kv) = Some (snd kv)" "json_wf (g kv)"
      using scalar_wire [of ff "snd kv"] by (auto simp: g_def)
  qed
  have vals: "mapO (\<lambda>kv. val_json ff (snd kv)) m = Some (map g m)"
    using mapO_map [of m "\<lambda>kv. val_json ff (snd kv)" "\<lambda>x. x" g] g(1) by simp
  have zip: "zip (map fst m) (map g m) = map h m"
    by (simp add: h_def zip_map_map zip_same_conv_map)
  let ?s = "sort_key fst m"
  have js: "val_json ff (VMap m) = Some (JObj (map h ?s))"
    by (simp add: vals zip sort_key_map_fst h_def)
  have vals2: "mapO (\<lambda>kv. json_val (snd kv)) (map h ?s) = Some (map snd ?s)"
    using mapO_map [of ?s "\<lambda>kv. json_val (snd kv)" h snd] g(2) by (simp add: h_def)
  have "zip (map fst (map h ?s)) (map snd ?s) = ?s"
    by (simp add: h_def comp_def zip_map_fst_snd)
  moreover have wf: "gm_wf ?s" using assms by (simp add: gm_wf_sort_key reports_wf_def)
  ultimately have "json_val (JObj (map h ?s)) = Some (VMap ?s)"
    using vals2 by (simp add: fold_gm_put_id)
  then have "dec_reports (JObj (map h ?s)) [] = Some ?s"
    using wf by (simp add: fold_gm_put_id del: json_val.simps)
  moreover have "json_wf (JObj (map h ?s))"
    using assms g(3) by (auto simp: h_def reports_wf_def)
  ultimately show ?thesis using js by blast
qed

lemma rpc_keys:
  "map lower ''epoch'' = ''epoch''" "map lower ''round'' = ''round''" "map lower ''leader'' = ''leader''"
  "map lower ''jobs'' = ''jobs''" "map lower ''jobResponses'' = ''jobresponses''"
  "map lower ''observations'' = ''observations''" "map lower ''reports'' = ''reports''"
  "map lower ''finalReport'' = ''finalreport''" "map lower ''Report'' = ''report''"
  "map lower ''Signatories'' = ''signatories''" "map lower ''Sign'' = ''sign''" "map lower ''ID'' = ''id''"
  "map lower ''R'' = ''r''" "map lower ''S'' = ''s''" "map lower ''job_id'' = ''job_id''"
  "map lower ''response'' = ''response''" "map lower ''JobID'' = ''jobid''"
  "map lower ''JobType'' = ''jobtype''" "map lower ''Template'' = ''template''"
  "map lower ''Timeout'' = ''timeout''" "map lower ''EpochID'' = ''epochid''" "map lower ''Id'' = ''id''"
  "map lower ''NetworkId'' = ''networkid''" "map lower ''ListenAddr'' = ''listenaddr''"
  "map lower ''Headers'' = ''headers''" "map lower ''Topic'' = ''topic''" "map lower ''Data'' = ''data''"
  "map lower ''from_id'' = ''from_id''" "map lower ''payload'' = ''payload''"
  "map lower ''signature'' = ''signature''"
  by code_simp+

lemma sig_wire: "decode_struct set_sig z (sig_json s) = Some s" "json_wf (sig_json s)"
proof -
  have "dec_big (big_json b) = Some b" "json_wf (big_json b)" for b
    by (cases b; simp add: big_json_def)+
  then show "decode_struct set_sig z (sig_json s) = Some s" "json_wf (sig_json s)"
    by (simp_all add: decode_struct_def sig_json_def rpc_keys set_sig_def del: list.map)
qed

lemma response_wire:
  "decode_struct set_response \<lparr>JobId = [], Response = []\<rparr> (response_json r) = Some r"
  "ascii (JobId r) \<Longrightarrow> json_wf (response_json r)"
  by (simp_all add: decode_struct_def response_json_def rpc_keys set_response_def del: list.map)

lemma signatory_wire:
  "decode_struct set_signatory \<lparr>sg_Sign = zero_Signature, sg_ID = []\<rparr> (signatory_json r) = Some r"
  "ascii (sg_ID r) \<Longrightarrow> json_wf (signatory_json r)"
  by (simp_all add: decode_struct_def [of set_signatory] signatory_json_def rpc_keys set_signatory_def sig_wire
      del: list.map)

lemma dec_int64_sint: "dec_int64 (JNum (int_str (sint w))) old = Some w"
proof -
  have "- (2 ^ 63) \<le> sint w \<and> sint w < 2 ^ 63"
    using sint_greater_eq [of w] sint_less [of w] by simp
  then show ?thesis by simp
qed

lemma jobinfo_wire:
  assumes "jobinfo_wf ff i"
  shows "\<exists>j. jobinfo_json ff i = Some j \<and> json_wf j \<and>
           decode_struct set_jobinfo zero_jobinfo j = Some (rcv_jobinfo i)"
proof -
  obtain p where p: "ji_Template i = TParams p" "params_wf ff p"
    using assms by (auto split: Template.splits)
  obtain j where "params_json ff p = Some j" "json_wf j" "json_val j = Some (params_val p)"
    by (rule params_wire [OF p(2)])
  with p assms show ?thesis
    by (simp add: jobinfo_json_def template_json_def decode_struct_def [of set_jobinfo] rpc_keys set_jobinfo_def zero_jobinfo_def
        dec_int64_sint del: list.map dec_int64.simps)
qed

lemma jobinfos_wire:
  assumes "\<forall>i\<in>set is. jobinfo_wf ff i"
  shows "\<exists>js. mapO (jobinfo_json ff) is = Some js \<and> (\<forall>j\<in>set js. json_wf j) \<and>
           dec_slice (decode_struct set_jobinfo zero_jobinfo) (if js = [] then JNull else JArr js) =
             Some (map rcv_jobinfo is)"
proof -
  define g where "g i = the (jobinfo_json ff i)" for i
  have g: "jobinfo_json ff i = Some (g i)" "json_wf (g i)"
      "decode_struct set_jobinfo zero_jobinfo (g i) = Some (rcv_jobinfo i)" if "i \<in> set is" for i
    using jobinfo_wire [of ff i] assms that by (auto simp: g_def simp del: jobinfo_wf.simps rcv_jobinfo.simps)
  have "mapO (jobinfo_json ff) is = Some (map g is)"
    using mapO_map [of "is" "jobinfo_json ff" "\<lambda>x. x" g] g(1) by simp
  moreover have "mapO (decode_struct set_jobinfo zero_jobinfo) (map g is) = Some (map rcv_jobinfo is)"
    using g(3) by (intro mapO_map) simp
  ultimately show ?thesis using g(2) by (auto simp del: rcv_jobinfo.simps)
qed

lemma finalreport_wire:
  assumes "reports_wf ff (fr_Report f)" and "\<forall>s\<in>set (fr_Signatories f). ascii (sg_ID s)"
  shows "\<exists>j. finalreport_json ff f = Some j \<and> json_wf j \<and>
           decode_struct set_finalreport zero_finalreport j = Some (f\<lparr>fr_Report := sort_key fst (fr_Report f)\<rparr>)"
proof -
  obtain kvs where kvs: "val_json ff (VMap (fr_Report f)) = Some (JObj kvs)" "json_wf (JObj kvs)"
      "dec_reports (JObj kvs) [] = Some (sort_key fst (fr_Report f))"
    using reports_wire [OF assms(1)] by blast
  have sgs: "dec_slice (decode_struct set_signatory \<lparr>sg_Sign = zero_Signature, sg_ID = []\<rparr>)
      (enc_slice signatory_json (fr_Signatories f)) = Some (fr_Signatories f)"
    by (rule dec_slice_enc_slice) (rule signatory_wire)
  have "json_wf (enc_slice signatory_json (fr_Signatories f))"
    using assms(2) by (intro json_wf_enc_slice signatory_wire) simp
  with kvs sgs show ?thesis
    by (simp add: finalreport_json_def decode_struct_def [of set_finalreport] rpc_keys set_finalreport_def
        zero_finalreport_def del: list.map dec_reports.simps val_json.simps)
qed

lemma payload_wire:
  assumes "payload_wf ff p"
  shows "\<exists>j. payload_json ff p = Some j \<and> json_wf j \<and> json_wire (payload_type p) j = Some (WPayload (rcv_payload p))"
proof (cases p)
  case (PObserveReq m)
  from assms PObserveReq obtain js where "mapO (jobinfo_json ff) (oq_Jobs m) = Some js"
    "\<forall>j\<in>set js. json_wf j"
    "dec_slice (decode_struct set_jobinfo zero_jobinfo) (if js = [] then JNull else JArr js) =
       Some (map rcv_jobinfo (oq_Jobs m))"
    using jobinfos_wire [of "oq_Jobs m" ff] by (auto simp del: jobinfo_wf.simps rcv_jobinfo.simps dec_slice.simps)
  with PObserveReq assms show ?thesis
    by (simp add: head_json_def decode_struct_def [of set_payload] rpc_keys
        del: list.map dec_slice.simps rcv_jobinfo.simps jobinfo_wf.simps)
next
  case (PObserveResp m)
  have "dec_slice (decode_struct set_response \<lparr>JobId = [], Response = []\<rparr>)
      (enc_slice response_json (or_JobResponses m)) = Some (or_JobResponses m)"
    by (rule dec_slice_enc_slice) (rule response_wire)
  moreover have "json_wf (enc_slice response_json (or_JobResponses m))"
    using assms PObserveResp by (intro json_wf_enc_slice response_wire) simp
  ultimately show ?thesis using PObserveResp assms
    by (simp add: head_json_def decode_struct_def [of set_payload] rpc_keys del: list.map)
next
  case (PReportRes m)
  then obtain kvs where "val_json ff (VMap (rr_Reports m)) = Some (JObj kvs)" "json_wf (JObj kvs)"
      "dec_reports (JObj kvs) [] = Some (sort_key fst (rr_Reports m))"
    using reports_wire [of ff "rr_Reports m"] assms by auto
  then show ?thesis using PReportRes assms
    by (simp add: head_json_def decode_struct_def rpc_keys del: list.map dec_reports.simps val_json.simps)
next
  case (PFinalReport m)
  then obtain j where "finalreport_json ff (bf_FinalReport m) = Some j" "json_wf j"
      "decode_struct set_finalreport zero_finalreport j =
         Some ((bf_FinalReport m)\<lparr>fr_Report := sort_key fst (fr_Report (bf_FinalReport m))\<rparr>)"
    using finalreport_wire [of ff "bf_FinalReport m"] assms by auto
  then show ?thesis using PFinalReport assms
    by (simp add: head_json_def decode_struct_def [of set_payload] rpc_keys del: list.map)
qed (use assms in \<open>simp_all add: head_json_def decode_struct_def rpc_keys del: list.map\<close>)


lemma wire_wire:
  assumes "wire_wf ff v"
  shows "\<exists>j. wire_json ff v = Some j \<and> json_wf j \<and> json_wire (wire_type v) j = Some (rcv_wire v)"
proof (cases v)
  case (WPayload p)
  with payload_wire [of ff p] assms show ?thesis by simp
qed (use assms in \<open>simp_all add: decode_struct_def [of set_message] decode_struct_def [of set_rpc]
      rpc_keys set_message_def set_rpc_def sig_wire zero_rpc_def del: list.map\<close>)

section \<open>The JSON codec is a codec of the protocol\<close>

interpretation jc: wire_codec "JSONCodec ff" "wire_wf ff" rcv_wire for ff
proof
  fix v
  assume wf: "wire_wf ff v"
  show "\<exists>b. Encode (JSONCodec ff) v = Some b"
    using wire_wire [OF wf] by (auto simp: JSONCodec_def)
  fix b
  assume "Encode (JSONCodec ff) v = Some b"
  then show "Decode (JSONCodec ff) (wire_type v) b = Some (rcv_wire v)"
    using wire_wire [OF wf] by (auto simp: JSONCodec_def json_parse_print)
qed simp_all

end
