(* ===== verification/Processor.thy ===== *)
theory Processor
  imports JsonCodec
begin

text \<open>
  \<open>ocr/server_rpc_processor.go\<close>: decoding of incoming RPC messages by their header, and routing by
  their topic to the pacemaker, to the reporting engine, or (status messages) to the server.
\<close>

section \<open>Definitions\<close>

datatype decode_error = DecodeFailed | UnknownMessageType MessageType

definition decoded ::
  "codec \<Rightarrow> wtype \<Rightarrow> RPCMessage \<Rightarrow> Message \<Rightarrow> Signature \<Rightarrow> (decode_error, DecodedMsg) res" where
  "decoded c t rpcMsg msg sg =
     (case Decode c t (m_Data msg) of
        Some (WPayload p) \<Rightarrow>
          Ok \<lparr>dm_FromId = rm_FromID rpcMsg, dm_Topic = m_Topic msg, dm_Data = Ptr p, dm_Signature = sg\<rparr>
      | _ \<Rightarrow> Err DecodeFailed)"

text \<open>Only OBSERVE-RES and REPORT-RES keep the signature of the envelope.\<close>

definition DefaultRPCDecoder :: "codec \<Rightarrow> RPCMessage \<Rightarrow> (decode_error, DecodedMsg) res" where
  "DefaultRPCDecoder c rpcMsg =
     (case Decode c TMessage (rm_Payload rpcMsg) of
        Some (WMessage msg) \<Rightarrow>
          (let h = m_Headers msg in
           if h = MessageNewEpoch then decoded c TNewEpoch rpcMsg msg zero_Signature
           else if h = MessageStatus then decoded c TStatus rpcMsg msg zero_Signature
           else if h = MessageObserveReq then decoded c TObserveReq rpcMsg msg zero_Signature
           else if h = MessageReportRes then decoded c TReportRes rpcMsg msg (rm_Signature rpcMsg)
           else if h = MessageReportReq then decoded c TReportReq rpcMsg msg zero_Signature
           else if h = MessageObserveRes then decoded c TObserveResp rpcMsg msg (rm_Signature rpcMsg)
           else if h = MessageChangeLeader then decoded c TChangeLeader rpcMsg msg zero_Signature
           else if h = MessageObservationMap then decoded c TObservationMap rpcMsg msg zero_Signature
           else Err (UnknownMessageType h))
      | _ \<Rightarrow> Err DecodeFailed)"

datatype handler = HPacemaker | HReporter

record ServerRPCProcessor =
  handlers :: "(MesageTopic, handler) gomap"
  commsChWithServer :: "InternalPeerServerInfoMsg list"

definition RegisterHandler :: "MesageTopic \<Rightarrow> handler \<Rightarrow> ServerRPCProcessor \<Rightarrow> ServerRPCProcessor" where
  "RegisterHandler t h s = s\<lparr>handlers := gm_put t h (handlers s)\<rparr>"

text \<open>
  Where a message goes: nowhere, to the server's own channel, or to a registered handler. The channel to
  the server has room for a thousand messages; when it is full the caller waits, \<open>RouteBlocked\<close>.
\<close>

datatype route = RouteNone | RouteServer | RouteBlocked | RouteTo handler

definition commsCh_cap :: nat where "commsCh_cap = 1000"

definition Processor_ProcessMessage ::
  "DecodedMsg \<Rightarrow> ServerRPCProcessor \<Rightarrow> ServerRPCProcessor \<times> route" where
  "Processor_ProcessMessage msg s =
     (if dm_Topic msg = TopicServer then
        (case dm_Data msg of
           Ptr (PStatus statusMsg) \<Rightarrow>
             if length (commsChWithServer s) < commsCh_cap then
               (s\<lparr>commsChWithServer := commsChWithServer s @
                   [\<lparr>im_NetworkId = st_NetworkId statusMsg, im_ListenAddr = st_ListenAddr statusMsg,
                     im_ServerId = st_Id statusMsg\<rparr>]\<rparr>, RouteServer)
             else (s, RouteBlocked)
         | _ \<Rightarrow> (s, RouteNone))
      else (case map_of (handlers s) (dm_Topic msg) of
              None \<Rightarrow> (s, RouteNone)
            | Some h \<Rightarrow> (s, RouteTo h)))"

text \<open>
  The processor as \<open>OCR.Start\<close> sets it up, and the header with which the program sends each struct.
\<close>

definition started_processor :: ServerRPCProcessor where
  "started_processor =
     RegisterHandler TopicReporter HReporter
       (RegisterHandler TopicPacemaker HPacemaker \<lparr>handlers = [], commsChWithServer = []\<rparr>)"

fun header_of :: "payload \<Rightarrow> MessageType" where
  "header_of (PNewEpoch _) = MessageNewEpoch"
| "header_of (PStatus _) = MessageStatus"
| "header_of PChangeLeader = MessageChangeLeader"
| "header_of (PObserveReq _) = MessageObserveReq"
| "header_of (PObserveResp _) = MessageObserveRes"
| "header_of (PReportReq _) = MessageReportReq"
| "header_of (PReportRes _) = MessageReportRes"
| "header_of (PObservationMap _) = MessageObservationMap"
| "header_of (PFinalReport _) = MessageFinalReport"
| "header_of (PFinalEcho _) = MessageFinalEcho"
| "header_of (PProgressRound _) = MessageProgressRound"

text \<open>
  The whole way of a message: the bytes the builder made are decoded by the transport's read loop
  (\<open>libp2p_transport.go\<close>) and then by \<open>DefaultRPCDecoder\<close>.
\<close>

definition receive :: "codec \<Rightarrow> bytes \<Rightarrow> (decode_error, DecodedMsg) res" where
  "receive c bs =
     (case Decode c TRPC bs of Some (WRPC r) \<Rightarrow> DefaultRPCDecoder c r | _ \<Rightarrow> Err DecodeFailed)"

definition keeps_signature :: "payload \<Rightarrow> bool" where
  "keeps_signature p = (case p of PObserveResp _ \<Rightarrow> True | PReportRes _ \<Rightarrow> True | _ \<Rightarrow> False)"

definition known_payload :: "payload \<Rightarrow> bool" where
  "known_payload p =
     (case p of PFinalReport _ \<Rightarrow> False | PFinalEcho _ \<Rightarrow> False | PProgressRound _ \<Rightarrow> False | _ \<Rightarrow> True)"

section \<open>Lemmas\<close>

context wire_codec
begin

text \<open>Every codec with the round trip delivers a built message up to the decoder's header switch.\<close>

lemma receive_rpc_bytes:
  assumes "wf (WPayload p)" and "\<And>pl. wf (WRPC \<lparr>rm_FromID = i, rm_Payload = pl, rm_Signature = s\<rparr>)"
    and "rcv (WPayload p) = WPayload p'"
  shows "\<exists>bs. rpc_bytes a c i (header_of p) t p s = Ok bs \<and>
           receive c bs =
             (if known_payload p
              then Ok \<lparr>dm_FromId = i, dm_Topic = t, dm_Data = Ptr p',
                       dm_Signature = (if keeps_signature p then s else zero_Signature)\<rparr>
              else Err (UnknownMessageType (header_of p)))"
proof -
  obtain bs mb pb where *: "rpc_bytes a c i (header_of p) t p s = Ok bs"
      "Decode c TRPC bs = Some (WRPC \<lparr>rm_FromID = i, rm_Payload = mb, rm_Signature = s\<rparr>)"
      "Decode c TMessage mb = Some (WMessage \<lparr>m_Headers = header_of p, m_Topic = t, m_Data = pb\<rparr>)"
      "Decode c (payload_type p) pb = Some (rcv (WPayload p))"
    using rpc_bytes_arrive [OF assms(1,2)] by blast
  then have "receive c bs =
             (if known_payload p
              then Ok \<lparr>dm_FromId = i, dm_Topic = t, dm_Data = Ptr p',
                       dm_Signature = (if keeps_signature p then s else zero_Signature)\<rparr>
              else Err (UnknownMessageType (header_of p)))"
    using assms(3)
    by (cases p) (simp_all add: receive_def DefaultRPCDecoder_def decoded_def message_types
        known_payload_def keeps_signature_def)
  with * show ?thesis by blast
qed

end

text \<open>
  C4: Every well-formed message whose header \<open>DefaultRPCDecoder\<close> knows arrives: building it, encoding
  it as JSON, and decoding the three layers on the other side gives the sender's identity, the topic
  and the payload, with the signature for the two signed responses.
\<close>

theorem message_delivery:
  assumes "payload_wf ff p" and "ascii i" and "known_payload p"
  shows "\<exists>bs. rpc_bytes a (JSONCodec ff) i (header_of p) t p s = Ok bs \<and>
           receive (JSONCodec ff) bs =
             Ok \<lparr>dm_FromId = i, dm_Topic = t, dm_Data = Ptr (rcv_payload p),
                 dm_Signature = (if keeps_signature p then s else zero_Signature)\<rparr>"
  using jc.receive_rpc_bytes [of ff p i s "rcv_payload p" a t] assms by simp

text \<open>
  C39: The FINAL-REPORT, FINAL-ECHO and PROGRESS-ROUND messages, which the leader and the followers do
  build and send, are refused by every receiver: \<open>DefaultRPCDecoder\<close> has no case for their headers.
\<close>

theorem final_messages_undeliverable:
  assumes "payload_wf ff p" and "ascii i"
    and "(\<exists>m. p = PFinalReport m) \<or> (\<exists>m. p = PFinalEcho m) \<or> (\<exists>m. p = PProgressRound m)"
  shows "\<exists>bs. rpc_bytes a (JSONCodec ff) i (header_of p) t p s = Ok bs \<and>
           receive (JSONCodec ff) bs = Err (UnknownMessageType (header_of p))"
  using jc.receive_rpc_bytes [of ff p i s "rcv_payload p" a t] assms by (auto simp: known_payload_def)

text \<open>
  A NEWEPOCH message sent by the pacemaker does not arrive: \<open>SendNewEpochMsg\<close> broadcasts a bare
  \<open>Message\<close> without the RPC envelope, the transport decodes it into an empty \<open>RPCMessage\<close> (its fields
  have other names), and the decoder fails on the empty payload.
\<close>

theorem bare_message_not_received:
  assumes "MessageBuilder_Bytes \<lparr>mb_headers = h, mb_topic = t, mb_data = Some d, mb_codec = JSONCodec ff\<rparr> = Ok bs"
  shows "Decode (JSONCodec ff) TRPC bs = Some (WRPC zero_rpc) \<and>
         receive (JSONCodec ff) bs = Err DecodeFailed"
proof -
  let ?m = "\<lparr>m_Headers = h, m_Topic = t, m_Data = d\<rparr>"
  let ?j = "JObj [(''Headers'', enc_word h), (''Topic'', enc_word t), (''Data'', JStr (b64encode d))]"
  from assms have "bs = print_json ?j"
    by (simp add: MessageBuilder_Bytes_def MessageBuilder_Build_def Message_Bytes_def JSONCodec_def
        del: print_json.simps)
  moreover have "json_wf ?j" by simp
  ultimately have parse: "json_parse bs = Some ?j" using json_parse_print by blast
  have zero: "Decode (JSONCodec ff) TRPC bs = Some (WRPC zero_rpc)"
    by (simp add: JSONCodec_def parse decode_struct_def rpc_keys set_rpc_def del: list.map)
  moreover have "json_parse [] = None" by (simp add: json_parse_def)
  then have "DefaultRPCDecoder (JSONCodec ff) zero_rpc = Err DecodeFailed"
    by (simp add: DefaultRPCDecoder_def zero_rpc_def JSONCodec_def)
  ultimately show ?thesis by (simp add: receive_def)
qed

text \<open>
  Routing: after \<open>OCR.Start\<close> a message for the pacemaker or the reporter reaches exactly that
  handler, a status message is queued for the server in arrival order and reaches no handler (its sender
  waits when the queue is full), and every other message is dropped without effect.
\<close>

theorem routing:
  "Processor_ProcessMessage msg (started_processor\<lparr>commsChWithServer := q\<rparr>) =
     (if dm_Topic msg = TopicServer then
        (case dm_Data msg of
           Ptr (PStatus st) \<Rightarrow>
             if length q < commsCh_cap then
               (started_processor\<lparr>commsChWithServer :=
                  q @ [\<lparr>im_NetworkId = st_NetworkId st, im_ListenAddr = st_ListenAddr st, im_ServerId = st_Id st\<rparr>]\<rparr>,
                RouteServer)
             else (started_processor\<lparr>commsChWithServer := q\<rparr>, RouteBlocked)
         | _ \<Rightarrow> (started_processor\<lparr>commsChWithServer := q\<rparr>, RouteNone))
      else (started_processor\<lparr>commsChWithServer := q\<rparr>,
            if dm_Topic msg = TopicPacemaker then RouteTo HPacemaker
            else if dm_Topic msg = TopicReporter then RouteTo HReporter else RouteNone))"
  by (auto simp: Processor_ProcessMessage_def started_processor_def RegisterHandler_def topics
      split: goany.splits payload.splits)

section \<open>Witnesses\<close>

theorem message_delivery_witness:
  "\<exists>bs. rpc_bytes [] (JSONCodec (\<lambda>_. ''0'')) ''ab'' MessageReportReq TopicReporter
       (PReportReq \<lparr>rq_Epoch = 1, rq_Round = 2, rq_Leader = ''cd'', rq_Observations = ''xyz''\<rparr>) zero_Signature = Ok bs \<and>
     receive (JSONCodec (\<lambda>_. ''0'')) bs =
       Ok \<lparr>dm_FromId = ''ab'', dm_Topic = TopicReporter,
           dm_Data = Ptr (PReportReq \<lparr>rq_Epoch = 1, rq_Round = 2, rq_Leader = ''cd'', rq_Observations = ''xyz''\<rparr>),
           dm_Signature = zero_Signature\<rparr>"
  using message_delivery [of "\<lambda>_. ''0''" "PReportReq \<lparr>rq_Epoch = 1, rq_Round = 2, rq_Leader = ''cd'', rq_Observations = ''xyz''\<rparr>"
      "''ab''" "[]" TopicReporter zero_Signature]
  by (simp add: known_payload_def keeps_signature_def)

theorem final_messages_undeliverable_witness:
  "\<exists>bs. rpc_bytes [] (JSONCodec (\<lambda>_. ''0'')) ''ab'' MessageFinalEcho TopicReporter
       (PFinalEcho \<lparr>fe_Epoch = 1, fe_Round = 2, fe_Leader = ''cd''\<rparr>) zero_Signature = Ok bs \<and>
     receive (JSONCodec (\<lambda>_. ''0'')) bs = Err (UnknownMessageType MessageFinalEcho)"
  using final_messages_undeliverable [of "\<lambda>_. ''0''" "PFinalEcho \<lparr>fe_Epoch = 1, fe_Round = 2, fe_Leader = ''cd''\<rparr>"
      "''ab''" "[]" TopicReporter zero_Signature]
  by simp

theorem bare_message_not_received_witness:
  "\<exists>bs. MessageBuilder_Bytes \<lparr>mb_headers = MessageNewEpoch, mb_topic = TopicPacemaker, mb_data = Some ''d'',
           mb_codec = JSONCodec (\<lambda>_. ''0'')\<rparr> = Ok bs \<and>
     receive (JSONCodec (\<lambda>_. ''0'')) bs = Err DecodeFailed"
proof -
  obtain bs where bs: "MessageBuilder_Bytes \<lparr>mb_headers = MessageNewEpoch, mb_topic = TopicPacemaker, mb_data = Some ''d'',
           mb_codec = JSONCodec (\<lambda>_. ''0'')\<rparr> = Ok bs"
    by (simp add: MessageBuilder_Bytes_def MessageBuilder_Build_def Message_Bytes_def JSONCodec_def)
  from bare_message_not_received [OF bs] bs show ?thesis by blast
qed

end
