(* ===== verification/ObservationMap.thy ===== *)
theory ObservationMap
  imports Processor
begin

text \<open>
  \<open>ocr/observation_map.go\<close>, the map from peers to their observations by job, with its JSON form, and
  \<open>utils/common.go\<close>, the comparison of byte strings by hash.

  The leader broadcasts the JSON form of its map twice, and a follower compares the second copy with
  the JSON form of what it decoded from the first. The round trip below is what makes that comparison
  succeed for a correct leader.
\<close>

section \<open>Definitions\<close>

type_synonym JobObservations = "(string, JobObservationResponse list) gomap"
type_synonym ObservationSafeMap = "(string, JobObservations) gomap"

definition Store :: "string \<Rightarrow> JobObservations \<Rightarrow> ObservationSafeMap \<Rightarrow> ObservationSafeMap" where
  "Store key v s = gm_put key v s"

definition Load :: "ObservationSafeMap \<Rightarrow> string \<Rightarrow> JobObservations option" where
  "Load s key = map_of s key"

text \<open>The callback decides whether the iteration goes on.\<close>

fun Iterate ::
  "(string \<Rightarrow> JobObservations \<Rightarrow> 's \<Rightarrow> 's \<times> bool) \<Rightarrow> ObservationSafeMap \<Rightarrow> 's \<Rightarrow> 's" where
  "Iterate cb [] s = s"
| "Iterate cb ((key, v) # o') s =
     (case cb key v s of (s', continue) \<Rightarrow> if continue then Iterate cb o' s' else s')"

definition jobobs_json :: "JobObservations \<Rightarrow> json" where
  "jobobs_json m = JObj (map (\<lambda>(j, rs). (j, enc_slice response_json rs)) (sort_key fst m))"

definition obs_json :: "ObservationSafeMap \<Rightarrow> json" where
  "obs_json s = JObj (map (\<lambda>(p, m). (p, jobobs_json m)) (sort_key fst s))"

text \<open>\<open>MarshalJSON\<close>: the entries are copied to a plain map, whose keys are written in order.\<close>

definition ObservationSafeMap_MarshalJSON :: "ObservationSafeMap \<Rightarrow> bytes" where
  "ObservationSafeMap_MarshalJSON s =
     print_json (obs_json (Iterate (\<lambda>key v tempMap. (gm_put key v tempMap, True)) s []))"

fun dec_gomap :: "(json \<Rightarrow> 'v option) \<Rightarrow> json \<Rightarrow> (string, 'v) gomap option" where
  "dec_gomap d JNull = Some []"
| "dec_gomap d (JObj kvs) = foldO (\<lambda>(k, j) m. map_option (\<lambda>v. gm_put k v m) (d j)) kvs []"
| "dec_gomap d _ = None"

definition json_obs :: "json \<Rightarrow> ObservationSafeMap option" where
  "json_obs = dec_gomap (dec_gomap (dec_slice (decode_struct set_response \<lparr>JobId = [], Response = []\<rparr>)))"

definition ObservationSafeMap_UnmarshalJSON ::
  "bytes \<Rightarrow> ObservationSafeMap \<Rightarrow> ObservationSafeMap option" where
  "ObservationSafeMap_UnmarshalJSON data s =
     (case Option.bind (json_parse data) json_obs of
        None \<Rightarrow> None
      | Some tempMap \<Rightarrow> Some (fold (\<lambda>(key, v). Store key v) tempMap s))"

fun CompareHashes :: "(bytes \<Rightarrow> bytes) \<Rightarrow> bytes list \<Rightarrow> bool" where
  "CompareHashes sha [] = False"
| "CompareHashes sha (d # ds) = list_all (\<lambda>x. sha x = sha d) ds"

subsection \<open>Well-formed maps, their equality and normal form\<close>

definition obs_wf :: "ObservationSafeMap \<Rightarrow> bool" where
  "obs_wf s \<longleftrightarrow> gm_wf s \<and>
     (\<forall>(p, m)\<in>set s. ascii p \<and> gm_wf m \<and> (\<forall>(j, rs)\<in>set m. ascii j \<and> (\<forall>r\<in>set rs. ascii (JobId r))))"

definition obs_norm :: "ObservationSafeMap \<Rightarrow> ObservationSafeMap" where
  "obs_norm s = map (\<lambda>(p, m). (p, sort_key fst m)) (sort_key fst s)"

definition obs_eq :: "ObservationSafeMap \<Rightarrow> ObservationSafeMap \<Rightarrow> bool" where
  "obs_eq s s' \<longleftrightarrow> gm_wf s \<and> gm_wf s' \<and>
     (\<forall>p. rel_option gm_eq (Load s p) (Load s' p))"

section \<open>The interface of a keyed store\<close>

text \<open>
  What the handlers rely on where they store under a key and look it up: the last store under a key
  is what a lookup gives, and the keys stay distinct.
\<close>

locale keyed_store =
  fixes emp :: 's
    and put :: "'k \<Rightarrow> 'v \<Rightarrow> 's \<Rightarrow> 's"
    and get :: "'s \<Rightarrow> 'k \<Rightarrow> 'v option"
    and inv :: "'s \<Rightarrow> bool"
  assumes get_emp: "get emp k = None"
    and get_put: "get (put k v s) k' = (if k' = k then Some v else get s k')"
    and inv_emp: "inv emp"
    and inv_put: "inv s \<Longrightarrow> inv (put k v s)"
begin

lemma get_fold_put:
  "get (fold (\<lambda>(k, v). put k v) kvs s) k =
     (case map_of (rev kvs) k of None \<Rightarrow> get s k | Some v \<Rightarrow> Some v)"
  by (induction kvs rule: rev_induct) (auto simp: get_put)

lemma inv_fold_put: "inv s \<Longrightarrow> inv (fold (\<lambda>(k, v). put k v) kvs s)"
  by (induction kvs arbitrary: s) (auto simp: inv_put)

lemma get_built:
  "distinct (map fst kvs) \<Longrightarrow> get (fold (\<lambda>(k, v). put k v) kvs emp) k = map_of kvs k"
  using map_of_inject_set [of "rev kvs" kvs]
  by (simp add: get_fold_put get_emp rev_map [symmetric] split: option.splits)

end

interpretation obs: keyed_store "[]" Store Load gm_wf
  by unfold_locales (auto simp: Store_def Load_def)

section \<open>Lemmas\<close>

lemma Store_eq: "(\<lambda>(key, v). Store key v) = (\<lambda>(key, v). gm_put key v)"
  by (simp add: fun_eq_iff Store_def)

lemma Iterate_all: "Iterate (\<lambda>k v s. (f k v s, True)) o' s = fold (\<lambda>(k, v) s. f k v s) o' s"
  by (induction o' arbitrary: s) auto

lemma MarshalJSON_eq: "gm_wf s \<Longrightarrow> ObservationSafeMap_MarshalJSON s = print_json (obs_json s)"
  using fold_gm_put_id [of s]
  by (simp add: ObservationSafeMap_MarshalJSON_def Iterate_all)

lemma foldO_dec:
  "(\<And>k v. (k, v) \<in> set m \<Longrightarrow> d (e v) = Some (h v)) \<Longrightarrow>
   foldO (\<lambda>(k, j) m. map_option (\<lambda>v. gm_put k v m) (d j)) (map (\<lambda>(k, v). (k, e v)) m) acc =
     Some (fold (\<lambda>(k, v). gm_put k v) (map (\<lambda>(k, v). (k, h v)) m) acc)"
proof (induction m arbitrary: acc)
  case (Cons kv m)
  obtain k v where kv: "kv = (k, v)" by fastforce
  then have "d (e v) = Some (h v)" using Cons.prems [of k v] by simp
  moreover have "foldO (\<lambda>(k, j) m. map_option (\<lambda>v. gm_put k v m) (d j)) (map (\<lambda>(k, v). (k, e v)) m) a =
     Some (fold (\<lambda>(k, v). gm_put k v) (map (\<lambda>(k, v). (k, h v)) m) a)" for a
    by (rule Cons.IH) (use Cons.prems in auto)
  ultimately show ?case by (simp add: kv)
qed simp

lemma dec_gomap_enc:
  assumes "gm_wf m" and "\<And>k v. (k, v) \<in> set m \<Longrightarrow> d (e v) = Some (h v)"
  shows "dec_gomap d (JObj (map (\<lambda>(k, v). (k, e v)) m)) = Some (map (\<lambda>(k, v). (k, h v)) m)"
proof -
  have "map fst (map (\<lambda>(k, v). (k, h v)) m) = map fst m" by (induction m) auto
  with assms(1) have "gm_wf (map (\<lambda>(k, v). (k, h v)) m)" by (simp only: gm_wf_def)
  then show ?thesis using assms(2) by (simp add: foldO_dec fold_gm_put_id)
qed

lemma jobobs_wire:
  assumes "gm_wf m" and "\<forall>(j, rs)\<in>set m. ascii j \<and> (\<forall>r\<in>set rs. ascii (JobId r))"
  shows "dec_gomap (dec_slice (decode_struct set_response \<lparr>JobId = [], Response = []\<rparr>)) (jobobs_json m) =
           Some (sort_key fst m)"
    and "json_wf (jobobs_json m)"
proof -
  have "dec_slice (decode_struct set_response \<lparr>JobId = [], Response = []\<rparr>) (enc_slice response_json rs) = Some rs"
    for rs by (rule dec_slice_enc_slice) (simp add: response_wire)
  with assms(1) have "dec_gomap (dec_slice (decode_struct set_response \<lparr>JobId = [], Response = []\<rparr>)) (jobobs_json m) =
           Some (map (\<lambda>(k, v). (k, v)) (sort_key fst m))"
    unfolding jobobs_json_def by (intro dec_gomap_enc) (simp_all add: gm_wf_sort_key)
  then show "dec_gomap (dec_slice (decode_struct set_response \<lparr>JobId = [], Response = []\<rparr>)) (jobobs_json m) =
           Some (sort_key fst m)" by simp
  show "json_wf (jobobs_json m)"
    using assms(2) by (fastforce simp: jobobs_json_def intro!: json_wf_enc_slice response_wire)
qed

lemma obs_wire:
  assumes "obs_wf s"
  shows "json_obs (obs_json s) = Some (obs_norm s)" and "json_wf (obs_json s)"
proof -
  have "json_obs (obs_json s) = Some (map (\<lambda>(k, v). (k, sort_key fst v)) (sort_key fst s))"
    unfolding json_obs_def obs_json_def
    by (rule dec_gomap_enc)
      (use assms in \<open>fastforce simp: obs_wf_def gm_wf_sort_key intro!: jobobs_wire\<close>)+
  then show "json_obs (obs_json s) = Some (obs_norm s)" by (simp add: obs_norm_def)
  show "json_wf (obs_json s)"
    using assms by (fastforce simp: obs_json_def obs_wf_def intro!: jobobs_wire)
qed

lemma obs_norm_keys: "map fst (obs_norm s) = map fst (sort_key fst s)"
  by (simp add: obs_norm_def case_prod_beta comp_def)

lemma gm_wf_obs_norm: "gm_wf (obs_norm s) \<longleftrightarrow> gm_wf s"
  using gm_wf_sort_key [of s] by (simp add: gm_wf_def obs_norm_keys)

lemma sort_key_obs_norm: "sort_key fst (obs_norm s) = obs_norm s"
  by (intro sort_key_id_if_sorted) (simp add: obs_norm_keys)

lemma obs_json_norm: "obs_json (obs_norm s) = obs_json s"
proof -
  have "jobobs_json (sort_key fst m) = jobobs_json m" for m
    by (simp add: jobobs_json_def sort_key_id_if_sorted)
  then show ?thesis
    by (simp add: obs_json_def sort_key_obs_norm) (simp add: obs_norm_def case_prod_beta comp_def)
qed

lemma map_of_obs_norm: "gm_wf s \<Longrightarrow> map_of (obs_norm s) p = map_option (sort_key fst) (map_of s p)"
  using gm_eq_sort_key [of s] by (simp add: obs_norm_def gm_eq_def map_of_map)

lemma obs_norm_eq:
  assumes "obs_wf s" shows "obs_eq (obs_norm s) s"
proof -
  have "gm_eq (sort_key fst m) m" if "map_of s p = Some m" for p m
    using assms map_of_SomeD [OF that] by (intro gm_eq_sort_key) (auto simp: obs_wf_def)
  with assms show ?thesis
    by (auto simp: obs_eq_def obs_wf_def gm_wf_obs_norm Load_def map_of_obs_norm option.rel_map
        intro!: option.rel_refl_strong)
qed

lemma gm_eq_sorted_unique: "gm_eq m m' \<Longrightarrow> sort_key fst m = sort_key fst (m' :: ('k::linorder, 'v) gomap)"
  using gm_eq_mset [of m m']
  by (intro sort_key_inj_key_eq) (auto simp: gm_eq_def gm_wf_def dest: eq_key_imp_eq_value intro!: inj_onI)

lemma obs_roundtrip:
  assumes "obs_wf s"
  shows "ObservationSafeMap_UnmarshalJSON (ObservationSafeMap_MarshalJSON s) [] = Some (obs_norm s)"
    and "ObservationSafeMap_MarshalJSON (obs_norm s) = ObservationSafeMap_MarshalJSON s"
proof -
  from assms have wf: "gm_wf s" by (simp add: obs_wf_def)
  then show "ObservationSafeMap_UnmarshalJSON (ObservationSafeMap_MarshalJSON s) [] = Some (obs_norm s)"
    using fold_gm_put_id [of "obs_norm s"] obs_wire [OF assms]
    by (simp add: ObservationSafeMap_UnmarshalJSON_def MarshalJSON_eq json_parse_print Store_eq gm_wf_obs_norm)
  show "ObservationSafeMap_MarshalJSON (obs_norm s) = ObservationSafeMap_MarshalJSON s"
    using wf by (simp add: MarshalJSON_eq gm_wf_obs_norm obs_json_norm)
qed

text \<open>
  C17: A follower that decodes the map a leader broadcast holds the same map: the JSON form decodes
  to the same observations of every peer and job, its own JSON form is byte for byte the leader's,
  and so the comparison of the two copies by hash succeeds whatever the hash function is.
\<close>

theorem observation_map_roundtrip:
  assumes "obs_wf s"
  shows "\<exists>s'. ObservationSafeMap_UnmarshalJSON (ObservationSafeMap_MarshalJSON s) [] = Some s' \<and>
           obs_eq s' s \<and>
           ObservationSafeMap_MarshalJSON s' = ObservationSafeMap_MarshalJSON s \<and>
           CompareHashes sha [ObservationSafeMap_MarshalJSON s, ObservationSafeMap_MarshalJSON s']"
  using obs_roundtrip [OF assms] obs_norm_eq [OF assms] by simp

lemma obs_norm_unique:
  assumes "obs_eq s s'" shows "obs_norm s = obs_norm s'"
proof -
  have "rel_option (=) (map_of (obs_norm s) p) (map_of (obs_norm s') p)" for p
  proof -
    from assms have "rel_option gm_eq (map_of s p) (map_of s' p)" "gm_wf s" "gm_wf s'"
      by (simp_all add: obs_eq_def Load_def)
    then show ?thesis
      by (auto simp: map_of_obs_norm option.rel_map gm_eq_sorted_unique intro: option.rel_mono_strong)
  qed
  with assms have "gm_eq (obs_norm s) (obs_norm s')"
    by (auto simp: gm_eq_def gm_wf_obs_norm obs_eq_def option.rel_eq)
  then show ?thesis using gm_eq_sorted_unique sort_key_obs_norm by metis
qed

text \<open>
  C33: The JSON form is a function of the contents: two maps with the same observations marshal to
  the same bytes, whatever the order in which the runtime ranges over them.
\<close>

theorem marshal_order_independent:
  assumes "obs_eq s s'"
  shows "ObservationSafeMap_MarshalJSON s = ObservationSafeMap_MarshalJSON s'"
proof -
  have "obs_json s = obs_json s'"
    using obs_norm_unique [OF assms] obs_json_norm by metis
  with assms show ?thesis by (simp add: obs_eq_def MarshalJSON_eq)
qed

section \<open>Witnesses\<close>

definition two_peers :: ObservationSafeMap where
  "two_peers = [(''b'', [(''j'', [\<lparr>JobId = ''j'', Response = ''1''\<rparr>])]), (''a'', [])]"

theorem observation_map_roundtrip_witness:
  "\<exists>s'. ObservationSafeMap_UnmarshalJSON (ObservationSafeMap_MarshalJSON two_peers) [] = Some s' \<and>
     obs_eq s' two_peers"
  using observation_map_roundtrip [of two_peers id]
  by (auto simp: two_peers_def obs_wf_def gm_wf_def)

theorem marshal_order_independent_witness:
  "ObservationSafeMap_MarshalJSON two_peers = ObservationSafeMap_MarshalJSON (rev two_peers)"
proof -
  have "obs_eq two_peers (rev two_peers)"
    by (auto simp: two_peers_def obs_eq_def gm_wf_def Load_def gm_eq_def)
  then show ?thesis by (rule marshal_order_independent)
qed

end
