(* ===== verification/LeaderSelection.thy ===== *)
theory LeaderSelection
  imports ObservationMap "HOL-Library.RBT"
begin

text \<open>
  \<open>ocr/leader_selection.go\<close>: the leader of an epoch is the node whose keyed hash is smallest; and the
  retry loop around it, \<open>exponentialBackoff\<close> of \<open>ocr/pacemaker.go\<close>.

  The peers are kept in a balanced search tree of a library outside the repository. Its operations are
  the record \<open>avl_lib\<close>, an argument of the definitions, and the locale \<open>avl_tree\<close> states what the
  library documents of them: \<open>Each\<close> visits every entry once, \<open>Size\<close> counts them, \<open>Get\<close> and \<open>Put\<close> are
  those of a map. HOL's red-black trees, with the order of the keys reversed as the program asks for
  (\<open>avl.New\<close> with \<open>g.Greater\<close>), satisfy it and serve the witnesses.
\<close>

section \<open>Definitions\<close>

record Peer =
  peer_ID :: string
  peer_Addr :: string

definition NewPeer :: "string \<Rightarrow> string \<Rightarrow> Peer" where
  "NewPeer i addr = \<lparr>peer_ID = i, peer_Addr = addr\<rparr>"

record ProtcolPeer =
  pp_ServerID :: string
  pp_Peer :: "Peer option"

record 't avl_lib =
  avl_New :: 't
  avl_Size :: "'t \<Rightarrow> nat"
  avl_Each :: "'t \<Rightarrow> (string \<times> ProtcolPeer) list"
  avl_Get :: "'t \<Rightarrow> string \<Rightarrow> ProtcolPeer option"
  avl_Put :: "string \<Rightarrow> ProtcolPeer \<Rightarrow> 't \<Rightarrow> 't"

definition hashPeer :: "cprims \<Rightarrow> u64 \<Rightarrow> bytes \<Rightarrow> string \<Rightarrow> string" where
  "hashPeer P epoch key peerID = hexEncode (hmac_sha256 P key (peerID @ int_str (sint epoch)))"

definition select_step ::
  "(string \<Rightarrow> string) \<Rightarrow> string \<times> ProtcolPeer \<Rightarrow> ProtcolPeer option \<times> string \<Rightarrow> ProtcolPeer option \<times> string" where
  "select_step h e acc =
     (case (e, acc) of ((_, peer), (selectedPeer, minHash)) \<Rightarrow>
        let peerHash = h (pp_ServerID peer) in
        if selectedPeer = None \<or> peerHash < minHash then (Some peer, peerHash)
        else (selectedPeer, minHash))"

definition findLeader ::
  "cprims \<Rightarrow> 't avl_lib \<Rightarrow> string \<Rightarrow> u64 \<Rightarrow> bytes \<Rightarrow> 't \<Rightarrow> ProtcolPeer option" where
  "findLeader P lib self epoch key peers =
     (if avl_Size lib peers < 1 then None
      else (case fold (select_step (hashPeer P epoch key)) (avl_Each lib peers) (None, []) of
              (selectedPeer, minHash) \<Rightarrow>
                if hashPeer P epoch key self < minHash then Some \<lparr>pp_ServerID = self, pp_Peer = None\<rparr>
                else selectedPeer))"

text \<open>
  The retry loop. The tree may grow between attempts: \<open>peers_at i\<close> is the tree at attempt \<open>i\<close>. The
  result carries the durations slept; \<open>None\<close> is a loop that never returns.
\<close>

definition next_backoff :: "u64 \<Rightarrow> u64 \<Rightarrow> u64" where
  "next_backoff maxBackoff backoff =
     (let b = backoff * 2 in if maxBackoff <s b then maxBackoff else b)"

partial_function (option) backoff_loop ::
  "(nat \<Rightarrow> ProtcolPeer option) \<Rightarrow> u64 \<Rightarrow> nat \<Rightarrow> u64 \<Rightarrow> u64 list \<Rightarrow> (ProtcolPeer \<times> u64 list) option" where
  "backoff_loop leader_at maxBackoff i backoff slept =
     (case leader_at i of
        Some leader \<Rightarrow> Some (leader, slept)
      | None \<Rightarrow> backoff_loop leader_at maxBackoff (Suc i) (next_backoff maxBackoff backoff) (slept @ [backoff]))"

definition exponentialBackoff ::
  "cprims \<Rightarrow> 't avl_lib \<Rightarrow> u64 \<Rightarrow> u64 \<Rightarrow> u64 \<Rightarrow> bytes \<Rightarrow> (nat \<Rightarrow> 't) \<Rightarrow> string \<Rightarrow>
   (ProtcolPeer \<times> u64 list) option" where
  "exponentialBackoff P lib initTicker maxBackoff epoch key peers_at serverID =
     backoff_loop (\<lambda>i. findLeader P lib serverID epoch key (peers_at i)) maxBackoff 0 initTicker []"

definition initTickerTime :: u64 where "initTickerTime = 500000000"
definition max_Backoff :: u64 where "max_Backoff = 10000000000"

definition server_ids :: "'t avl_lib \<Rightarrow> 't \<Rightarrow> string set" where
  "server_ids lib t = (\<lambda>(_, p). pp_ServerID p) ` set (avl_Each lib t)"

section \<open>The interface of the search tree\<close>

locale avl_tree =
  fixes lib :: "'t avl_lib"
    and inv :: "'t \<Rightarrow> bool"
  assumes inv_New: "inv (avl_New lib)"
    and inv_Put: "inv t \<Longrightarrow> inv (avl_Put lib k v t)"
    and Each_New: "avl_Each lib (avl_New lib) = []"
    and Each_distinct: "inv t \<Longrightarrow> gm_wf (avl_Each lib t)"
    and Size_Each: "inv t \<Longrightarrow> avl_Size lib t = length (avl_Each lib t)"
    and Get_Each: "inv t \<Longrightarrow> avl_Get lib t k = map_of (avl_Each lib t) k"
    and Each_Put: "inv t \<Longrightarrow> map_of (avl_Each lib (avl_Put lib k v t)) = (map_of (avl_Each lib t))(k \<mapsto> v)"
begin

lemma Each_Put_set:
  "inv t \<Longrightarrow> (k', v') \<in> set (avl_Each lib (avl_Put lib k v t)) \<longleftrightarrow>
     (if k' = k then v' = v else (k', v') \<in> set (avl_Each lib t))"
  using gm_wf_map_of [OF Each_distinct [OF inv_Put [of t k v]], of k' v']
    gm_wf_map_of [OF Each_distinct [of t], of k' v'] Each_Put [of t k v]
  by auto

lemma Size_Put:
  "inv t \<Longrightarrow> avl_Size lib (avl_Put lib k v t) =
     avl_Size lib t + (if avl_Get lib t k = None then 1 else 0)"
proof -
  assume inv: "inv t"
  have card: "avl_Size lib u = card (fst ` set (avl_Each lib u))" if "inv u" for u
    using that Size_Each Each_distinct distinct_card [of "map fst (avl_Each lib u)"]
    by (simp add: gm_wf_def)
  have "fst ` set (avl_Each lib (avl_Put lib k v t)) = insert k (fst ` set (avl_Each lib t))"
    using Each_Put [OF inv, of k v] by (metis dom_fun_upd dom_map_of_conv_image_fst option.distinct(1))
  then show ?thesis using inv inv_Put [OF inv]
    by (simp add: card Get_Each map_of_eq_None_iff insert_absorb)
qed

end

definition rbt_lib :: "(string, ProtcolPeer) rbt avl_lib" where
  "rbt_lib = \<lparr>avl_New = RBT.empty, avl_Size = (\<lambda>t. length (RBT.entries t)),
     avl_Each = (\<lambda>t. rev (RBT.entries t)), avl_Get = RBT.lookup, avl_Put = RBT.insert\<rparr>"

interpretation rbt: avl_tree rbt_lib "\<lambda>_. True"
proof -
  have rev: "map_of (rev (RBT.entries t)) = RBT.lookup t" for t :: "(string, ProtcolPeer) rbt"
    using map_of_inject_set [of "rev (RBT.entries t)" "RBT.entries t"] RBT.distinct_entries [of t]
    by (simp add: rev_map [symmetric] RBT.map_of_entries)
  have "RBT.entries (RBT.empty :: (string, ProtcolPeer) rbt) = []"
    by (metis RBT.lookup_empty RBT.map_of_entries map_of_eq_empty_iff)
  then show "avl_tree rbt_lib (\<lambda>_. True)"
    by unfold_locales
      (auto simp: rbt_lib_def gm_wf_def rev rev_map [symmetric] RBT.distinct_entries)
qed

section \<open>Lemmas\<close>

lemma select_step_Pair [simp]:
  "select_step h (k, peer) (sel, m) =
     (if sel = None \<or> h (pp_ServerID peer) < m then (Some peer, h (pp_ServerID peer)) else (sel, m))"
  by (simp add: select_step_def Let_def)

text \<open>The loop keeps the peer with the smallest hash seen so far.\<close>

lemma select_fold_Some:
  assumes "fold (select_step h) es (Some p, h (pp_ServerID p)) = (sel', m')"
  shows "\<exists>p'. sel' = Some p' \<and> m' = h (pp_ServerID p') \<and> (p' = p \<or> p' \<in> snd ` set es) \<and>
           (\<forall>q\<in>insert p (snd ` set es). m' \<le> h (pp_ServerID q))"
  using assms
proof (induction es arbitrary: p)
  case (Cons e es)
  obtain k q where e: "e = (k, q)" by fastforce
  let ?p = "if h (pp_ServerID q) < h (pp_ServerID p) then q else p"
  have "fold (select_step h) es (Some ?p, h (pp_ServerID ?p)) = (sel', m')"
    using Cons.prems by (simp add: e split: if_splits)
  from Cons.IH [OF this] show ?case by (auto simp: e split: if_splits)
qed simp

lemma select_fold:
  assumes "fold (select_step h) es (None, []) = (sel, m)" and "es \<noteq> []"
  shows "\<exists>p. sel = Some p \<and> m = h (pp_ServerID p) \<and> p \<in> snd ` set es \<and>
           (\<forall>q\<in>snd ` set es. m \<le> h (pp_ServerID q))"
proof -
  obtain k q es' where es: "es = (k, q) # es'" using assms(2) by (cases es) auto
  have "fold (select_step h) es' (Some q, h (pp_ServerID q)) = (sel, m)"
    using assms(1) by (simp add: es)
  from select_fold_Some [OF this] show ?thesis by (auto simp: es)
qed

context avl_tree
begin

lemma server_ids_eq: "server_ids lib t = pp_ServerID ` snd ` set (avl_Each lib t)"
  by (auto simp: server_ids_def image_image case_prod_beta)

lemma findLeader_None:
  assumes "inv peers"
  shows "findLeader P lib self epoch key peers = None \<longleftrightarrow> avl_Each lib peers = []"
proof (cases "avl_Each lib peers = []")
  case False
  obtain sel m where f: "fold (select_step (hashPeer P epoch key)) (avl_Each lib peers) (None, []) = (sel, m)"
    by fastforce
  from select_fold [OF f False] show ?thesis
    using False f assms by (auto simp: findLeader_def Size_Each not_less_eq_eq length_greater_0_conv)
qed (simp add: findLeader_def Size_Each assms)

lemma findLeader_minimum:
  assumes "inv peers" and "findLeader P lib self epoch key peers = Some l"
  shows "pp_ServerID l \<in> insert self (server_ids lib peers) \<and>
         (\<forall>i\<in>insert self (server_ids lib peers).
            hashPeer P epoch key (pp_ServerID l) \<le> hashPeer P epoch key i)"
proof -
  have ne: "avl_Each lib peers \<noteq> []" using assms findLeader_None [OF assms(1)] by (metis option.distinct(1))
  obtain sel m where f: "fold (select_step (hashPeer P epoch key)) (avl_Each lib peers) (None, []) = (sel, m)"
    by fastforce
  from select_fold [OF f ne] obtain p where p: "sel = Some p" "m = hashPeer P epoch key (pp_ServerID p)"
    "p \<in> snd ` set (avl_Each lib peers)"
    "\<forall>q\<in>snd ` set (avl_Each lib peers). m \<le> hashPeer P epoch key (pp_ServerID q)" by blast
  have l: "l = (if hashPeer P epoch key self < m then \<lparr>pp_ServerID = self, pp_Peer = None\<rparr> else p)"
    using assms(2) by (simp add: findLeader_def f p(1) split: if_splits)
  show ?thesis unfolding server_ids_eq using p l by (auto simp: not_less intro: less_imp_le order.trans)
qed

end

text \<open>
  C21: Leader selection is total and correct: with at least one peer it returns a leader, which is the
  node itself or one of its peers, and whose keyed hash for the epoch is the least of all of them;
  without peers it returns none.
\<close>

theorem leader_minimum:
  assumes "avl_tree lib tinv" and "tinv peers"
  shows "case findLeader P lib self epoch key peers of
           None \<Rightarrow> avl_Each lib peers = []
         | Some l \<Rightarrow> avl_Each lib peers \<noteq> [] \<and> pp_ServerID l \<in> insert self (server_ids lib peers) \<and>
             (\<forall>i\<in>insert self (server_ids lib peers).
                hashPeer P epoch key (pp_ServerID l) \<le> hashPeer P epoch key i)"
  using avl_tree.findLeader_None [OF assms, of P self epoch key]
    avl_tree.findLeader_minimum [OF assms, of P self epoch key]
  by (cases "findLeader P lib self epoch key peers") auto

text \<open>
  C11: Agreement on the leader: two nodes whose views are complete (each one's own identity together
  with its peers' is the same set) and that run the same epoch choose the same leader, whatever the
  shapes of their trees, provided the keyed hash separates the identities.
\<close>

theorem leader_agreement:
  assumes "avl_tree lib tinv" and "tinv ta" and "tinv tb"
    and "insert a (server_ids lib ta) = insert b (server_ids lib tb)"
    and "inj_on (hashPeer P epoch key) (insert a (server_ids lib ta))"
    and "findLeader P lib a epoch key ta = Some la" and "findLeader P lib b epoch key tb = Some lb"
  shows "pp_ServerID la = pp_ServerID lb"
proof -
  note la = avl_tree.findLeader_minimum [OF assms(1,2,6)]
  note lb = avl_tree.findLeader_minimum [OF assms(1,3,7)]
  have "hashPeer P epoch key (pp_ServerID la) = hashPeer P epoch key (pp_ServerID lb)"
    by (rule order.antisym) (use la lb assms(4) in auto)
  moreover have "pp_ServerID la \<in> insert a (server_ids lib ta)" "pp_ServerID lb \<in> insert a (server_ids lib ta)"
    using la lb assms(4) by simp_all
  ultimately show ?thesis by (rule inj_onD [OF assms(5)])
qed

subsection \<open>The retry loop\<close>

lemma unat_next_backoff:
  assumes "unat b \<le> unat m" and "unat m < 2 ^ 62"
  shows "unat (next_backoff m b) = min (2 * unat b) (unat m)"
proof -
  have *: "unat (b * 2) = 2 * unat b"
    using assms by (subst unat_mult_lem [THEN iffD1]) auto
  then have "sint (b * 2) = int (2 * unat b)" "sint m = int (unat m)"
    using assms by (simp_all add: sint_eq_unat)
  then have "m <s b * 2 \<longleftrightarrow> unat m < 2 * unat b"
    unfolding word_sless_alt by (metis of_nat_less_iff)
  then show ?thesis by (simp add: next_backoff_def Let_def * min_def)
qed

definition backoff_at :: "nat \<Rightarrow> u64" where
  "backoff_at i = of_nat (min (500000000 * 2 ^ i) 10000000000)"

lemma next_backoff_at: "next_backoff max_Backoff (backoff_at i) = backoff_at (Suc i)"
proof -
  have u: "unat (backoff_at i) = min (500000000 * 2 ^ i) 10000000000" for i
    by (simp add: backoff_at_def unat_of_nat min_def)
  have "unat (next_backoff max_Backoff (backoff_at i)) = unat (backoff_at (Suc i))"
    by (subst unat_next_backoff) (auto simp: u max_Backoff_def)
  then show ?thesis by (rule word_unat_eq_iff [THEN iffD2])
qed

lemma backoff_loop_first:
  assumes "leader_at k = Some l" and "\<And>i. i < k \<Longrightarrow> leader_at i = None" and "j \<le> k"
  shows "backoff_loop leader_at max_Backoff j (backoff_at j) slept =
           Some (l, slept @ map backoff_at [j..<k])"
  using assms(3)
proof (induction "k - j" arbitrary: j slept)
  case 0
  then show ?case using assms(1) by (subst backoff_loop.simps) simp
next
  case (Suc d)
  then have "j < k" by simp
  with assms(2) have "backoff_loop leader_at max_Backoff j (backoff_at j) slept =
      backoff_loop leader_at max_Backoff (Suc j) (backoff_at (Suc j)) (slept @ [backoff_at j])"
    by (subst backoff_loop.simps) (simp add: next_backoff_at)
  also have "\<dots> = Some (l, (slept @ [backoff_at j]) @ map backoff_at [Suc j..<k])"
    using Suc by (intro Suc.hyps(1)) auto
  finally show ?case using \<open>j < k\<close> by (simp add: upt_conv_Cons)
qed

lemma backoff_loop_returns:
  "backoff_loop leader_at m i b slept = Some r \<Longrightarrow> \<exists>k. leader_at k = Some (fst r)"
  by (rule backoff_loop.raw_induct [where P = "\<lambda>f m i b slept r. \<exists>k. f k = Some (fst r)"])
    (auto split: option.splits)

text \<open>
  C23: Waiting for peers: the retry loop returns exactly when some attempt finds a peer, and then with
  the leader of the first such attempt; before attempt \<open>i\<close> fails over to the next it sleeps
  \<open>500 ms * 2 ^ i\<close>, capped at ten seconds, without overflow.
\<close>

theorem backoff_liveness:
  assumes "avl_tree lib tinv" and "\<And>i. tinv (peers_at i)"
  shows "case exponentialBackoff P lib initTickerTime max_Backoff epoch key peers_at self of
           None \<Rightarrow> (\<forall>i. avl_Each lib (peers_at i) = [])
         | Some (l, slept) \<Rightarrow>
             (\<exists>k. findLeader P lib self epoch key (peers_at k) = Some l \<and>
                (\<forall>i<k. avl_Each lib (peers_at i) = []) \<and>
                map unat slept = map (\<lambda>i. min (500000000 * 2 ^ i) 10000000000) [0..<k])"
proof -
  let ?f = "\<lambda>i. findLeader P lib self epoch key (peers_at i)"
  have init: "initTickerTime = backoff_at 0" by (simp add: initTickerTime_def backoff_at_def)
  have none: "?f i = None \<longleftrightarrow> avl_Each lib (peers_at i) = []" for i
    by (rule avl_tree.findLeader_None [OF assms])
  show ?thesis
  proof (cases "\<exists>k. ?f k \<noteq> None")
    case True
    define k where "k = (LEAST k. ?f k \<noteq> None)"
    from True have "?f k \<noteq> None" unfolding k_def by (rule LeastI_ex)
    then obtain l where l: "?f k = Some l" by blast
    have less: "?f i = None" if "i < k" for i using not_less_Least that unfolding k_def by blast
    have "exponentialBackoff P lib initTickerTime max_Backoff epoch key peers_at self =
        Some (l, map backoff_at [0..<k])"
      unfolding exponentialBackoff_def init using backoff_loop_first [of ?f k l 0 "[]"] l less by simp
    moreover have "map unat (map backoff_at [0..<k]) = map (\<lambda>i. min (500000000 * 2 ^ i) 10000000000) [0..<k]"
      by (simp add: backoff_at_def unat_of_nat min_def)
    ultimately show ?thesis using l less none by auto
  next
    case False
    then have "exponentialBackoff P lib initTickerTime max_Backoff epoch key peers_at self = None"
      unfolding exponentialBackoff_def using backoff_loop_returns [of ?f]
      by (metis not_None_eq)
    with False none show ?thesis by simp
  qed
qed

section \<open>Witnesses\<close>

text \<open>Two nodes \<open>a\<close> and \<open>b\<close> that know each other and a third one.\<close>

definition peer_tree :: "string list \<Rightarrow> (string, ProtcolPeer) rbt" where
  "peer_tree ids =
     fold (\<lambda>i. avl_Put rbt_lib (''net-'' @ i) \<lparr>pp_ServerID = i, pp_Peer = Some (NewPeer (''net-'' @ i) [])\<rparr>)
       ids (avl_New rbt_lib)"

definition witness_key :: PublicKey where
  "witness_key = \<lparr>pk_X = 256 ^ 31, pk_Y = 3\<rparr>"

definition witness_prims :: cprims where
  "witness_prims = single_key_prims witness_key"

lemma server_ids_peer_tree: "server_ids rbt_lib (peer_tree ids) = set ids"
proof -
  have "(k, v) \<in> set (avl_Each rbt_lib (peer_tree ids)) \<longleftrightarrow>
      (\<exists>i\<in>set ids. k = ''net-'' @ i \<and> v = \<lparr>pp_ServerID = i, pp_Peer = Some (NewPeer (''net-'' @ i) [])\<rparr>)" for k v
    by (induction ids rule: rev_induct)
      (auto simp: peer_tree_def rbt.Each_Put_set rbt.Each_New simp del: append_Cons append_Nil)
  then have "set (avl_Each rbt_lib (peer_tree ids)) =
        (\<lambda>i. (''net-'' @ i, \<lparr>pp_ServerID = i, pp_Peer = Some (NewPeer (''net-'' @ i) [])\<rparr>)) ` set ids"
    by (intro set_eqI) auto
  then show ?thesis by (simp add: server_ids_def image_image)
qed

lemma witness_hash: "hashPeer witness_prims 0 key i = hexEncode (i @ ''0'')"
proof -
  have "int_str 0 = ''0''" by code_simp
  then show ?thesis by (simp add: hashPeer_def witness_prims_def single_key_prims_def)
qed

lemma Each_peer_tree: "avl_Each rbt_lib (peer_tree ids) = [] \<longleftrightarrow> ids = []"
  using server_ids_peer_tree [of ids] by (auto simp: server_ids_def)

theorem leader_minimum_witness:
  "\<exists>l. findLeader witness_prims rbt_lib ''c'' 0 ''k'' (peer_tree [''b'', ''a'']) = Some l \<and>
     pp_ServerID l \<in> {''a'', ''b'', ''c''}"
  using leader_minimum [where peers = "peer_tree [''b'', ''a'']" and P = witness_prims and self = "''c''" and epoch = 0
      and key = "''k''", OF rbt.avl_tree_axioms TrueI]
  by (auto simp: server_ids_peer_tree Each_peer_tree split: option.splits)

theorem leader_agreement_witness:
  "\<exists>la lb. findLeader witness_prims rbt_lib ''a'' 0 ''k'' (peer_tree [''b'', ''c'']) = Some la \<and>
     findLeader witness_prims rbt_lib ''b'' 0 ''k'' (peer_tree [''c'', ''a'']) = Some lb \<and>
     pp_ServerID la = pp_ServerID lb"
proof -
  obtain la where la: "findLeader witness_prims rbt_lib ''a'' 0 ''k'' (peer_tree [''b'', ''c'']) = Some la"
    using rbt.findLeader_None [of witness_prims "''a''" 0 "''k''" "peer_tree [''b'', ''c'']"]
    by (fastforce simp: Each_peer_tree)
  obtain lb where lb: "findLeader witness_prims rbt_lib ''b'' 0 ''k'' (peer_tree [''c'', ''a'']) = Some lb"
    using rbt.findLeader_None [of witness_prims "''b''" 0 "''k''" "peer_tree [''c'', ''a'']"]
    by (fastforce simp: Each_peer_tree)
  have "insert ''a'' (server_ids rbt_lib (peer_tree [''b'', ''c''])) =
      insert ''b'' (server_ids rbt_lib (peer_tree [''c'', ''a'']))"
    by (auto simp: server_ids_peer_tree)
  moreover have "inj (hashPeer witness_prims 0 ''k'')" by (simp add: inj_def witness_hash hexEncode_inj)
  then have "inj_on (hashPeer witness_prims 0 ''k'') (insert ''a'' (server_ids rbt_lib (peer_tree [''b'', ''c''])))"
    by (rule inj_on_subset) simp
  ultimately have "pp_ServerID la = pp_ServerID lb"
    by (rule leader_agreement [OF rbt.avl_tree_axioms TrueI TrueI _ _ la lb])
  with la lb show ?thesis by blast
qed

theorem backoff_liveness_witness:
  "\<exists>l slept. exponentialBackoff witness_prims rbt_lib initTickerTime max_Backoff 0 ''k''
       (\<lambda>i. if i < 3 then peer_tree [] else peer_tree [''a'']) ''b'' = Some (l, slept)"
  using backoff_liveness [where lib = rbt_lib and tinv = "\<lambda>_. True" and P = witness_prims and epoch = 0
      and key = "''k''" and self = "''b''" and peers_at = "\<lambda>i. if i < 3 then peer_tree [] else peer_tree [''a'']",
      OF rbt.avl_tree_axioms TrueI]
  by (auto simp: Each_peer_tree split: option.splits if_splits dest: spec [of _ 3])

end
