(* ===== verification/FinalReport.thy ===== *)
theory FinalReport
  imports LeaderSelection
begin

text \<open>
  \<open>ocr/report.go\<close> and \<open>assembleFinalReport\<close> of \<open>ocr/leader.go\<close>: the leader counts, per job, the
  reports whose value has the same hash, and takes for each job a value with at least \<open>f + 1\<close> of them.

  Go ranges over maps in an arbitrary order, which decides between several hashes with enough reports
  and the order of the signatories. The two range loops at the end take their orders \<open>rj\<close> and \<open>rh\<close> as
  arguments; the theorems hold for every order. The counters are natural numbers: they are bounded by
  the length of a slice in memory, far below the range of \<open>int\<close>.
\<close>

section \<open>Definitions\<close>

record Report =
  rep_from :: string
  rep_reports :: JobReports
  rep_sig :: Signature

definition zero_Report :: Report where
  "zero_Report = \<lparr>rep_from = [], rep_reports = [], rep_sig = zero_Signature\<rparr>"

record tally =
  jobHashCount :: "(string, (bytes, nat) gomap) gomap"
  jobFinalReports :: "(string, (bytes, JobReports) gomap) gomap"
  hashSignatories :: "(bytes, Signatories list) gomap"

text \<open>One iteration of the inner loop: \<open>H\<close> marshals and hashes a response, \<open>None\<close> when it cannot be
  marshalled (\<open>continue\<close>).\<close>

definition response_hash :: "(bytes \<Rightarrow> bytes) \<Rightarrow> (float64 \<Rightarrow> string) \<Rightarrow> goval \<Rightarrow> bytes option" where
  "response_hash sha ff response = map_option sha (jmarshal ff response)"

definition tally_response ::
  "(goval \<Rightarrow> bytes option) \<Rightarrow> Report \<Rightarrow> string \<times> goval \<Rightarrow> tally \<Rightarrow> tally" where
  "tally_response H report e t =
     (case e of (jobID, response) \<Rightarrow>
        case H response of
          None \<Rightarrow> t
        | Some hash \<Rightarrow>
            (let counts = gm_get0 [] (jobHashCount t) jobID;
                 finals = gm_get0 [] (jobFinalReports t) jobID;
                 signatory = \<lparr>sg_Sign = rep_sig report, sg_ID = rep_from report\<rparr>
             in t\<lparr>jobHashCount := gm_put jobID (gm_put hash (gm_get0 0 counts hash + 1) counts) (jobHashCount t),
                  jobFinalReports := gm_put jobID (gm_put hash (rep_reports report) finals) (jobFinalReports t),
                  hashSignatories :=
                    gm_put hash (gm_get0 [] (hashSignatories t) hash @ [signatory]) (hashSignatories t)\<rparr>))"

definition tally_reports :: "(goval \<Rightarrow> bytes option) \<Rightarrow> Report list \<Rightarrow> tally" where
  "tally_reports H reports =
     fold (\<lambda>report. fold (tally_response H report) (rep_reports report)) reports
       \<lparr>jobHashCount = [], jobFinalReports = [], hashSignatories = []\<rparr>"

text \<open>One iteration of the loop over the jobs: the first hash with enough reports decides.\<close>

definition decide_job ::
  "((bytes \<times> nat) list \<Rightarrow> (bytes \<times> nat) list) \<Rightarrow> nat \<Rightarrow> tally \<Rightarrow> string \<times> (bytes, nat) gomap \<Rightarrow>
   JobReports \<times> Signatories list \<Rightarrow> JobReports \<times> Signatories list" where
  "decide_job rh threshold t e acc =
     (case (e, acc) of ((jobID, hashCounts), (finalJobReports, finalSignatories)) \<Rightarrow>
        case List.find (\<lambda>(hash, cnt). threshold \<le> cnt) (rh hashCounts) of
          None \<Rightarrow> (finalJobReports, finalSignatories)
        | Some (hash, cnt) \<Rightarrow>
            (let v = gm_get0 VNil (gm_get0 [] (gm_get0 [] (jobFinalReports t) jobID) hash) jobID;
                 signatories = gm_get0 [] (hashSignatories t) hash
             in (gm_put jobID v finalJobReports,
                 if threshold \<le> length signatories then finalSignatories @ take threshold signatories
                 else finalSignatories)))"

text \<open>
  \<open>threshold := int(f) + 1\<close>. A negative threshold, which needs \<open>f\<close> of at least \<open>2 ^ 63 - 1\<close>, makes
  the slice expression \<open>signatories[:threshold]\<close> panic at the first job.
\<close>

definition assembleFinalReport ::
  "((string \<times> (bytes, nat) gomap) list \<Rightarrow> (string \<times> (bytes, nat) gomap) list) \<Rightarrow>
   ((bytes \<times> nat) list \<Rightarrow> (bytes \<times> nat) list) \<Rightarrow> (goval \<Rightarrow> bytes option) \<Rightarrow> u64 \<Rightarrow> Report list \<Rightarrow>
   (unit, FinalReport option) res" where
  "assembleFinalReport rj rh H f reports =
     (let t = tally_reports H reports; threshold = sint (f + 1) in
      if threshold < 0 \<and> jobHashCount t \<noteq> [] then Panicked SliceBounds
      else (case fold (decide_job rh (nat threshold) t) (rj (jobHashCount t)) ([], []) of
              (finalJobReports, finalSignatories) \<Rightarrow>
                if finalJobReports = [] \<or> int (length finalSignatories) < threshold then Ok None
                else Ok (Some \<lparr>fr_Report = finalJobReports, fr_Signatories = finalSignatories\<rparr>)))"

text \<open>
  The specification. A report votes for a value of a job by its hash; \<open>range_orders\<close> says that the two
  orders are orders of the same entries.
\<close>

definition votes_for :: "(goval \<Rightarrow> bytes option) \<Rightarrow> Report list \<Rightarrow> string \<Rightarrow> bytes \<Rightarrow> Report list" where
  "votes_for H reports j h =
     filter (\<lambda>r. case map_of (rep_reports r) j of None \<Rightarrow> False | Some v \<Rightarrow> H v = Some h) reports"

definition range_orders ::
  "((string \<times> (bytes, nat) gomap) list \<Rightarrow> (string \<times> (bytes, nat) gomap) list) \<Rightarrow>
   ((bytes \<times> nat) list \<Rightarrow> (bytes \<times> nat) list) \<Rightarrow> bool" where
  "range_orders rj rh \<longleftrightarrow> (\<forall>m. mset (rj m) = mset m) \<and> (\<forall>m. mset (rh m) = mset m)"

section \<open>Lemmas\<close>

subsection \<open>The counters\<close>

definition entries_of :: "Report list \<Rightarrow> (Report \<times> string \<times> goval) list" where
  "entries_of reports = concat (map (\<lambda>r. map (Pair r) (rep_reports r)) reports)"

lemma tally_reports_entries:
  "tally_reports H reports =
     fold (\<lambda>(r, e). tally_response H r e) (entries_of reports)
       \<lparr>jobHashCount = [], jobFinalReports = [], hashSignatories = []\<rparr>"
proof -
  have "fold (\<lambda>(r, e). tally_response H r e) (map (Pair r) es) t = fold (tally_response H r) es t" for r es t
    by (induction es arbitrary: t) auto
  then have "fold (\<lambda>report. fold (tally_response H report) (rep_reports report)) reports t =
      fold (\<lambda>(r, e). tally_response H r e) (entries_of reports) t" for t
    by (induction reports arbitrary: t) (auto simp: entries_of_def)
  then show ?thesis by (simp add: tally_reports_def)
qed

text \<open>What the three maps hold after a list of entries.\<close>

definition hits :: "(goval \<Rightarrow> bytes option) \<Rightarrow> (Report \<times> string \<times> goval) list \<Rightarrow> string \<Rightarrow> bytes \<Rightarrow> (Report \<times> string \<times> goval) list" where
  "hits H es j h = filter (\<lambda>(r, j', v). j' = j \<and> H v = Some h) es"

definition tally_ok :: "(goval \<Rightarrow> bytes option) \<Rightarrow> (Report \<times> string \<times> goval) list \<Rightarrow> tally \<Rightarrow> bool" where
  "tally_ok H es t \<longleftrightarrow>
     gm_wf (jobHashCount t) \<and> (\<forall>(j, m)\<in>set (jobHashCount t). gm_wf m) \<and>
     (\<forall>j h. map_of (gm_get0 [] (jobHashCount t) j) h =
        (if hits H es j h = [] then None else Some (length (hits H es j h)))) \<and>
     (\<forall>j h. map_of (gm_get0 [] (jobFinalReports t) j) h =
        (if hits H es j h = [] then None else Some (rep_reports (fst (last (hits H es j h)))))) \<and>
     (\<forall>h. gm_get0 [] (hashSignatories t) h =
        map (\<lambda>(r, _). \<lparr>sg_Sign = rep_sig r, sg_ID = rep_from r\<rparr>) (filter (\<lambda>(r, j, v). H v = Some h) es))"

lemma tally_ok_step:
  assumes "tally_ok H es t" shows "tally_ok H (es @ [(r, j, v)]) (tally_response H r (j, v) t)"
proof (cases "H v")
  case None
  then show ?thesis using assms by (auto simp: tally_response_def tally_ok_def hits_def)
next
  case (Some h)
  have hits: "hits H (es @ [(r, j, v)]) j' h' =
      (if j' = j \<and> h' = h then hits H es j h @ [(r, j, v)] else hits H es j' h')" for j' h'
    by (auto simp: hits_def Some)
  have wf: "(k, m) \<in> set (jobHashCount t) \<Longrightarrow> gm_wf m" for k m
    using assms by (auto simp: tally_ok_def)
  then have "gm_wf (gm_get0 [] (jobHashCount t) j)" by (intro gm_get0_in [of gm_wf]) simp_all
  then have put: "gm_wf (gm_put h n (gm_get0 [] (jobHashCount t) j))" for n by simp
  have "gm_wf m" if "(k, m) \<in> set (jobHashCount (tally_response H r (j, v) t))" for k m
  proof -
    from that have "(k, m) \<in> set (gm_put j (gm_put h (gm_get0 0 (gm_get0 [] (jobHashCount t) j) h + 1)
        (gm_get0 [] (jobHashCount t) j)) (jobHashCount t))"
      by (simp add: tally_response_def Some Let_def)
    then consider "m = gm_put h (gm_get0 0 (gm_get0 [] (jobHashCount t) j) h + 1) (gm_get0 [] (jobHashCount t) j)"
      | "(k, m) \<in> set (jobHashCount t)"
      using set_gm_put_subset by fastforce
    then show ?thesis by cases (simp_all add: put wf)
  qed
  then have "\<forall>(k, m)\<in>set (jobHashCount (tally_response H r (j, v) t)). gm_wf m" by blast
  moreover have "gm_wf (jobHashCount (tally_response H r (j, v) t))"
    using assms by (simp add: tally_ok_def tally_response_def Some Let_def)
  moreover have cnt: "map_of (gm_get0 [] (jobHashCount t) j') h' =
      (if hits H es j' h' = [] then None else Some (length (hits H es j' h')))" for j' h'
    using assms by (simp add: tally_ok_def)
  then have "map_of (gm_get0 [] (jobHashCount (tally_response H r (j, v) t)) j') h' =
      (if hits H (es @ [(r, j, v)]) j' h' = [] then None else Some (length (hits H (es @ [(r, j, v)]) j' h')))"
    for j' h'
    by (simp add: tally_response_def Some Let_def hits gm_get0_def [of 0])
  moreover have "map_of (gm_get0 [] (jobFinalReports t) j') h' =
      (if hits H es j' h' = [] then None else Some (rep_reports (fst (last (hits H es j' h')))))" for j' h'
    using assms by (simp add: tally_ok_def)
  then have "map_of (gm_get0 [] (jobFinalReports (tally_response H r (j, v) t)) j') h' =
      (if hits H (es @ [(r, j, v)]) j' h' = [] then None
       else Some (rep_reports (fst (last (hits H (es @ [(r, j, v)]) j' h')))))" for j' h'
    by (simp add: tally_response_def Some Let_def hits)
  moreover have "gm_get0 [] (hashSignatories (tally_response H r (j, v) t)) h' =
      map (\<lambda>(r, _). \<lparr>sg_Sign = rep_sig r, sg_ID = rep_from r\<rparr>)
        (filter (\<lambda>(r, j, v). H v = Some h') (es @ [(r, j, v)]))" for h'
    using assms by (simp add: tally_ok_def tally_response_def Some Let_def)
  ultimately show ?thesis unfolding tally_ok_def by blast
qed

lemma tally_ok_reports: "tally_ok H (entries_of reports) (tally_reports H reports)"
proof -
  have "tally_ok H es (fold (\<lambda>(r, e). tally_response H r e) es
      \<lparr>jobHashCount = [], jobFinalReports = [], hashSignatories = []\<rparr>)" for es
  proof (induction es rule: rev_induct)
    case Nil
    then show ?case by (simp add: tally_ok_def hits_def)
  next
    case (snoc x es)
    then show ?case by (cases x) (simp add: tally_ok_step)
  qed
  then show ?thesis by (simp add: tally_reports_entries)
qed

text \<open>Each well-formed report contributes at most one entry for a job.\<close>

lemma filter_gm_key:
  "gm_wf m \<Longrightarrow> filter (\<lambda>(j', v). j' = j \<and> P v) m =
     (case map_of m j of None \<Rightarrow> [] | Some v \<Rightarrow> if P v then [(j, v)] else [])"
proof (induction m)
  case (Cons e m)
  then show ?case by (cases e) (force simp: gm_wf_def filter_empty_conv map_of_eq_None_iff split: option.splits)
qed simp

lemma hits_votes:
  assumes "\<forall>r\<in>set reports. gm_wf (rep_reports r)"
  shows "hits H (entries_of reports) j h =
           map (\<lambda>r. (r, j, the (map_of (rep_reports r) j))) (votes_for H reports j h)"
  using assms
proof (induction reports)
  case (Cons r reports)
  have "hits H (entries_of (r # reports)) j h =
      map (Pair r) (filter (\<lambda>(j', v). j' = j \<and> H v = Some h) (rep_reports r)) @ hits H (entries_of reports) j h"
    by (simp add: entries_of_def hits_def filter_map comp_def case_prod_unfold)
  with Cons show ?case by (auto simp: votes_for_def filter_gm_key split: option.splits)
qed (simp_all add: entries_of_def hits_def votes_for_def)

lemma count_votes:
  assumes "\<forall>r\<in>set reports. gm_wf (rep_reports r)"
  shows "map_of (gm_get0 [] (jobHashCount (tally_reports H reports)) j) h =
           (if votes_for H reports j h = [] then None else Some (length (votes_for H reports j h)))"
  using tally_ok_reports [of H reports] by (simp add: tally_ok_def hits_votes [OF assms])

lemma final_value:
  assumes "\<forall>r\<in>set reports. gm_wf (rep_reports r)" and "votes_for H reports j h \<noteq> []"
  shows "\<exists>r\<in>set (votes_for H reports j h). map_of (rep_reports r) j =
           Some (gm_get0 VNil (gm_get0 [] (gm_get0 [] (jobFinalReports (tally_reports H reports)) j) h) j)"
proof -
  let ?r = "last (votes_for H reports j h)"
  have r: "?r \<in> set (votes_for H reports j h)" using assms(2) by simp
  then obtain v where "map_of (rep_reports ?r) j = Some v"
    by (auto simp: votes_for_def simp del: last_in_set split: option.splits)
  moreover have "map_of (gm_get0 [] (jobFinalReports (tally_reports H reports)) j) h = Some (rep_reports ?r)"
    using tally_ok_reports [of H reports] assms(2)
    by (simp add: tally_ok_def hits_votes [OF assms(1)] last_map)
  ultimately show ?thesis using r by (auto simp: gm_get0_def [of "[]" _ h] gm_get0_def [of VNil])
qed

lemma votes_value:
  "r \<in> set (votes_for H reports j h) \<Longrightarrow> map_of (rep_reports r) j = Some v \<Longrightarrow> r \<in> set reports \<and> H v = Some h"
  by (simp add: votes_for_def)

lemma enough_signatories:
  assumes "\<forall>r\<in>set reports. gm_wf (rep_reports r)"
  shows "length (votes_for H reports j h) \<le> length (gm_get0 [] (hashSignatories (tally_reports H reports)) h)"
proof -
  have "length (hits H es j h) \<le> length (filter (\<lambda>(r, j, v). H v = Some h) es)" for es
    by (induction es) (auto simp: hits_def)
  from this [of "entries_of reports"] show ?thesis
    using tally_ok_reports [of H reports] by (simp add: tally_ok_def hits_votes [OF assms])
qed

lemma signatories_senders:
  "s \<in> set (gm_get0 [] (hashSignatories (tally_reports H reports)) h) \<Longrightarrow>
   \<exists>r\<in>set reports. s = \<lparr>sg_Sign = rep_sig r, sg_ID = rep_from r\<rparr>"
  using tally_ok_reports [of H reports] by (auto simp: tally_ok_def entries_of_def)

subsection \<open>The decision\<close>

definition choice :: "((bytes \<times> nat) list \<Rightarrow> (bytes \<times> nat) list) \<Rightarrow> nat \<Rightarrow> (bytes, nat) gomap \<Rightarrow> bytes option" where
  "choice rh k m = map_option fst (List.find (\<lambda>(hash, cnt). k \<le> cnt) (rh m))"

lemma choice_Some:
  "mset (rh m) = mset m \<Longrightarrow> choice rh k m = Some h \<Longrightarrow> \<exists>c. (h, c) \<in> set m \<and> k \<le> c"
  by (auto simp: choice_def find_Some_iff dest!: mset_eq_setD) (metis nth_mem prod.collapse)

lemma choice_None:
  "mset (rh m) = mset m \<Longrightarrow> choice rh k m = None \<Longrightarrow> (h, c) \<in> set m \<Longrightarrow> c < k"
  by (auto simp: choice_def find_None_iff not_le dest!: mset_eq_setD)

lemma decide_job_choice:
  "decide_job rh k t (j, m) (fr, sg) =
     (case choice rh k m of
        None \<Rightarrow> (fr, sg)
      | Some h \<Rightarrow>
          (gm_put j (gm_get0 VNil (gm_get0 [] (gm_get0 [] (jobFinalReports t) j) h) j) fr,
           if k \<le> length (gm_get0 [] (hashSignatories t) h)
           then sg @ take k (gm_get0 [] (hashSignatories t) h) else sg))"
  by (auto simp: decide_job_def choice_def Let_def split: option.splits)

lemma decide_fold:
  assumes "gm_wf ms" and "fold (decide_job rh k t) ms (fr, sg) = (fr', sg')"
    and "\<And>j m h. (j, m) \<in> set ms \<Longrightarrow> choice rh k m = Some h \<Longrightarrow> k \<le> length (gm_get0 [] (hashSignatories t) h)"
  shows "map_of fr' j =
           (case Option.bind (map_of ms j) (choice rh k) of
              None \<Rightarrow> map_of fr j
            | Some h \<Rightarrow> Some (gm_get0 VNil (gm_get0 [] (gm_get0 [] (jobFinalReports t) j) h) j)) \<and>
         length sg' = length sg + k * length (filter (\<lambda>(j, m). choice rh k m \<noteq> None) ms) \<and>
         set sg' \<subseteq> set sg \<union> (\<Union>h. set (gm_get0 [] (hashSignatories t) h))"
  using assms
proof (induction ms arbitrary: fr sg)
  case (Cons e ms)
  obtain j0 m where e: "e = (j0, m)" by fastforce
  obtain fr1 sg1 where d: "decide_job rh k t e (fr, sg) = (fr1, sg1)" by fastforce
  have ih: "map_of fr' j =
           (case Option.bind (map_of ms j) (choice rh k) of
              None \<Rightarrow> map_of fr1 j
            | Some h \<Rightarrow> Some (gm_get0 VNil (gm_get0 [] (gm_get0 [] (jobFinalReports t) j) h) j)) \<and>
         length sg' = length sg1 + k * length (filter (\<lambda>(j, m). choice rh k m \<noteq> None) ms) \<and>
         set sg' \<subseteq> set sg1 \<union> (\<Union>h. set (gm_get0 [] (hashSignatories t) h))"
    using Cons.prems by (intro Cons.IH) (auto simp: gm_wf_def d)
  have new: "map_of ms j0 = None" using Cons.prems(1) by (simp add: e gm_wf_def map_of_eq_None_iff)
  show ?case
  proof (cases "choice rh k m")
    case None
    with d ih new show ?thesis by (auto simp: e decide_job_choice)
  next
    case (Some h)
    with Cons.prems(3) have "k \<le> length (gm_get0 [] (hashSignatories t) h)" by (auto simp: e)
    with d Some have 1: "fr1 = gm_put j0 (gm_get0 VNil (gm_get0 [] (gm_get0 [] (jobFinalReports t) j0) h) j0) fr"
      "sg1 = sg @ take k (gm_get0 [] (hashSignatories t) h)" "length sg1 = length sg + k"
      by (auto simp: e decide_job_choice)
    then have "set sg1 \<subseteq> set sg \<union> (\<Union>h. set (gm_get0 [] (hashSignatories t) h))"
      by (auto dest: in_set_takeD)
    with ih 1 new Some show ?thesis by (auto simp: e split: option.splits)
  qed
qed simp

text \<open>The whole function, for thresholds that fit an \<open>int\<close>.\<close>

lemma sint_threshold:
  assumes "unat f + 1 < 2 ^ 63" shows "sint (f + 1 :: u64) = int (unat f + 1)"
proof -
  have "unat (f + 1) = unat f + 1" using assms by (subst unat_add_lem [THEN iffD1]) auto
  with assms show ?thesis using sint_eq_unat [of "f + 1"] by simp
qed

lemma map_of_perm: "gm_wf m \<Longrightarrow> mset m' = mset m \<Longrightarrow> gm_wf m' \<and> map_of m' = map_of m"
  using mset_gm_eq [of m m'] by (auto simp: gm_eq_def)

text \<open>The counters in the order the outer loop ranges over them, and the hash it picks for a job.\<close>

definition ranged :: "((string \<times> (bytes, nat) gomap) list \<Rightarrow> (string \<times> (bytes, nat) gomap) list) \<Rightarrow>
    (goval \<Rightarrow> bytes option) \<Rightarrow> Report list \<Rightarrow> (string, (bytes, nat) gomap) gomap" where
  "ranged rj H reports = rj (jobHashCount (tally_reports H reports))"

definition picked :: "((string \<times> (bytes, nat) gomap) list \<Rightarrow> (string \<times> (bytes, nat) gomap) list) \<Rightarrow>
    ((bytes \<times> nat) list \<Rightarrow> (bytes \<times> nat) list) \<Rightarrow> (goval \<Rightarrow> bytes option) \<Rightarrow> nat \<Rightarrow> Report list \<Rightarrow> string \<Rightarrow> bytes option" where
  "picked rj rh H k reports j = Option.bind (map_of (ranged rj H reports) j) (choice rh k)"

lemma ranged_counts:
  assumes "\<forall>r\<in>set reports. gm_wf (rep_reports r)" and "range_orders rj rh"
  shows "gm_wf (ranged rj H reports)" "map_of (ranged rj H reports) = map_of (jobHashCount (tally_reports H reports))"
    and "(j, m) \<in> set (ranged rj H reports) \<Longrightarrow> (h, c) \<in> set m \<Longrightarrow> length (votes_for H reports j h) = c"
proof -
  let ?t = "tally_reports H reports"
  have hc: "gm_wf (jobHashCount ?t)" and hcm: "(j, m) \<in> set (jobHashCount ?t) \<Longrightarrow> gm_wf m" for j m
    using tally_ok_reports [of H reports] by (auto simp: tally_ok_def)
  have "mset (ranged rj H reports) = mset (jobHashCount ?t)" using assms(2) by (simp add: range_orders_def ranged_def)
  from map_of_perm [OF hc this] mset_eq_setD [OF this]
  show "gm_wf (ranged rj H reports)" "map_of (ranged rj H reports) = map_of (jobHashCount ?t)"
    and "(j, m) \<in> set (ranged rj H reports) \<Longrightarrow> (h, c) \<in> set m \<Longrightarrow> length (votes_for H reports j h) = c"
    using hc hcm [of j m] count_votes [OF assms(1), of H j h] by (auto simp: gm_get0_def gm_wf_map_of split: if_splits)
qed

lemma picked_Some:
  assumes "\<forall>r\<in>set reports. gm_wf (rep_reports r)" and "range_orders rj rh" and "picked rj rh H k reports j = Some h"
  obtains m where "(j, m) \<in> set (ranged rj H reports)" "choice rh k m = Some h" "k \<le> length (votes_for H reports j h)"
proof -
  obtain m where m: "(j, m) \<in> set (ranged rj H reports)" "choice rh k m = Some h"
    using assms(3) by (auto simp: picked_def bind_eq_Some_conv dest: map_of_SomeD)
  have "mset (rh m) = mset m" using assms(2) by (simp add: range_orders_def)
  from choice_Some [OF this m(2)] ranged_counts(3) [OF assms(1,2) m(1)] m that show thesis by metis
qed

lemma picked_None:
  assumes "\<forall>r\<in>set reports. gm_wf (rep_reports r)" and "range_orders rj rh"
    and "picked rj rh H k reports j = None" and "0 < k"
  shows "length (votes_for H reports j h) < k"
proof (cases "votes_for H reports j h = []")
  case False
  with count_votes [OF assms(1), of H j h] obtain m where m: "map_of (ranged rj H reports) j = Some m"
      "map_of m h = Some (length (votes_for H reports j h))"
    by (auto simp: gm_get0_def ranged_counts(2) [OF assms(1,2)] split: option.splits)
  have "mset (rh m) = mset m" using assms(2) by (simp add: range_orders_def)
  moreover have "choice rh k m = None" using assms(3) m(1) by (simp add: picked_def)
  ultimately show ?thesis using choice_None map_of_SomeD [OF m(2)] by metis
qed (use assms(4) in simp)

lemma decided:
  assumes "\<forall>r\<in>set reports. gm_wf (rep_reports r)" and "range_orders rj rh"
    and "fold (decide_job rh k (tally_reports H reports)) (ranged rj H reports) ([], []) = (fr, sg)"
  shows "map_of fr j = map_option (\<lambda>h. gm_get0 VNil (gm_get0 [] (gm_get0 [] (jobFinalReports (tally_reports H reports)) j) h) j)
           (picked rj rh H k reports j)"
    and "fr \<noteq> [] \<Longrightarrow> k \<le> length sg"
    and "s \<in> set sg \<Longrightarrow> \<exists>r\<in>set reports. s = \<lparr>sg_Sign = rep_sig r, sg_ID = rep_from r\<rparr>"
proof -
  let ?t = "tally_reports H reports" and ?ms = "ranged rj H reports"
  have rh: "mset (rh m) = mset m" for m using assms(2) by (simp add: range_orders_def)
  have enough: "k \<le> length (gm_get0 [] (hashSignatories ?t) h)"
    if "(j, m) \<in> set ?ms" "choice rh k m = Some h" for j m h
    using choice_Some [OF rh that(2)] ranged_counts(3) [OF assms(1,2) that(1)] enough_signatories [OF assms(1), of H j h]
    by fastforce
  have d: "map_of fr j =
           (case picked rj rh H k reports j of
              None \<Rightarrow> None
            | Some h \<Rightarrow> Some (gm_get0 VNil (gm_get0 [] (gm_get0 [] (jobFinalReports ?t) j) h) j)) \<and>
         length sg = k * length (filter (\<lambda>(j, m). choice rh k m \<noteq> None) ?ms) \<and>
         set sg \<subseteq> (\<Union>h. set (gm_get0 [] (hashSignatories ?t) h))" for j
    using decide_fold [OF ranged_counts(1) [OF assms(1,2)] assms(3), of j] enough
    by (simp add: picked_def cong: option.case_cong)
  have fr: "map_of fr j = map_option (\<lambda>h. gm_get0 VNil (gm_get0 [] (gm_get0 [] (jobFinalReports ?t) j) h) j)
      (picked rj rh H k reports j)" for j
    using d [of j] by (auto split: option.splits)
  then show "map_of fr j = map_option (\<lambda>h. gm_get0 VNil (gm_get0 [] (gm_get0 [] (jobFinalReports ?t) j) h) j)
      (picked rj rh H k reports j)" .
  show "k \<le> length sg" if "fr \<noteq> []"
  proof -
    from that obtain j v where "map_of fr j = Some v" by (metis map_of_eq_empty_iff not_None_eq)
    then obtain h where "picked rj rh H k reports j = Some h" using fr [of j] by auto
    then obtain m where "(j, m) \<in> set ?ms" "choice rh k m = Some h" by (rule picked_Some [OF assms(1,2)])
    then have "(j, m) \<in> set (filter (\<lambda>(j, m). choice rh k m \<noteq> None) ?ms)" by simp
    then have "1 \<le> length (filter (\<lambda>(j, m). choice rh k m \<noteq> None) ?ms)"
      by (metis One_nat_def Suc_leI length_pos_if_in_set)
    then have "k * 1 \<le> k * length (filter (\<lambda>(j, m). choice rh k m \<noteq> None) ?ms)" by (rule mult_le_mono2)
    with d show ?thesis by simp
  qed
  show "s \<in> set sg \<Longrightarrow> \<exists>r\<in>set reports. s = \<lparr>sg_Sign = rep_sig r, sg_ID = rep_from r\<rparr>"
    using d signatories_senders by fastforce
qed

lemma assemble_cases:
  assumes wf: "\<forall>r\<in>set reports. gm_wf (rep_reports r)" and ord: "range_orders rj rh"
    and f: "unat f + 1 < 2 ^ 63"
  obtains fr sg where
    "assembleFinalReport rj rh H f reports =
       Ok (if fr = [] then None else Some \<lparr>fr_Report = fr, fr_Signatories = sg\<rparr>)"
    "\<forall>j. map_of fr j = None \<longleftrightarrow> (\<forall>h. length (votes_for H reports j h) < unat f + 1)"
    "\<forall>j v. map_of fr j = Some v \<longrightarrow>
       (\<exists>h. unat f + 1 \<le> length (votes_for H reports j h) \<and>
         (\<exists>r\<in>set (votes_for H reports j h). map_of (rep_reports r) j = Some v))"
    "fr \<noteq> [] \<longrightarrow> unat f + 1 \<le> length sg"
    "\<forall>s\<in>set sg. \<exists>r\<in>set reports. s = \<lparr>sg_Sign = rep_sig r, sg_ID = rep_from r\<rparr>"
proof -
  let ?k = "unat f + 1"
  obtain fr sg where fold: "fold (decide_job rh ?k (tally_reports H reports)) (ranged rj H reports) ([], []) = (fr, sg)"
    by fastforce
  note d = decided [OF wf ord fold]
  have nn: "(int ?k < 0) = False" by (meson of_nat_less_0_iff)
  show thesis
  proof
    show "assembleFinalReport rj rh H f reports =
       Ok (if fr = [] then None else Some \<lparr>fr_Report = fr, fr_Signatories = sg\<rparr>)"
      unfolding assembleFinalReport_def Let_def sint_threshold [OF f] nat_int fold [unfolded ranged_def] prod.case
        of_nat_less_iff nn
      using d(2) by auto
    show "\<forall>j. map_of fr j = None \<longleftrightarrow> (\<forall>h. length (votes_for H reports j h) < ?k)"
    proof
      fix j
      show "map_of fr j = None \<longleftrightarrow> (\<forall>h. length (votes_for H reports j h) < ?k)"
      proof (cases "picked rj rh H ?k reports j")
        case None
        with d(1) [of j] picked_None [OF wf ord None] show ?thesis by simp
      next
        case (Some h)
        then have "?k \<le> length (votes_for H reports j h)" by (rule picked_Some [OF wf ord])
        with d(1) [of j] Some show ?thesis by (auto simp: not_less intro!: exI [of _ h])
      qed
    qed
    show "\<forall>j v. map_of fr j = Some v \<longrightarrow>
       (\<exists>h. ?k \<le> length (votes_for H reports j h) \<and>
         (\<exists>r\<in>set (votes_for H reports j h). map_of (rep_reports r) j = Some v))"
    proof (intro allI impI)
      fix j v assume "map_of fr j = Some v"
      then obtain h where h: "picked rj rh H ?k reports j = Some h"
          "v = gm_get0 VNil (gm_get0 [] (gm_get0 [] (jobFinalReports (tally_reports H reports)) j) h) j"
        using d(1) [of j] by auto
      have k: "?k \<le> length (votes_for H reports j h)" by (rule picked_Some [OF wf ord h(1)])
      then have "votes_for H reports j h \<noteq> []" by auto
      with final_value [OF wf] k h(2) show "\<exists>h. ?k \<le> length (votes_for H reports j h) \<and>
         (\<exists>r\<in>set (votes_for H reports j h). map_of (rep_reports r) j = Some v)" by blast
    qed
  qed (use d(2,3) in simp_all)
qed

section \<open>Properties\<close>

text \<open>
  C2: Correctness of the final report, for every order in which the maps are ranged over. It never
  panics; it reports no consensus exactly when no job has \<open>f + 1\<close> reports with the same hash; otherwise
  it contains exactly the jobs that have, each with a value that \<open>f + 1\<close> reports agree on by hash, and
  at least \<open>f + 1\<close> signatories, each the sender of a report with its signature.
\<close>

theorem final_report_correct:
  assumes "\<forall>r\<in>set reports. gm_wf (rep_reports r)" and "range_orders rj rh" and "unat f + 1 < 2 ^ 63"
  shows "case assembleFinalReport rj rh H f reports of
           Ok None \<Rightarrow> \<forall>j h. length (votes_for H reports j h) < unat f + 1
         | Ok (Some fr) \<Rightarrow>
             fr_Report fr \<noteq> [] \<and>
             (\<forall>j. case map_of (fr_Report fr) j of
                    None \<Rightarrow> \<forall>h. length (votes_for H reports j h) < unat f + 1
                  | Some v \<Rightarrow> \<exists>h. H v = Some h \<and> unat f + 1 \<le> length (votes_for H reports j h)) \<and>
             unat f + 1 \<le> length (fr_Signatories fr) \<and>
             (\<forall>s\<in>set (fr_Signatories fr).
                \<exists>r\<in>set reports. s = \<lparr>sg_Sign = rep_sig r, sg_ID = rep_from r\<rparr>)
         | _ \<Rightarrow> False"
proof -
  obtain fr sg where a: "assembleFinalReport rj rh H f reports =
       Ok (if fr = [] then None else Some \<lparr>fr_Report = fr, fr_Signatories = sg\<rparr>)"
    and 1: "\<forall>j. map_of fr j = None \<longleftrightarrow> (\<forall>h. length (votes_for H reports j h) < unat f + 1)"
    and 2: "\<forall>j v. map_of fr j = Some v \<longrightarrow>
       (\<exists>h. unat f + 1 \<le> length (votes_for H reports j h) \<and>
         (\<exists>r\<in>set (votes_for H reports j h). map_of (rep_reports r) j = Some v))"
    and 3: "fr \<noteq> [] \<longrightarrow> unat f + 1 \<le> length sg"
      "\<forall>s\<in>set sg. \<exists>r\<in>set reports. s = \<lparr>sg_Sign = rep_sig r, sg_ID = rep_from r\<rparr>"
    by (rule assemble_cases [OF assms])
  have 4: "case map_of fr j of
      None \<Rightarrow> \<forall>h. length (votes_for H reports j h) < unat f + 1
    | Some v \<Rightarrow> \<exists>h. H v = Some h \<and> unat f + 1 \<le> length (votes_for H reports j h)" for j
  proof (cases "map_of fr j")
    case (Some v)
    with 2 votes_value have "\<exists>h. H v = Some h \<and> unat f + 1 \<le> length (votes_for H reports j h)" by metis
    with Some show ?thesis by simp
  next
    case None
    with 1 have "\<forall>h. length (votes_for H reports j h) < unat f + 1" by blast
    with None show ?thesis by simp
  qed
  show ?thesis
  proof (cases "fr = []")
    case True
    with a 1 show ?thesis by simp
  next
    case False
    with a 3 4 show ?thesis by simp
  qed
qed

lemma final_report_votes:
  assumes "\<forall>r\<in>set reports. gm_wf (rep_reports r)" and "range_orders rj rh" and "unat f + 1 < 2 ^ 63"
    and "assembleFinalReport rj rh H f reports = Ok (Some fr)" and "map_of (fr_Report fr) j = Some v"
  obtains h where "H v = Some h" and "unat f + 1 \<le> length (votes_for H reports j h)"
proof -
  obtain fr' sg where a: "assembleFinalReport rj rh H f reports =
       Ok (if fr' = [] then None else Some \<lparr>fr_Report = fr', fr_Signatories = sg\<rparr>)"
    and 2: "\<forall>j v. map_of fr' j = Some v \<longrightarrow>
       (\<exists>h. unat f + 1 \<le> length (votes_for H reports j h) \<and>
         (\<exists>r\<in>set (votes_for H reports j h). map_of (rep_reports r) j = Some v))"
    by (rule assemble_cases [OF assms(1-3)])
  have "fr_Report fr = fr'" using a assms(4) by (auto split: if_splits)
  with 2 assms(5) votes_value that show thesis by metis
qed

text \<open>
  C1: Byzantine validity: if the senders of the reports that mention a job are distinct and at most
  \<open>f\<close> nodes are faulty, then the value in the final report was, up to its hash, reported by a node that
  is not faulty.
\<close>

theorem final_report_validity:
  assumes "\<forall>r\<in>set reports. gm_wf (rep_reports r)" and "range_orders rj rh" and "unat f + 1 < 2 ^ 63"
    and "distinct (map rep_from (filter (\<lambda>r. rep_reports r \<noteq> []) reports))"
    and "finite F" and "card F \<le> unat f"
    and "assembleFinalReport rj rh H f reports = Ok (Some fr)" and "map_of (fr_Report fr) j = Some v"
  shows "\<exists>r\<in>set reports. rep_from r \<notin> F \<and> (\<exists>w. map_of (rep_reports r) j = Some w \<and> H w = H v)"
proof -
  obtain h where h: "H v = Some h" "unat f + 1 \<le> length (votes_for H reports j h)"
    by (rule final_report_votes [OF assms(1-3,7,8)])
  have "votes_for H reports j h = filter (\<lambda>r. case map_of (rep_reports r) j of None \<Rightarrow> False | Some v \<Rightarrow> H v = Some h)
      (filter (\<lambda>r. rep_reports r \<noteq> []) reports)"
    unfolding votes_for_def filter_filter by (rule filter_cong) (auto split: option.splits)
  then have d: "distinct (map rep_from (votes_for H reports j h))"
    using assms(4) distinct_map_filter by metis
  have "\<not> rep_from ` set (votes_for H reports j h) \<subseteq> F"
  proof
    assume "rep_from ` set (votes_for H reports j h) \<subseteq> F"
    then have "card (set (map rep_from (votes_for H reports j h))) \<le> card F"
      using assms(5) by (intro card_mono) auto
    with d h(2) assms(6) show False using distinct_card [OF d] by simp
  qed
  then obtain r where "r \<in> set (votes_for H reports j h)" "rep_from r \<notin> F" by auto
  with h(1) show ?thesis by (auto simp: votes_for_def split: option.splits)
qed

text \<open>
  Agreement: when fewer than \<open>2 * (f + 1)\<close> reports mention a job, the value of the job in the final
  report does not depend, up to its hash, on the order in which the maps are ranged over.
\<close>

theorem final_report_unique:
  assumes "\<forall>r\<in>set reports. gm_wf (rep_reports r)" and "range_orders rj rh" and "range_orders rj' rh'"
    and "unat f + 1 < 2 ^ 63"
    and "length (filter (\<lambda>r. map_of (rep_reports r) j \<noteq> None) reports) < 2 * (unat f + 1)"
    and "assembleFinalReport rj rh H f reports = Ok (Some fr)" and "map_of (fr_Report fr) j = Some v"
    and "assembleFinalReport rj' rh' H f reports = Ok (Some fr')" and "map_of (fr_Report fr') j = Some v'"
  shows "H v = H v'"
proof (rule ccontr)
  obtain h where h: "H v = Some h" "unat f + 1 \<le> length (votes_for H reports j h)"
    by (rule final_report_votes [OF assms(1,2,4,6,7)])
  obtain h' where h': "H v' = Some h'" "unat f + 1 \<le> length (votes_for H reports j h')"
    by (rule final_report_votes [OF assms(1,3,4,8,9)])
  assume "H v \<noteq> H v'"
  with h(1) h'(1) have "h \<noteq> h'" by auto
  then have "length (votes_for H reports j h) + length (votes_for H reports j h') \<le>
      length (filter (\<lambda>r. map_of (rep_reports r) j \<noteq> None) reports)"
    unfolding votes_for_def by (induction reports) (auto split: option.splits)
  with h(2) h'(2) assms(5) show False by simp
qed

text \<open>
  C38: The threshold counts reports, not senders: \<open>f + 1\<close> copies of one node's report are a consensus,
  and the final report then carries that node's value for the job. The leader does not check that a
  sender reports once, so a single faulty node can decide a round.
\<close>

theorem one_sender_suffices:
  assumes "range_orders rj rh" and "unat f + 1 < 2 ^ 63" and "H v = Some h"
  shows "\<exists>fr. assembleFinalReport rj rh H f
             (zero_Report # replicate (unat f + 1) \<lparr>rep_from = s, rep_reports = [(j, v)], rep_sig = sg\<rparr>) = Ok (Some fr) \<and>
           map_of (fr_Report fr) j = Some v"
proof -
  let ?rs = "zero_Report # replicate (unat f + 1) \<lparr>rep_from = s, rep_reports = [(j, v)], rep_sig = sg\<rparr>"
  have wf: "\<forall>r\<in>set ?rs. gm_wf (rep_reports r)" by (simp add: zero_Report_def gm_wf_def)
  have votes: "length (votes_for H ?rs j h) = unat f + 1"
    using assms(3) by (simp add: votes_for_def zero_Report_def)
  obtain fr sg' where a: "assembleFinalReport rj rh H f ?rs =
       Ok (if fr = [] then None else Some \<lparr>fr_Report = fr, fr_Signatories = sg'\<rparr>)"
    and 1: "\<forall>j. map_of fr j = None \<longleftrightarrow> (\<forall>h. length (votes_for H ?rs j h) < unat f + 1)"
    and 2: "\<forall>j v. map_of fr j = Some v \<longrightarrow>
       (\<exists>h. unat f + 1 \<le> length (votes_for H ?rs j h) \<and>
         (\<exists>r\<in>set (votes_for H ?rs j h). map_of (rep_reports r) j = Some v))"
    by (rule assemble_cases [OF wf assms(1,2)])
  from 1 votes have "map_of fr j \<noteq> None" by (metis less_irrefl)
  then obtain w where w: "map_of fr j = Some w" by blast
  with 2 have "w = v" by (fastforce simp: votes_for_def zero_Report_def split: if_splits)
  with w a show ?thesis by auto
qed

section \<open>Witnesses\<close>

definition agreeing_reports :: "Report list" where
  "agreeing_reports =
     [zero_Report,
      \<lparr>rep_from = ''a'', rep_reports = [(''j'', VStr ''1'')], rep_sig = zero_Signature\<rparr>,
      \<lparr>rep_from = ''b'', rep_reports = [(''j'', VStr ''2'')], rep_sig = zero_Signature\<rparr>,
      \<lparr>rep_from = ''c'', rep_reports = [(''j'', VStr ''1'')], rep_sig = zero_Signature\<rparr>]"

abbreviation plain_hash :: "goval \<Rightarrow> bytes option" where
  "plain_hash \<equiv> response_hash id (\<lambda>_. ''0'')"

lemma agreeing_reports_wf: "\<forall>r\<in>set agreeing_reports. gm_wf (rep_reports r)"
  by (simp add: agreeing_reports_def zero_Report_def gm_wf_def)

lemma id_orders: "range_orders id id"
  by (simp add: range_orders_def)

lemma rev_orders: "range_orders rev rev"
  by (simp add: range_orders_def)

lemma agreeing_reports_result:
  "assembleFinalReport id id plain_hash 1 agreeing_reports =
     Ok (Some \<lparr>fr_Report = [(''j'', VStr ''1'')],
       fr_Signatories = [\<lparr>sg_Sign = zero_Signature, sg_ID = ''a''\<rparr>, \<lparr>sg_Sign = zero_Signature, sg_ID = ''c''\<rparr>]\<rparr>)"
  "assembleFinalReport rev rev plain_hash 1 agreeing_reports =
     Ok (Some \<lparr>fr_Report = [(''j'', VStr ''1'')],
       fr_Signatories = [\<lparr>sg_Sign = zero_Signature, sg_ID = ''a''\<rparr>, \<lparr>sg_Sign = zero_Signature, sg_ID = ''c''\<rparr>]\<rparr>)"
  by code_simp+

theorem final_report_correct_witness:
  "unat (1 :: u64) + 1 \<le> length (votes_for plain_hash agreeing_reports ''j'' (print_json (JStr ''1'')))"
  using final_report_correct [OF agreeing_reports_wf id_orders, of 1 plain_hash]
  by (auto simp: agreeing_reports_result dest!: spec [of _ "''j''"] simp: response_hash_def jmarshal_def)

theorem final_report_validity_witness:
  "\<exists>r\<in>set agreeing_reports. rep_from r \<notin> {''c''} \<and>
     (\<exists>w. map_of (rep_reports r) ''j'' = Some w \<and> plain_hash w = plain_hash (VStr ''1''))"
  by (rule final_report_validity [OF agreeing_reports_wf id_orders _ _ _ _ agreeing_reports_result(1)])
    (simp_all add: agreeing_reports_def zero_Report_def)

theorem one_sender_suffices_witness:
  "\<exists>fr. assembleFinalReport id id plain_hash 2
       (zero_Report # replicate (unat (2 :: u64) + 1) \<lparr>rep_from = ''m'', rep_reports = [(''j'', VStr ''9'')], rep_sig = zero_Signature\<rparr>) =
         Ok (Some fr) \<and> map_of (fr_Report fr) ''j'' = Some (VStr ''9'')"
  by (rule one_sender_suffices [OF id_orders, of 2 plain_hash "VStr ''9''" "print_json (JStr ''9'')"])
    (simp_all add: response_hash_def jmarshal_def)

end
