(* ===== verification/Timer.thy ===== *)
theory Timer
  imports Prelude
begin

text \<open>
  \<open>ocr/timer.go\<close>: a ticker whose events a goroutine forwards to a channel until the timer is
  stopped. \<open>Stop\<close> tests a flag, closes the stop channel and sets the flag, and no lock makes these three
  one step; \<open>Timer_Stop\<close> is the call that nothing interrupts, and \<open>timer_step\<close> are the steps the
  goroutine and any number of callers of \<open>Stop\<close> make, interleaved between the test, the close and the
  assignment. A caller is a number and has a program counter.
\<close>

section \<open>Definitions\<close>

record Timer =
  tm_ticking :: bool
  tm_ch :: chan
  tm_stopCh :: chan
  tm_stopped :: bool
  tm_running :: bool

text \<open>\<open>&Timer{}\<close>: the zero value, with nil channels and no goroutine.\<close>

definition zero_Timer :: Timer where
  "zero_Timer = \<lparr>tm_ticking = False, tm_ch = NilChan, tm_stopCh = NilChan, tm_stopped = False,
     tm_running = False\<rparr>"

text \<open>\<open>time.NewTicker\<close> panics for an interval that is not positive.\<close>

definition NewTimer :: "int \<Rightarrow> ('e, Timer) res" where
  "NewTimer interval =
     (if interval \<le> 0 then Panicked (ExplicitPanic ''non-positive interval for NewTicker'')
      else Ok \<lparr>tm_ticking = True, tm_ch = OpenChan, tm_stopCh = OpenChan, tm_stopped = False,
              tm_running = True\<rparr>)"

definition Subscribe :: "Timer \<Rightarrow> chan" where
  "Subscribe t = tm_ch t"

definition Timer_Stop :: "Timer \<Rightarrow> ('e, Timer) res" where
  "Timer_Stop t =
     (if \<not> tm_stopped t
      then res_bind (close_chan (tm_stopCh t)) (\<lambda>c. Ok (t\<lparr>tm_stopCh := c, tm_stopped := True\<rparr>))
      else Ok t)"

text \<open>
  The goroutine's two branches. A tick is sent when somebody listens, and dropped otherwise; with a
  closed channel the inner \<open>select\<close> would panic in both cases.
\<close>

definition timer_tick :: "bool \<Rightarrow> Timer \<Rightarrow> ('e, Timer) res" where
  "timer_tick listening t =
     (if tm_ch t = ClosedChan then Panicked (ExplicitPanic ''send on closed channel'') else Ok t)"

definition timer_quit :: "Timer \<Rightarrow> ('e, Timer) res" where
  "timer_quit t =
     res_bind (close_chan (tm_ch t)) (\<lambda>c. Ok (t\<lparr>tm_ticking := False, tm_ch := c, tm_running := False\<rparr>))"

subsection \<open>Interleaving\<close>

text \<open>Where a caller of \<open>Stop\<close> is: outside, past the test, or past the close.\<close>

datatype stop_pc = Outside | Closing | Setting

record timer_sys =
  ts_timer :: Timer
  ts_pc :: "nat \<Rightarrow> stop_pc"

definition at_pc :: "nat \<Rightarrow> stop_pc \<Rightarrow> Timer \<Rightarrow> timer_sys \<Rightarrow> timer_sys" where
  "at_pc i pc t st = st\<lparr>ts_timer := t, ts_pc := (ts_pc st)(i := pc)\<rparr>"

definition stop_test :: "nat \<Rightarrow> timer_sys \<Rightarrow> ('e, timer_sys) res" where
  "stop_test i st = Ok (at_pc i (if tm_stopped (ts_timer st) then Outside else Closing) (ts_timer st) st)"

definition stop_close :: "nat \<Rightarrow> timer_sys \<Rightarrow> ('e, timer_sys) res" where
  "stop_close i st =
     res_bind (close_chan (tm_stopCh (ts_timer st))) (\<lambda>c. Ok (at_pc i Setting ((ts_timer st)\<lparr>tm_stopCh := c\<rparr>) st))"

definition stop_set :: "nat \<Rightarrow> timer_sys \<Rightarrow> ('e, timer_sys) res" where
  "stop_set i st = Ok (at_pc i Outside ((ts_timer st)\<lparr>tm_stopped := True\<rparr>) st)"

definition of_timer :: "timer_sys \<Rightarrow> ('e, Timer) res \<Rightarrow> ('e, timer_sys) res" where
  "of_timer st r = res_bind r (\<lambda>t. Ok (st\<lparr>ts_timer := t\<rparr>))"

datatype timer_event = Tick bool | Quit | TestStop nat | CloseStop nat | SetStopped nat

inductive timer_step :: "timer_sys \<Rightarrow> timer_event \<Rightarrow> ('e, timer_sys) res \<Rightarrow> bool" where
  tick: "tm_running (ts_timer st) \<Longrightarrow> tm_ticking (ts_timer st) \<Longrightarrow>
           timer_step st (Tick listening) (of_timer st (timer_tick listening (ts_timer st)))"
| quit: "tm_running (ts_timer st) \<Longrightarrow> tm_stopCh (ts_timer st) = ClosedChan \<Longrightarrow>
           timer_step st Quit (of_timer st (timer_quit (ts_timer st)))"
| test: "ts_pc st i = Outside \<Longrightarrow> timer_step st (TestStop i) (stop_test i st)"
| close: "ts_pc st i = Closing \<Longrightarrow> timer_step st (CloseStop i) (stop_close i st)"
| set: "ts_pc st i = Setting \<Longrightarrow> timer_step st (SetStopped i) (stop_set i st)"

inductive_cases timer_stepE: "timer_step st e r"

text \<open>
  The states of a timer made by \<open>NewTimer\<close>. With \<open>serial\<close> a call of \<open>Stop\<close> begins only when no other
  call is under way, as a caller that holds a lock around the calls would have it.
\<close>

definition may_happen :: "bool \<Rightarrow> timer_sys \<Rightarrow> timer_event \<Rightarrow> bool" where
  "may_happen serial st e \<longleftrightarrow> serial \<longrightarrow> (\<forall>i. e = TestStop i \<longrightarrow> (\<forall>j. ts_pc st j = Outside))"

inductive timer_reach :: "bool \<Rightarrow> timer_sys \<Rightarrow> bool" for serial where
  start: "NewTimer d = (Ok t :: (unit, Timer) res) \<Longrightarrow> timer_reach serial \<lparr>ts_timer = t, ts_pc = (\<lambda>_. Outside)\<rparr>"
| step: "timer_reach serial st \<Longrightarrow> timer_step st e (Ok st' :: (unit, timer_sys) res) \<Longrightarrow> may_happen serial st e \<Longrightarrow>
    timer_reach serial st'"

definition timer_inv :: "timer_sys \<Rightarrow> bool" where
  "timer_inv st \<longleftrightarrow> (let t = ts_timer st in
     tm_stopCh t \<noteq> NilChan \<and> (tm_stopped t \<longrightarrow> tm_stopCh t = ClosedChan) \<and>
     tm_ch t = (if tm_running t then OpenChan else ClosedChan) \<and>
     (\<not> tm_running t \<longrightarrow> tm_stopCh t = ClosedChan) \<and> tm_ticking t = tm_running t \<and>
     (\<forall>i. ts_pc st i = Setting \<longrightarrow> tm_stopCh t = ClosedChan))"

text \<open>At most one call is under way, and the channel is open until that call closes it.\<close>

definition serial_inv :: "timer_sys \<Rightarrow> bool" where
  "serial_inv st \<longleftrightarrow>
     (\<forall>i j. ts_pc st i \<noteq> Outside \<longrightarrow> ts_pc st j \<noteq> Outside \<longrightarrow> i = j) \<and>
     (\<forall>i. ts_pc st i = Closing \<longrightarrow> tm_stopCh (ts_timer st) = OpenChan) \<and>
     (tm_stopCh (ts_timer st) = ClosedChan \<longrightarrow> tm_stopped (ts_timer st) \<or> (\<exists>i. ts_pc st i = Setting))"

section \<open>Lemmas\<close>

lemmas timer_defs = timer_tick_def timer_quit_def stop_test_def stop_close_def stop_set_def of_timer_def at_pc_def

lemma chan_open_or_closed: "c \<noteq> NilChan \<Longrightarrow> c = OpenChan \<or> c = ClosedChan"
  by (cases c) simp_all

lemma Ok_res_bind_iff: "Ok y = res_bind r k \<longleftrightarrow> (\<exists>x. r = Ok x \<and> k x = Ok y)"
  by (cases r) auto

text \<open>The only step that can panic closes the stop channel a second time.\<close>

lemma timer_inv_step:
  assumes "timer_inv st" and "timer_step st e r"
  shows "(\<exists>st'. r = Ok st' \<and> timer_inv st') \<or>
    (\<exists>i. e = CloseStop i \<and> ts_pc st i = Closing \<and> tm_stopCh (ts_timer st) = ClosedChan \<and> r = Panicked CloseOfClosedChannel)"
  using assms(2)
proof cases
  case (close i)
  from assms(1) have "tm_stopCh (ts_timer st) = OpenChan \<or> tm_stopCh (ts_timer st) = ClosedChan"
    by (intro chan_open_or_closed) (simp add: timer_inv_def Let_def)
  with close assms(1) show ?thesis by (auto simp: timer_inv_def timer_defs Let_def split: if_splits)
qed (use assms(1) in \<open>auto simp: timer_inv_def timer_defs Let_def split: if_splits\<close>)

lemma serial_inv_step:
  assumes "timer_inv st" and "serial_inv st" and "timer_step st e (Ok st')" and "may_happen True st e"
  shows "serial_inv st'"
  using assms(3)
proof cases
  case (test i)
  with assms(4) have "ts_pc st j = Outside" for j by (simp add: may_happen_def)
  with test assms(1,2) show ?thesis
    by (auto simp: serial_inv_def timer_inv_def timer_defs Let_def dest: chan_open_or_closed split: if_splits)
next
  case (close i)
  with assms(2) have "ts_pc st j = Outside" if "j \<noteq> i" for j
    using that by (force simp: serial_inv_def)
  with close show ?thesis
    by (auto simp: serial_inv_def timer_defs go_simps Ok_res_bind_iff split: if_splits)
next
  case (set i)
  with assms(2) have "ts_pc st j = Outside" if "j \<noteq> i" for j
    using that by (force simp: serial_inv_def)
  with set show ?thesis by (auto simp: serial_inv_def timer_defs split: if_splits)
qed (use assms(2) in \<open>auto simp: serial_inv_def timer_defs go_simps Ok_res_bind_iff split: if_splits\<close>)

lemma timer_reach_inv: "timer_reach serial st \<Longrightarrow> timer_inv st \<and> (serial \<longrightarrow> serial_inv st)"
proof (induction rule: timer_reach.induct)
  case (start d t)
  then show ?case by (auto simp: NewTimer_def timer_inv_def serial_inv_def split: if_splits)
next
  case (step st e st')
  then have "timer_inv st'" using timer_inv_step by fastforce
  with step serial_inv_step [of st e st'] show ?case by auto
qed

text \<open>A call that nothing interrupts is the operation \<open>Timer_Stop\<close>.\<close>

lemma uninterrupted_Stop:
  assumes "ts_pc st i = Outside" and "Timer_Stop (ts_timer st) = (Ok t :: (unit, Timer) res)"
  shows "\<exists>st1 st2. timer_step st (TestStop i) (Ok st1 :: (unit, timer_sys) res) \<and>
     (st1 = st\<lparr>ts_timer := t\<rparr> \<or>
      timer_step st1 (CloseStop i) (Ok st2 :: (unit, timer_sys) res) \<and>
      timer_step st2 (SetStopped i) (Ok (st\<lparr>ts_timer := t\<rparr>) :: (unit, timer_sys) res))"
proof (cases "tm_stopped (ts_timer st)")
  case True
  have "(ts_pc st)(i := Outside) = ts_pc st" using assms(1) by auto
  with True assms show ?thesis
    by (auto simp: Timer_Stop_def timer_step.simps timer_defs)
next
  case False
  let ?st1 = "at_pc i Closing (ts_timer st) st"
  let ?st2 = "at_pc i Setting ((ts_timer st)\<lparr>tm_stopCh := ClosedChan\<rparr>) ?st1"
  from False assms(2) have o: "tm_stopCh (ts_timer st) = OpenChan"
    and t: "t = (ts_timer st)\<lparr>tm_stopCh := ClosedChan, tm_stopped := True\<rparr>"
    by (auto simp: Timer_Stop_def res_bind_Ok_iff go_simps)
  have "timer_step st (TestStop i) (Ok ?st1 :: (unit, timer_sys) res)"
    using timer_step.test [OF assms(1)] False by (simp add: stop_test_def)
  moreover have "timer_step ?st1 (CloseStop i) (Ok ?st2 :: (unit, timer_sys) res)"
    using timer_step.close [of ?st1 i] o by (simp add: stop_close_def at_pc_def)
  moreover have "(ts_pc st)(i := Outside) = ts_pc st" using assms(1) by auto
  then have "timer_step ?st2 (SetStopped i) (Ok (st\<lparr>ts_timer := t\<rparr>) :: (unit, timer_sys) res)"
    using timer_step.set [of ?st2 i] t by (simp add: stop_set_def at_pc_def)
  ultimately show ?thesis by blast
qed

section \<open>Properties\<close>

text \<open>
  C24: A timer made by \<open>NewTimer\<close> is safe when calls of \<open>Stop\<close> do not overlap. Whatever the order of the
  goroutine's steps and of the single steps of the calls, no step panics: neither channel is closed
  twice and no tick is sent on a closed channel. As long as the goroutine runs the subscribers' channel is
  open; once a call has returned the goroutine can end, and after it has ended the channel is
  closed and nothing is sent any more. In any case only the second closing of the stop channel can panic.
\<close>

theorem timer_safe:
  fixes r :: "(unit, timer_sys) res"
  assumes "timer_reach serial st" and "timer_step st e r" and "may_happen serial st e"
  shows "(serial \<longrightarrow> (\<exists>st'. r = Ok st' \<and> timer_reach True st')) \<and>
         ((\<exists>st'. r = Ok st') \<or> r = Panicked CloseOfClosedChannel \<and> (\<exists>i. e = CloseStop i)) \<and>
         Subscribe (ts_timer st) = (if tm_running (ts_timer st) then OpenChan else ClosedChan) \<and>
         (tm_stopped (ts_timer st) \<and> tm_running (ts_timer st) \<longrightarrow>
            (\<exists>st'. timer_step st Quit (Ok st' :: (unit, timer_sys) res) \<and> \<not> tm_running (ts_timer st'))) \<and>
         (\<not> tm_running (ts_timer st) \<longrightarrow> (\<forall>l. e \<noteq> Tick l))"
proof (intro conjI)
  have inv: "timer_inv st" and ser: "serial \<longrightarrow> serial_inv st" using timer_reach_inv [OF assms(1)] by auto
  note cases = timer_inv_step [OF inv assms(2)]
  show "serial \<longrightarrow> (\<exists>st'. r = Ok st' \<and> timer_reach True st')"
  proof
    assume serial
    with ser cases obtain st' where "r = Ok st'" by (auto simp: serial_inv_def)
    with timer_reach.step [OF assms(1)] assms(2,3) \<open>serial\<close> show "\<exists>st'. r = Ok st' \<and> timer_reach True st'" by simp
  qed
  show "(\<exists>st'. r = Ok st') \<or> r = Panicked CloseOfClosedChannel \<and> (\<exists>i. e = CloseStop i)" using cases by blast
  show "Subscribe (ts_timer st) = (if tm_running (ts_timer st) then OpenChan else ClosedChan)"
    using inv by (simp add: timer_inv_def Subscribe_def Let_def)
  show "tm_stopped (ts_timer st) \<and> tm_running (ts_timer st) \<longrightarrow>
      (\<exists>st'. timer_step st Quit (Ok st' :: (unit, timer_sys) res) \<and> \<not> tm_running (ts_timer st'))"
    using inv by (auto simp: timer_inv_def timer_step.simps timer_defs Let_def)
  show "\<not> tm_running (ts_timer st) \<longrightarrow> (\<forall>l. e \<noteq> Tick l)" using assms(2) by (auto elim: timer_stepE)
qed

text \<open>
  C25: Overlapping calls of \<open>Stop\<close> crash. In every state of a timer that is not yet stopped, two callers
  that are outside can both pass the test before one of them has set the flag; the first closes the
  stop channel, and the second panics when it closes the channel again.
\<close>

theorem overlapping_stop_panics:
  assumes "timer_reach False st" and "tm_stopCh (ts_timer st) = OpenChan"
    and "i \<noteq> j" and "ts_pc st i = Outside" and "ts_pc st j = Outside"
  shows "\<exists>st1 st2 st3. timer_step st (TestStop i) (Ok st1 :: (unit, timer_sys) res) \<and>
           timer_step st1 (TestStop j) (Ok st2 :: (unit, timer_sys) res) \<and>
           timer_step st2 (CloseStop i) (Ok st3 :: (unit, timer_sys) res) \<and> timer_reach False st3 \<and>
           timer_step st3 (CloseStop j) (Panicked CloseOfClosedChannel :: (unit, timer_sys) res)"
proof -
  have ns: "\<not> tm_stopped (ts_timer st)"
    using timer_reach_inv [OF assms(1)] assms(2) by (auto simp: timer_inv_def Let_def)
  let ?st1 = "at_pc i Closing (ts_timer st) st"
  let ?st2 = "at_pc j Closing (ts_timer st) ?st1"
  let ?st3 = "at_pc i Setting ((ts_timer st)\<lparr>tm_stopCh := ClosedChan\<rparr>) ?st2"
  have s1: "timer_step st (TestStop i) (Ok ?st1 :: (unit, timer_sys) res)"
    using timer_step.test [OF assms(4)] ns by (simp add: stop_test_def)
  have s2: "timer_step ?st1 (TestStop j) (Ok ?st2 :: (unit, timer_sys) res)"
    using timer_step.test [of ?st1 j] ns assms(3,5) by (simp add: stop_test_def at_pc_def)
  have s3: "timer_step ?st2 (CloseStop i) (Ok ?st3 :: (unit, timer_sys) res)"
    using timer_step.close [of ?st2 i] assms(2,3) by (simp add: stop_close_def at_pc_def)
  have s4: "timer_step ?st3 (CloseStop j) (Panicked CloseOfClosedChannel :: (unit, timer_sys) res)"
    using timer_step.close [of ?st3 j] assms(3) by (simp add: stop_close_def at_pc_def)
  have "timer_reach False ?st3"
    by (intro timer_reach.step [OF timer_reach.step [OF timer_reach.step [OF assms(1) s1] s2] s3])
      (simp_all add: may_happen_def)
  with s1 s2 s3 s4 show ?thesis by blast
qed

text \<open>
  The timers the reporting engine and the pacemaker start with, \<open>&Timer{}\<close>, cannot be stopped:
  \<open>Stop\<close> closes a nil channel and panics.
\<close>

theorem zero_timer_stop_panics: "Timer_Stop zero_Timer = Panicked CloseOfNilChannel"
  by (simp add: Timer_Stop_def zero_Timer_def)

section \<open>Witnesses\<close>

theorem timer_safe_witness:
  "\<exists>t st'. NewTimer 20 = (Ok t :: (unit, Timer) res) \<and>
     timer_step \<lparr>ts_timer = t, ts_pc = (\<lambda>_. Outside)\<rparr> (TestStop 1) (Ok st' :: (unit, timer_sys) res) \<and>
     timer_reach True st'"
proof -
  obtain t where t: "NewTimer 20 = (Ok t :: (unit, Timer) res)" by (simp add: NewTimer_def)
  let ?st = "\<lparr>ts_timer = t, ts_pc = (\<lambda>_. Outside)\<rparr>"
  have step: "timer_step ?st (TestStop 1) (stop_test 1 ?st :: (unit, timer_sys) res)"
    by (rule timer_step.test) simp
  have "may_happen True ?st (TestStop 1)" by (simp add: may_happen_def)
  from timer_safe [OF timer_reach.start [OF t] step this] t step show ?thesis by (metis (full_types))
qed

theorem overlapping_stop_panics_witness:
  "\<exists>t st3. NewTimer 20 = (Ok t :: (unit, Timer) res) \<and>
     timer_step st3 (CloseStop 2) (Panicked CloseOfClosedChannel :: (unit, timer_sys) res)"
proof -
  obtain t where t: "NewTimer 20 = (Ok t :: (unit, Timer) res)" "tm_stopCh t = OpenChan" by (simp add: NewTimer_def)
  from overlapping_stop_panics [OF timer_reach.start [OF t(1)], of 1 2] t show ?thesis by auto
qed

end
