(* ===== verification/Engine.thy ===== *)
theory Engine
  imports FinalReport Timer
begin

text \<open>
  The reporting engine's state and the operations every handler uses: the structs of
  \<open>ocr/reporter.go\<close> and \<open>ocr/leader.go\<close>, construction and initialisation, the message prechecks with
  \<open>ocr/utils.go\<close>, signing and verification, the phase channel, stopping and the change of round.

  An operation of the engine is an \<open>act\<close>: it takes the state and gives a result, the new state and
  what it did to the outside (messages sent, goroutines started), in order. A panic or a blocked
  goroutine is a result; the state and the effects up to that point are kept.

  The phase channel is unbuffered. \<open>make\<close> gives a new channel, here a new number; the orchestrating
  goroutine waits on the channel it read when it entered its \<open>select\<close>, \<open>re_orch\<close>. A send on the current
  channel succeeds at once when the orchestrator waits on that same channel and blocks for ever
  otherwise.
\<close>

section \<open>Definitions\<close>

subsection \<open>State\<close>

datatype LeaderPhase = PhaseNil | PhaseObserve | PhaseGrace | PhaseReport | PhaseFinal | PhaseTransmit

definition MAX_ROUNDS :: nat where "MAX_ROUNDS = 10"
definition INIT_ROUND :: u64 where "INIT_ROUND = 1"

text \<open>Durations are nanoseconds, as in \<open>time.Duration\<close>.\<close>

definition RoundTmeout :: int where "RoundTmeout = 20 * 10 ^ 9"
definition RoundGrace :: int where "RoundGrace = 5 * 10 ^ 9"

record ServerInfo =
  si_Addr :: string
  si_Codec :: codec
  si_ID :: string

record PacemakerGlobals =
  pg_n :: u64
  pg_f :: u64

record CacheLayer =
  observe_n :: u64
  report_n :: u64
  c_jobs :: "DirectRequest list"
  jobReports :: JobReports
  follower_observations :: ObservationSafeMap
  c_finalReport :: FinalReport

record LeaderState =
  ls_observations :: ObservationSafeMap
  ls_finalReport :: "FinalReport option"
  ls_reports :: "Report list"
  ls_finalReportAttestation :: u64
  ls_TimerRoundTimeout :: "Timer option"
  ls_TimerGrace :: "Timer option"
  ls_Phase :: LeaderPhase
  ls_phaseCh :: "nat \<times> chan"

text \<open>
  \<open>re_msgService\<close> and \<open>re_recEvents\<close> say whether the pointers to the server and to the pacemaker's
  queue are set; \<open>re_jobRegistry\<close> and \<open>re_jobSchedule\<close> are \<open>None\<close> when nil; \<open>re_mu\<close> is whether the
  mutex is held.
\<close>

record ReportingEngine =
  re_curRound :: u64
  re_isLeader :: bool
  re_epoch :: u64
  re_leader :: string
  re_LeaderState :: LeaderState
  re_msgService :: bool
  re_serverOpts :: ServerInfo
  re_quitCh :: chan
  re_cacheLayer :: CacheLayer
  re_pacemakerGlobals :: PacemakerGlobals
  re_signer :: PrivateKey
  re_recEvents :: bool
  re_jobRegistry :: "(string, DirectRequest) gomap option"
  re_jobSchedule :: "(u64, DirectRequest list) gomap option"
  re_mu :: bool
  re_ready :: bool
  re_orch :: "nat option"

definition zero_CacheLayer :: CacheLayer where
  "zero_CacheLayer =
     \<lparr>observe_n = 0, report_n = 0, c_jobs = [], jobReports = [], follower_observations = [],
      c_finalReport = zero_finalreport\<rparr>"

text \<open>\<open>&ReportingEngine{}\<close> as the pacemaker makes it; its codec is nil and is not used before
  \<open>initReporter\<close> sets one.\<close>

definition zero_engine :: ReportingEngine where
  "zero_engine =
     \<lparr>re_curRound = 0, re_isLeader = False, re_epoch = 0, re_leader = [],
      re_LeaderState =
        \<lparr>ls_observations = [], ls_finalReport = None, ls_reports = [], ls_finalReportAttestation = 0,
         ls_TimerRoundTimeout = None, ls_TimerGrace = None, ls_Phase = PhaseObserve,
         ls_phaseCh = (0, NilChan)\<rparr>,
      re_msgService = False,
      re_serverOpts = \<lparr>si_Addr = [], si_Codec = \<lparr>Encode = (\<lambda>_. None), Decode = (\<lambda>_ _. None)\<rparr>, si_ID = []\<rparr>,
      re_quitCh = NilChan, re_cacheLayer = zero_CacheLayer, re_pacemakerGlobals = \<lparr>pg_n = 0, pg_f = 0\<rparr>,
      re_signer = \<lparr>priv_D = 0, priv_pub = \<lparr>pk_X = 0, pk_Y = 0\<rparr>\<rparr>, re_recEvents = False,
      re_jobRegistry = None, re_jobSchedule = None, re_mu = False, re_ready = False, re_orch = None\<rparr>"

subsection \<open>Actions\<close>

datatype precheck_error = FieldsMissing | UnknownType | WrongEpoch | WrongRound | WrongLeader

datatype engine_error =
    NotReady
  | PrecheckFailed precheck_error
  | JobFailed job_error
  | UnmarshalObservations
  | BytesFailed
  | LeaderSignature

datatype task = HObserve | HGrace | HGraceOver | HReport | HFinal | HTransmit | HProgress | HFollowing

record Transmitter =
  tr_epoch :: u64
  tr_round :: u64
  tr_leader :: string
  tr_job :: DirectRequest

datatype effect =
    EBroadcast bytes
  | ESend string bytes
  | ESpawn task
  | ETransmit Transmitter goval

type_synonym 'a act = "ReportingEngine \<Rightarrow> (engine_error, 'a) res \<times> ReportingEngine \<times> effect list"

definition ret :: "'a \<Rightarrow> 'a act" where "ret a = (\<lambda>re. (Ok a, re, []))"

definition lift_res :: "(engine_error, 'a) res \<Rightarrow> 'a act" where "lift_res r = (\<lambda>re. (r, re, []))"

definition upd :: "(ReportingEngine \<Rightarrow> ReportingEngine) \<Rightarrow> unit act" where
  "upd f = (\<lambda>re. (Ok (), f re, []))"

definition emit :: "effect \<Rightarrow> unit act" where "emit e = (\<lambda>re. (Ok (), re, [e]))"

definition seqA :: "'a act \<Rightarrow> ('a \<Rightarrow> 'b act) \<Rightarrow> 'b act" where
  "seqA m k = (\<lambda>re.
     case m re of
       (Ok a, re', es) \<Rightarrow> (case k a re' of (r, re'', es') \<Rightarrow> (r, re'', es @ es'))
     | (Err e, re', es) \<Rightarrow> (Err e, re', es)
     | (Panicked p, re', es) \<Rightarrow> (Panicked p, re', es)
     | (Blocked, re', es) \<Rightarrow> (Blocked, re', es))"

definition thenA :: "unit act \<Rightarrow> 'b act \<Rightarrow> 'b act" where
  "thenA m k = seqA m (\<lambda>_. k)"

definition reading :: "(ReportingEngine \<Rightarrow> 'a act) \<Rightarrow> 'a act" where
  "reading k = (\<lambda>re. k re re)"

text \<open>
  The outside of the engine: the primitives, the jobs' environment, \<open>IsPeer\<close> of the messaging layer,
  the randomness of a signature, the times at which the goroutines of a round finish, and the orders
  in which maps are ranged over.
\<close>

record env =
  en_prims :: cprims
  en_job :: job_env
  en_isPeer :: "string \<Rightarrow> (engine_error, bool) res"
  en_rnd :: nat
  en_elapsed :: "nat \<Rightarrow> nat \<Rightarrow> int"
  en_finish :: "nat \<Rightarrow> nat"
  en_obs_order :: "ObservationSafeMap \<Rightarrow> ObservationSafeMap"
  en_rj :: "(string \<times> (bytes, nat) gomap) list \<Rightarrow> (string \<times> (bytes, nat) gomap) list"
  en_rh :: "(bytes \<times> nat) list \<Rightarrow> (bytes \<times> nat) list"

definition response_H :: "env \<Rightarrow> goval \<Rightarrow> bytes option" where
  "response_H env = response_hash (sha256 (en_prims env)) (shortest (en_job env))"

subsection \<open>Messages, phases, signatures\<close>

text \<open>A method call on a nil \<open>msgService\<close> panics; the handlers ignore the errors of the calls.\<close>

definition BroadcastMsg_re :: "bytes \<Rightarrow> unit act" where
  "BroadcastMsg_re msg =
     reading (\<lambda>re. if re_msgService re then emit (EBroadcast msg) else lift_res (Panicked NilDeref))"

definition SendMsg_re :: "string \<Rightarrow> bytes \<Rightarrow> unit act" where
  "SendMsg_re i msg =
     reading (\<lambda>re. if re_msgService re then emit (ESend i msg) else lift_res (Panicked NilDeref))"

datatype SendingSchme = BROADCAST | LEADER | PEER

definition ReportingEngine_SendMsg :: "SendingSchme \<Rightarrow> bytes \<Rightarrow> string \<Rightarrow> unit act" where
  "ReportingEngine_SendMsg s msg i =
     (case s of
        BROADCAST \<Rightarrow> BroadcastMsg_re msg
      | LEADER \<Rightarrow> reading (\<lambda>re. SendMsg_re (re_leader re) msg)
      | PEER \<Rightarrow> SendMsg_re i msg)"

definition AttachMsgLayer :: "ReportingEngine \<Rightarrow> ReportingEngine" where
  "AttachMsgLayer re = re\<lparr>re_msgService := True\<rparr>"

text \<open>The orchestrator's \<open>switch\<close>: the goroutine started for a phase.\<close>

definition phase_task :: "LeaderPhase \<Rightarrow> task list" where
  "phase_task p =
     (case p of
        PhaseObserve \<Rightarrow> [HObserve] | PhaseGrace \<Rightarrow> [HGrace] | PhaseReport \<Rightarrow> [HReport]
      | PhaseFinal \<Rightarrow> [HFinal] | PhaseTransmit \<Rightarrow> [HTransmit] | PhaseNil \<Rightarrow> [])"

text \<open>\<open>re.LeaderState.phaseCh <- p\<close> together with the orchestrator's receive and its next \<open>select\<close>.\<close>

definition send_phase :: "LeaderPhase \<Rightarrow> unit act" where
  "send_phase p = (\<lambda>re.
     case ls_phaseCh (re_LeaderState re) of
       (g, NilChan) \<Rightarrow> (Blocked, re, [])
     | (g, ClosedChan) \<Rightarrow> (Panicked SendOnClosedChannel, re, [])
     | (g, OpenChan) \<Rightarrow>
         if re_orch re = Some g then (Ok (), re, map ESpawn (phase_task p)) else (Blocked, re, []))"

definition set_phase :: "LeaderPhase \<Rightarrow> ReportingEngine \<Rightarrow> ReportingEngine" where
  "set_phase p re = re\<lparr>re_LeaderState := (re_LeaderState re)\<lparr>ls_Phase := p\<rparr>\<rparr>"

text \<open>\<open>SignMessage\<close> dereferences the signature before looking at the error.\<close>

definition SignMessage :: "env \<Rightarrow> ReportingEngine \<Rightarrow> bytes \<Rightarrow> (engine_error, Signature) res" where
  "SignMessage env re msg =
     (case PrivateKey_Sign (en_prims env) (en_rnd env) (re_signer re) msg of
        Ok sign \<Rightarrow> Ok sign
      | _ \<Rightarrow> Panicked NilDeref)"

text \<open>\<open>VerifySignature\<close>: \<open>Ok False\<close> stands for the pair \<open>(false, err)\<close>, its only false result.\<close>

definition VerifySignature ::
  "env \<Rightarrow> bytes \<Rightarrow> string \<Rightarrow> Signature \<Rightarrow> (engine_error, bool) res" where
  "VerifySignature env msgBytes fromID sg =
     (case StringToPublicKey (en_prims env) fromID of
        Ok pk \<Rightarrow> Signature_Verify (en_prims env) sg msgBytes pk
      | Err _ \<Rightarrow> Ok False
      | Panicked p \<Rightarrow> Panicked p
      | Blocked \<Rightarrow> Blocked)"

text \<open>\<open>var isPeer bool\<close> is only ever assigned false.\<close>

definition VerifySigAndPeer ::
  "env \<Rightarrow> ReportingEngine \<Rightarrow> bytes \<Rightarrow> string \<Rightarrow> Signature \<Rightarrow> (engine_error, bool) res" where
  "VerifySigAndPeer env re msg fromID sign =
     (case StringToPublicKey (en_prims env) fromID of
        Ok pk \<Rightarrow>
          res_bind (Signature_Verify (en_prims env) sign msg pk)
            (\<lambda>ifSigned.
               if \<not> re_msgService re then Panicked NilDeref
               else res_bind (en_isPeer env fromID)
                 (\<lambda>b. let isPeer = (if \<not> b then False else False) in Ok (ifSigned \<and> isPeer)))
      | Err _ \<Rightarrow> Ok False
      | Panicked p \<Rightarrow> Panicked p
      | Blocked \<Rightarrow> Blocked)"

text \<open>The chain of builder calls, with the engine's address, codec and identity.\<close>

definition engine_bytes ::
  "ReportingEngine \<Rightarrow> MessageType \<Rightarrow> MesageTopic \<Rightarrow> payload \<Rightarrow> Signature \<Rightarrow> (build_error, bytes) res" where
  "engine_bytes re h t p s =
     rpc_bytes (si_Addr (re_serverOpts re)) (si_Codec (re_serverOpts re)) (si_ID (re_serverOpts re)) h t p s"

text \<open>\<open>if err != nil { panic(err) }\<close>\<close>

definition must :: "(build_error, bytes) res \<Rightarrow> (engine_error, bytes) res" where
  "must r = (case r of
     Ok b \<Rightarrow> Ok b
   | Err e \<Rightarrow> Panicked (ExplicitPanic ''build'')
   | Panicked p \<Rightarrow> Panicked p
   | Blocked \<Rightarrow> Blocked)"

definition payload_bytes_re :: "ReportingEngine \<Rightarrow> payload \<Rightarrow> bytes option" where
  "payload_bytes_re re p = payload_Bytes (si_Codec (re_serverOpts re)) p"

subsection \<open>Prechecks\<close>

text \<open>
  Reflection on the payload: the fields \<open>Epoch\<close>, \<open>Round\<close>, \<open>Leader\<close> if the struct has all three, and
  the phase if its type is in \<open>typeToPhase\<close>. A pointer and the struct itself are treated alike.
\<close>

fun common_fields :: "payload \<Rightarrow> (u64 \<times> u64 \<times> string) option" where
  "common_fields (PObserveReq m) = Some (oq_Epoch m, oq_Round m, oq_Leader m)"
| "common_fields (PObserveResp m) = Some (or_Epoch m, or_Round m, or_Leader m)"
| "common_fields (PReportReq m) = Some (rq_Epoch m, rq_Round m, rq_Leader m)"
| "common_fields (PReportRes m) = Some (rr_Epoch m, rr_Round m, rr_Leader m)"
| "common_fields (PObservationMap m) = Some (om_Epoch m, om_Round m, om_Leader m)"
| "common_fields (PFinalReport m) = Some (bf_Epoch m, bf_Round m, bf_Leader m)"
| "common_fields (PFinalEcho m) = Some (fe_Epoch m, fe_Round m, fe_Leader m)"
| "common_fields (PProgressRound m) = Some (pr_Epoch m, pr_Round m, pr_Leader m)"
| "common_fields _ = None"

definition typeToPhase :: "payload \<Rightarrow> LeaderPhase option" where
  "typeToPhase p =
     (case p of
        PObserveReq _ \<Rightarrow> Some PhaseObserve | PObserveResp _ \<Rightarrow> Some PhaseObserve
      | PReportReq _ \<Rightarrow> Some PhaseReport | PReportRes _ \<Rightarrow> Some PhaseReport
      | PObservationMap _ \<Rightarrow> Some PhaseReport
      | PFinalReport _ \<Rightarrow> Some PhaseFinal | PFinalEcho _ \<Rightarrow> Some PhaseFinal
      | _ \<Rightarrow> None)"

fun any_payload :: "goany \<Rightarrow> payload" where
  "any_payload (Ptr p) = p"
| "any_payload (Val p) = p"

definition getCommonFieldsAndPhase ::
  "goany \<Rightarrow> (precheck_error, u64 \<times> u64 \<times> string \<times> LeaderPhase) res" where
  "getCommonFieldsAndPhase d =
     (case common_fields (any_payload d) of
        None \<Rightarrow> Err FieldsMissing
      | Some (e, r, l) \<Rightarrow>
          (case typeToPhase (any_payload d) of
             None \<Rightarrow> Err UnknownType
           | Some ph \<Rightarrow> Ok (e, r, l, ph)))"

definition rpcMsgPrechecks :: "ReportingEngine \<Rightarrow> DecodedMsg \<Rightarrow> (precheck_error, bool) res" where
  "rpcMsgPrechecks re msg =
     res_bind (getCommonFieldsAndPhase (dm_Data msg))
       (\<lambda>(epoch, round, leader, _).
          if epoch \<noteq> re_epoch re then Err WrongEpoch
          else if round \<noteq> re_curRound re then Err WrongRound
          else if leader \<noteq> re_leader re then Err WrongLeader
          else Ok True)"

subsection \<open>Construction and initialisation\<close>

definition fresh_LeaderState :: "nat \<Rightarrow> LeaderPhase \<Rightarrow> LeaderState" where
  "fresh_LeaderState g ph =
     \<lparr>ls_observations = [], ls_finalReport = None, ls_reports = [zero_Report],
      ls_finalReportAttestation = 0, ls_TimerRoundTimeout = Some zero_Timer,
      ls_TimerGrace = Some zero_Timer, ls_Phase = ph, ls_phaseCh = (g, OpenChan)\<rparr>"

definition NewReportingEngine ::
  "bool \<Rightarrow> u64 \<Rightarrow> string \<Rightarrow> ServerInfo \<Rightarrow> PacemakerGlobals \<Rightarrow> PrivateKey \<Rightarrow> ReportingEngine" where
  "NewReportingEngine isLeader epoch leader s_info p_globals signer =
     zero_engine
       \<lparr>re_epoch := epoch, re_serverOpts := s_info, re_leader := leader, re_jobSchedule := Some [],
        re_signer := signer, re_jobRegistry := Some [],
        re_LeaderState := fresh_LeaderState 0 (if isLeader then PhaseObserve else PhaseNil),
        re_curRound := INIT_ROUND, re_isLeader := isLeader, re_pacemakerGlobals := p_globals,
        re_msgService := True\<rparr>"

text \<open>\<open>initReporter\<close> takes the mutex; a new channel gets the next number.\<close>

definition initReporter ::
  "bool \<Rightarrow> u64 \<Rightarrow> string \<Rightarrow> ServerInfo \<Rightarrow> PacemakerGlobals \<Rightarrow> PrivateKey \<Rightarrow> ReportingEngine \<Rightarrow>
   (engine_error, ReportingEngine) res" where
  "initReporter isLeader epoch leader s_info p_globals signer re =
     (if re_mu re then Blocked
      else Ok (re\<lparr>re_epoch := epoch, re_serverOpts := s_info, re_leader := leader,
               re_jobSchedule := Some [], re_signer := signer, re_jobRegistry := Some [],
               re_LeaderState :=
                 fresh_LeaderState (Suc (fst (ls_phaseCh (re_LeaderState re))))
                   (if isLeader then PhaseObserve else PhaseNil),
               re_curRound := INIT_ROUND, re_isLeader := isLeader, re_pacemakerGlobals := p_globals,
               re_ready := False, re_cacheLayer := zero_CacheLayer, re_msgService := True\<rparr>))"

subsection \<open>Stopping\<close>

definition stop_timer :: "Timer option \<Rightarrow> (engine_error, Timer option) res" where
  "stop_timer t = (case t of None \<Rightarrow> Ok None | Some t \<Rightarrow> res_bind (Timer_Stop t) (\<lambda>t'. Ok (Some t')))"

text \<open>A nil channel is never ready, so the \<open>select\<close> takes its default branch and closes it.\<close>

definition cleanupFunc :: "ReportingEngine \<Rightarrow> (engine_error, ReportingEngine) res" where
  "cleanupFunc re =
     res_bind (if re_quitCh re = ClosedChan then Ok ClosedChan else close_chan (re_quitCh re)) (\<lambda>q.
     res_bind (if re_isLeader re then close_chan (snd (ls_phaseCh (re_LeaderState re)))
               else Ok (snd (ls_phaseCh (re_LeaderState re)))) (\<lambda>c.
     res_bind (stop_timer (ls_TimerRoundTimeout (re_LeaderState re))) (\<lambda>t1.
     res_bind (stop_timer (ls_TimerGrace (re_LeaderState re))) (\<lambda>t2.
       Ok (re\<lparr>re_quitCh := q,
              re_LeaderState := (re_LeaderState re)
                \<lparr>ls_phaseCh := (fst (ls_phaseCh (re_LeaderState re)), c),
                 ls_TimerRoundTimeout := t1, ls_TimerGrace := t2\<rparr>,
              re_jobSchedule := None, re_jobRegistry := None,
              re_cacheLayer := (re_cacheLayer re)\<lparr>observe_n := 0, report_n := 0\<rparr>,
              re_recEvents := False, re_msgService := False\<rparr>)))))"

definition ReportingEngine_Stop :: "ReportingEngine \<Rightarrow> (engine_error, ReportingEngine) res" where
  "ReportingEngine_Stop re =
     res_bind (close_chan (re_quitCh re)) (\<lambda>q. cleanupFunc (re\<lparr>re_quitCh := q\<rparr>))"

subsection \<open>The next round\<close>

definition progressToNextRound :: "ReportingEngine \<Rightarrow> ReportingEngine" where
  "progressToNextRound re =
     (let re' =
        (if si_ID (re_serverOpts re) = re_leader re then
           re\<lparr>re_LeaderState :=
              \<lparr>ls_observations = [], ls_finalReport = Some zero_finalreport, ls_reports = [zero_Report],
               ls_finalReportAttestation = 0, ls_TimerRoundTimeout = None, ls_TimerGrace = None,
               ls_Phase = PhaseObserve,
               ls_phaseCh = (Suc (fst (ls_phaseCh (re_LeaderState re))), OpenChan)\<rparr>\<rparr>
         else re\<lparr>re_cacheLayer := zero_CacheLayer\<rparr>)
      in re'\<lparr>re_curRound := re_curRound re + 1\<rparr>)"

end
