(* ===== verification/Leader.thy ===== *)
theory Leader
  imports Engine
begin

text \<open>
  \<open>ocr/leader.go\<close>: what the leader does in each phase of a round, and \<open>ocr/transmitter.go\<close>. Each
  handler runs in the goroutine the orchestrator starts for its phase.
\<close>

section \<open>Definitions\<close>

definition GetJobInfosForCurrRound :: "ReportingEngine \<Rightarrow> JobInfo list" where
  "GetJobInfosForCurrRound re =
     (let js = (case re_jobSchedule re of None \<Rightarrow> [] | Some m \<Rightarrow> gm_get0 [] m (re_curRound re))
      in map (\<lambda>job. \<lparr>ji_JobID = dr_JobID job, ji_JobType = dr_JobType job,
                     ji_Template = TParams (DirectRequest_Payload job), ji_Timeout = TaskTimeout job\<rparr>) js)"

definition handleObserve :: "unit act" where
  "handleObserve = reading (\<lambda>re.
     let observeReqMsg = PObserveReq \<lparr>oq_Epoch = re_epoch re, oq_Round = re_curRound re,
           oq_Leader = re_leader re, oq_Jobs = GetJobInfosForCurrRound re\<rparr>
     in seqA (lift_res (must (engine_bytes re MessageObserveReq TopicReporter observeReqMsg zero_Signature)))
          (\<lambda>rpcMsg. thenA (BroadcastMsg_re rpcMsg)
             (seqA (lift_res (NewTimer RoundTmeout))
               (\<lambda>t. upd (\<lambda>re. re\<lparr>re_LeaderState := (re_LeaderState re)
                   \<lparr>ls_TimerRoundTimeout := Some t, ls_Phase := PhaseObserve\<rparr>\<rparr>)))))"

text \<open>\<open>time.AfterFunc\<close> starts the function in a goroutine of its own once the grace period is over.\<close>

definition handleGrace :: "unit act" where
  "handleGrace = emit (ESpawn HGraceOver)"

definition graceOver :: "unit act" where
  "graceOver = thenA (upd (set_phase PhaseReport)) (send_phase PhaseReport)"

text \<open>\<open>broadcastObservationMap\<close>: an error of the builder is returned, \<open>Ok False\<close> here.\<close>

definition broadcastObservationMap :: "bytes \<Rightarrow> bool act" where
  "broadcastObservationMap data = reading (\<lambda>re.
     case engine_bytes re MessageObservationMap TopicReporter
            (PObservationMap \<lparr>om_Epoch = re_epoch re, om_Round = re_curRound re,
               om_Leader = re_leader re, om_Observations = data\<rparr>) zero_Signature of
       Ok rpcMsg \<Rightarrow> thenA (BroadcastMsg_re rpcMsg) (ret True)
     | Err _ \<Rightarrow> ret False
     | Panicked p \<Rightarrow> lift_res (Panicked p)
     | Blocked \<Rightarrow> lift_res Blocked)"

definition handleReport :: "unit act" where
  "handleReport = reading (\<lambda>re.
     let data = ObservationSafeMap_MarshalJSON (ls_observations (re_LeaderState re)) in
     seqA (broadcastObservationMap data) (\<lambda>sent.
       if \<not> sent then ret ()
       else
         let reportReq = PReportReq \<lparr>rq_Epoch = re_epoch re, rq_Round = re_curRound re,
               rq_Leader = re_leader re, rq_Observations = data\<rparr>
         in seqA (lift_res (must (engine_bytes re MessageReportReq TopicReporter reportReq zero_Signature)))
              BroadcastMsg_re))"

text \<open>A signed message: encode the payload, sign the bytes, build the message.\<close>

definition signed_bytes ::
  "env \<Rightarrow> ReportingEngine \<Rightarrow> MessageType \<Rightarrow> payload \<Rightarrow> (build_error, bytes) res option act" where
  "signed_bytes env re h p =
     (case payload_bytes_re re p of
        None \<Rightarrow> ret None
      | Some msgBytes \<Rightarrow>
          seqA (lift_res (SignMessage env re msgBytes))
            (\<lambda>signature. ret (Some (engine_bytes re h TopicReporter p signature))))"

definition handleFinal :: "env \<Rightarrow> unit act" where
  "handleFinal env = reading (\<lambda>re.
     case ls_finalReport (re_LeaderState re) of
       None \<Rightarrow> ret ()
     | Some fr \<Rightarrow>
         seqA (signed_bytes env re MessageFinalReport
                (PFinalReport \<lparr>bf_Epoch = re_epoch re, bf_Round = re_curRound re,
                   bf_Leader = re_leader re, bf_FinalReport = fr\<rparr>))
           (\<lambda>b. case b of
                  None \<Rightarrow> ret ()
                | Some rpcMsg \<Rightarrow> seqA (lift_res (must rpcMsg)) BroadcastMsg_re))"

definition NewTransmitter :: "u64 \<Rightarrow> u64 \<Rightarrow> string \<Rightarrow> DirectRequest \<Rightarrow> Transmitter" where
  "NewTransmitter e r l j = \<lparr>tr_epoch = e, tr_round = r, tr_leader = l, tr_job = j\<rparr>"

text \<open>\<open>Transmit\<close> only signals completion on the status channel.\<close>

definition Transmit :: "Transmitter \<Rightarrow> goval \<Rightarrow> bool list \<Rightarrow> effect \<times> bool list" where
  "Transmit t data done_ch = (ETransmit t data, done_ch @ [True])"

definition transmit_all :: "ReportingEngine \<Rightarrow> FinalReport \<Rightarrow> DirectRequest list \<Rightarrow> effect list \<times> bool list" where
  "transmit_all re fr jobs =
     fold (\<lambda>job (es, statusChan).
        case Transmit (NewTransmitter (re_epoch re) (re_curRound re) (re_leader re) job)
               (gm_get0 VNil (fr_Report fr) (dr_JobID job)) statusChan of
          (e, statusChan') \<Rightarrow> (es @ [e], statusChan')) jobs ([], [])"

text \<open>The jobs of the final report; \<open>Ok None\<close> when one is not in the registry.\<close>

fun find_jobs :: "(string, DirectRequest) gomap option \<Rightarrow> string list \<Rightarrow> (engine_error, DirectRequest list option) res" where
  "find_jobs reg [] = Ok (Some [])"
| "find_jobs reg (jobId # ids) =
     (case reg of
        None \<Rightarrow> Panicked NilDeref
      | Some m \<Rightarrow>
          (case map_of m jobId of
             None \<Rightarrow> Ok None
           | Some job \<Rightarrow> res_bind (find_jobs reg ids) (\<lambda>js. Ok (map_option (Cons job) js))))"

definition handleTransmit :: "env \<Rightarrow> unit act" where
  "handleTransmit env = reading (\<lambda>re.
     case ls_finalReport (re_LeaderState re) of
       None \<Rightarrow> lift_res (Panicked NilDeref)
     | Some fr \<Rightarrow>
         seqA (lift_res (find_jobs (re_jobRegistry re) (map fst (fr_Report fr)))) (\<lambda>js.
           case js of
             None \<Rightarrow> ret ()
           | Some jobs \<Rightarrow>
               thenA (\<lambda>re. (Ok (), re, fst (transmit_all re fr jobs)))
                 (seqA (signed_bytes env re MessageProgressRound
                     (PProgressRound \<lparr>pr_Epoch = re_epoch re, pr_Round = re_curRound re, pr_Leader = re_leader re\<rparr>))
                   (\<lambda>b. case b of
                      None \<Rightarrow> ret ()
                    | Some rpcMsg \<Rightarrow>
                        seqA (lift_res (must rpcMsg))
                          (\<lambda>m. thenA (BroadcastMsg_re m) (emit (ESpawn HProgress)))))))"

text \<open>The goroutines by the names the effects give them.\<close>

fun run_task :: "env \<Rightarrow> task \<Rightarrow> unit act" where
  "run_task env HObserve = handleObserve"
| "run_task env HGrace = handleGrace"
| "run_task env HGraceOver = graceOver"
| "run_task env HReport = handleReport"
| "run_task env HFinal = handleFinal env"
| "run_task env HTransmit = handleTransmit env"
| "run_task env HProgress = upd progressToNextRound"
| "run_task env HFollowing = lift_res Blocked"

section \<open>Lemmas\<close>

lemmas act_defs = ret_def lift_res_def upd_def emit_def seqA_def thenA_def reading_def

end
