(* ===== verification/Reporter.thy ===== *)
theory Reporter
  imports Leader
begin

text \<open>
  \<open>ReportingEngine.ProcessMessage\<close> of \<open>ocr/reporter.go\<close>, one definition per message, the schedule of
  the jobs and \<open>Start\<close>.

  The goroutines that run the jobs of a round are independent of each other; what depends on their
  interleaving is the order of their results, which follows \<open>en_finish\<close>. The queue of received events
  belongs to a library outside the repository: its operations are the record \<open>fifo_lib\<close> and the locale
  \<open>fifo_queue\<close> of the theory \<open>Schedule\<close> says what the program relies on.
\<close>

section \<open>Definitions\<close>

subsection \<open>OBSERVE-REQ\<close>

text \<open>The jobs made from the descriptions, up to the first that fails.\<close>

fun make_jobs :: "job_env \<Rightarrow> JobInfo list \<Rightarrow> DirectRequest list \<times> bool" where
  "make_jobs env [] = ([], False)"
| "make_jobs env (info # infos) =
     (case NewJobFromInfo env info of
        Ok job \<Rightarrow> (case make_jobs env infos of (js, failed) \<Rightarrow> (job # js, failed))
      | _ \<Rightarrow> ([], True))"

definition job_ctx :: "env \<Rightarrow> nat \<Rightarrow> JobInfo \<Rightarrow> ctx" where
  "job_ctx env i info = \<lparr>ctx_timeout = Some (sint (ji_Timeout info)), ctx_elapsed = en_elapsed env i\<rparr>"

text \<open>The goroutine of one job: its result, and the job as it leaves it.\<close>

definition observe_job ::
  "env \<Rightarrow> nat \<Rightarrow> DirectRequest \<times> JobInfo \<Rightarrow> (job_error, JobObservationResponse) res" where
  "observe_job env i ji =
     (case ji of (job, info) \<Rightarrow>
        res_bind (Run (en_job env) (job_ctx env i info) job) (\<lambda>job'.
        res_bind (Result (en_job env) job') (\<lambda>r.
          Ok \<lparr>JobId = ji_JobID info, Response = r\<rparr>)))"

fun run_state :: "job_env \<Rightarrow> ctx \<Rightarrow> nat \<Rightarrow> DirectReqTask list \<Rightarrow> DirectRequest \<Rightarrow> DirectRequest" where
  "run_state env c i [] dr = dr"
| "run_state env c i (task # tasks) dr =
     (if ctx_done c i then dr
      else (case Execute env task dr of Ok dr' \<Rightarrow> run_state env c (Suc i) tasks dr' | _ \<Rightarrow> dr))"

definition job_after :: "env \<Rightarrow> nat \<Rightarrow> DirectRequest \<times> JobInfo \<Rightarrow> DirectRequest" where
  "job_after env i ji =
     (case ji of (job, info) \<Rightarrow>
        case Run (en_job env) (job_ctx env i info) job of
          Ok job' \<Rightarrow> job'
        | _ \<Rightarrow> run_state (en_job env) (job_ctx env i info) 0 (ObservationSource (dr_params job)) job)"

definition by_finish :: "env \<Rightarrow> 'a list \<Rightarrow> 'a list" where
  "by_finish env xs = map snd (sort_key (\<lambda>(i, _). en_finish env i) (enumerate 0 xs))"

fun res_Oks :: "('e, 'a) res list \<Rightarrow> 'a list" where
  "res_Oks [] = []"
| "res_Oks (Ok a # rs) = a # res_Oks rs"
| "res_Oks (_ # rs) = res_Oks rs"

fun res_Errs :: "('e, 'a) res list \<Rightarrow> 'e list" where
  "res_Errs [] = []"
| "res_Errs (Err e # rs) = e # res_Errs rs"
| "res_Errs (_ # rs) = res_Errs rs"

fun res_panic :: "('e, 'a) res list \<Rightarrow> panic option" where
  "res_panic [] = None"
| "res_panic (Panicked p # rs) = Some p"
| "res_panic (_ # rs) = res_panic rs"

text \<open>The branch for a round past the last one: broadcast NEWEPOCH and stop.\<close>

definition finish_rounds :: "unit act" where
  "finish_rounds = reading (\<lambda>re.
     if word_of_nat MAX_ROUNDS <s re_curRound re then
       seqA (lift_res (must (engine_bytes re MessageNewEpoch TopicPacemaker
               (PNewEpoch \<lparr>ne_EpochID = 0\<rparr>) zero_Signature)))
         (\<lambda>rpcMsg. thenA (BroadcastMsg_re rpcMsg)
            (\<lambda>re. case ReportingEngine_Stop re of
                    Ok re' \<Rightarrow> (Ok (), re', [])
                  | Err e \<Rightarrow> (Err e, re, [])
                  | Panicked p \<Rightarrow> (Panicked p, re, [])
                  | Blocked \<Rightarrow> (Blocked, re, [])))
     else ret ())"

text \<open>Sign a response and send it to the leader; an encoding error ends the handler quietly.\<close>

definition respond :: "env \<Rightarrow> MessageType \<Rightarrow> payload \<Rightarrow> unit act" where
  "respond env h p = reading (\<lambda>re.
     seqA (signed_bytes env re h p)
       (\<lambda>b. case b of
              None \<Rightarrow> ret ()
            | Some rpcMsg \<Rightarrow> seqA (lift_res (must rpcMsg)) (SendMsg_re (re_leader re))))"

definition observe_round :: "env \<Rightarrow> JobInfo list \<Rightarrow> unit act" where
  "observe_round env infos = reading (\<lambda>re.
     case make_jobs (en_job env) infos of (jobs, failed) \<Rightarrow>
       let started = zip jobs infos;
           outs = map (\<lambda>(i, ji). observe_job env i ji) (enumerate 0 started);
           ran = map (\<lambda>(i, ji). job_after env i ji) (enumerate 0 started)
       in thenA (upd (\<lambda>re. re\<lparr>re_cacheLayer := (re_cacheLayer re)\<lparr>c_jobs := c_jobs (re_cacheLayer re) @ ran\<rparr>\<rparr>))
            (case res_panic outs of
               Some p \<Rightarrow> lift_res (Panicked p)
             | None \<Rightarrow>
                 if failed then ret ()
                 else (case res_Errs (by_finish env outs) of
                         e # _ \<Rightarrow> lift_res (Err (JobFailed e))
                       | [] \<Rightarrow>
                           respond env MessageObserveRes
                             (PObserveResp \<lparr>or_Epoch = re_epoch re, or_Round = re_curRound re,
                                or_Leader = re_leader re,
                                or_JobResponses = res_Oks (by_finish env outs)\<rparr>))))"

definition process_ObserveReq :: "env \<Rightarrow> ObserveReq \<Rightarrow> unit act" where
  "process_ObserveReq env m =
     thenA (upd (\<lambda>re. re\<lparr>re_curRound := oq_Round m\<rparr>))
       (thenA finish_rounds (observe_round env (oq_Jobs m)))"

subsection \<open>OBSERVE-RES\<close>

definition group_responses :: "JobObservationResponse list \<Rightarrow> JobObservations" where
  "group_responses rs = fold (\<lambda>j m. gm_put (JobId j) (gm_get0 [] m (JobId j) @ [j]) m) rs []"

text \<open>
  The verification both responses go through: \<open>Ok None\<close> when the handler returns early (the payload
  cannot be encoded, the sender's identity is no key).
\<close>

definition verify_response :: "env \<Rightarrow> ReportingEngine \<Rightarrow> DecodedMsg \<Rightarrow> payload \<Rightarrow> (engine_error, bool option) res" where
  "verify_response env re msg p =
     (case payload_bytes_re re p of
        None \<Rightarrow> Ok None
      | Some msgBytes \<Rightarrow>
          (case StringToPublicKey (en_prims env) (dm_FromId msg) of
             Ok pk \<Rightarrow>
               res_bind (Signature_Verify (en_prims env) (dm_Signature msg) msgBytes pk) (\<lambda>b. Ok (Some b))
           | Err _ \<Rightarrow> Ok None
           | Panicked q \<Rightarrow> Panicked q
           | Blocked \<Rightarrow> Blocked))"

definition store_observation :: "string \<Rightarrow> ObserveResp \<Rightarrow> ReportingEngine \<Rightarrow> ReportingEngine" where
  "store_observation from m re =
     re\<lparr>re_LeaderState := (re_LeaderState re)
          \<lparr>ls_observations :=
             Store from (group_responses (or_JobResponses m)) (ls_observations (re_LeaderState re))\<rparr>,
        re_cacheLayer := (re_cacheLayer re)\<lparr>observe_n := observe_n (re_cacheLayer re) + 1\<rparr>\<rparr>"

definition process_ObserveResp :: "env \<Rightarrow> DecodedMsg \<Rightarrow> ObserveResp \<Rightarrow> unit act" where
  "process_ObserveResp env msg m = reading (\<lambda>re.
     if or_Round m = re_curRound re \<and> or_Epoch m = re_epoch re then
       seqA (lift_res (verify_response env re msg (PObserveResp m))) (\<lambda>v.
         if v = Some True then
           thenA (upd (store_observation (dm_FromId msg) m))
             (reading (\<lambda>re.
                if 2 * pg_f (re_pacemakerGlobals re) + 1 < observe_n (re_cacheLayer re)
                then thenA (upd (set_phase PhaseGrace)) (send_phase PhaseGrace)
                else ret ()))
         else ret ())
     else ret ())"

subsection \<open>The observation map and REPORT-REQ\<close>

definition process_ObservationMap :: "BroadcastObservationMap \<Rightarrow> unit act" where
  "process_ObservationMap m =
     (case ObservationSafeMap_UnmarshalJSON (om_Observations m) [] of
        None \<Rightarrow> lift_res (Err UnmarshalObservations)
      | Some obsMap \<Rightarrow>
          upd (\<lambda>re. re\<lparr>re_cacheLayer := (re_cacheLayer re)\<lparr>follower_observations := obsMap\<rparr>\<rparr>))"

definition group_by_job :: "ObservationSafeMap \<Rightarrow> JobObservations" where
  "group_by_job obsMap =
     Iterate (\<lambda>peerID peerObservations acc.
       (fold (\<lambda>(jobID, observations) m. gm_put jobID (gm_get0 [] m jobID @ observations) m)
          peerObservations acc, True)) obsMap []"

text \<open>A job that is not in the registry is a nil interface; a failing assembly skips the job.\<close>

definition assemble_job ::
  "(string, DirectRequest) gomap option \<Rightarrow> string \<times> JobObservationResponse list \<Rightarrow> JobReports \<Rightarrow>
   (engine_error, JobReports) res" where
  "assemble_job reg e acc =
     (case e of (jobID, observations) \<Rightarrow>
        case Option.bind reg (\<lambda>m. map_of m jobID) of
          None \<Rightarrow> Panicked NilDeref
        | Some job \<Rightarrow>
            (case Job_Assemble job observations of
               Ok v \<Rightarrow> Ok (gm_put jobID v acc)
             | Err _ \<Rightarrow> Ok acc
             | Panicked p \<Rightarrow> Panicked p
             | Blocked \<Rightarrow> Blocked))"

definition process_ReportReq :: "env \<Rightarrow> ReportReq \<Rightarrow> unit act" where
  "process_ReportReq env m = reading (\<lambda>re.
     case ObservationSafeMap_UnmarshalJSON (rq_Observations m) [] of
       None \<Rightarrow> lift_res (Err UnmarshalObservations)
     | Some obsMap \<Rightarrow>
         if \<not> CompareHashes (sha256 (en_prims env))
               [rq_Observations m, ObservationSafeMap_MarshalJSON (follower_observations (re_cacheLayer re))]
         then ret ()
         else
           seqA (lift_res (foldM (assemble_job (re_jobRegistry re)) (group_by_job (en_obs_order env obsMap)) []))
             (\<lambda>jobReportValues.
                thenA (upd (\<lambda>re. re\<lparr>re_cacheLayer := (re_cacheLayer re)\<lparr>jobReports := jobReportValues\<rparr>\<rparr>))
                  (respond env MessageReportRes
                     (PReportRes \<lparr>rr_Epoch = re_epoch re, rr_Round = re_curRound re,
                        rr_Leader = re_leader re, rr_Reports = jobReportValues\<rparr>))))"

subsection \<open>REPORT-RES\<close>

definition add_report :: "DecodedMsg \<Rightarrow> ReportRes \<Rightarrow> ReportingEngine \<Rightarrow> ReportingEngine" where
  "add_report msg m re =
     re\<lparr>re_LeaderState := (re_LeaderState re)
          \<lparr>ls_reports := ls_reports (re_LeaderState re) @
             [\<lparr>rep_from = dm_FromId msg, rep_reports = rr_Reports m, rep_sig = dm_Signature msg\<rparr>]\<rparr>\<rparr>"

definition process_ReportRes :: "env \<Rightarrow> DecodedMsg \<Rightarrow> ReportRes \<Rightarrow> unit act" where
  "process_ReportRes env msg m = reading (\<lambda>re.
     seqA (lift_res (verify_response env re msg (PReportRes m))) (\<lambda>v.
       if v = Some True then
         thenA (upd (add_report msg m))
           (reading (\<lambda>re.
              if sint (pg_n (re_pacemakerGlobals re)) \<le> int (length (ls_reports (re_LeaderState re))) then
                (case assembleFinalReport (en_rj env) (en_rh env) (response_H env)
                        (pg_f (re_pacemakerGlobals re)) (ls_reports (re_LeaderState re)) of
                   Ok (Some finalR) \<Rightarrow>
                     thenA (upd (\<lambda>re. set_phase PhaseFinal
                         (re\<lparr>re_LeaderState := (re_LeaderState re)\<lparr>ls_finalReport := Some finalR\<rparr>\<rparr>)))
                       (send_phase PhaseFinal)
                 | Ok None \<Rightarrow> ret ()
                 | Err _ \<Rightarrow> ret ()
                 | Panicked p \<Rightarrow> lift_res (Panicked p)
                 | Blocked \<Rightarrow> lift_res Blocked)
              else ret ()))
       else ret ()))"

subsection \<open>FINAL-REPORT and FINAL-ECHO\<close>

text \<open>
  The loop over the signatories, with the identities already counted and their number: \<open>Ok None\<close> when
  the handler gives up (an identity that is no key or no peer).
\<close>

fun count_signatories ::
  "env \<Rightarrow> bool \<Rightarrow> bytes \<Rightarrow> int \<Rightarrow> Signatories list \<Rightarrow> string list \<Rightarrow> nat \<Rightarrow> (engine_error, nat option) res" where
  "count_signatories env srv msgBytes threshold [] uniqueValidators n = Ok (Some n)"
| "count_signatories env srv msgBytes threshold (s # ss) uniqueValidators n =
     (case StringToPublicKey (en_prims env) (sg_ID s) of
        Ok pk \<Rightarrow>
          if \<not> srv then Panicked NilDeref
          else res_bind (en_isPeer env (sg_ID s)) (\<lambda>isPeer.
            if \<not> isPeer then Ok None
            else res_bind (Signature_Verify (en_prims env) (sg_Sign s) msgBytes pk) (\<lambda>valid.
              let new = valid \<and> sg_ID s \<notin> set uniqueValidators;
                  u' = (if new then sg_ID s # uniqueValidators else uniqueValidators);
                  n' = (if new then n + 1 else n)
              in if threshold \<le> int n' then Ok (Some n')
                 else count_signatories env srv msgBytes threshold ss u' n'))
      | Err _ \<Rightarrow> Ok None
      | Panicked p \<Rightarrow> Panicked p
      | Blocked \<Rightarrow> Blocked)"

definition sendFinalReportEcho :: "env \<Rightarrow> unit act" where
  "sendFinalReportEcho env = reading (\<lambda>re.
     seqA (signed_bytes env re MessageFinalEcho
             (PFinalEcho \<lparr>fe_Epoch = re_epoch re, fe_Round = re_curRound re, fe_Leader = re_leader re\<rparr>))
       (\<lambda>b. case b of
              Some (Ok rpcMsg) \<Rightarrow> SendMsg_re (re_leader re) rpcMsg
            | Some (Panicked p) \<Rightarrow> lift_res (Panicked p)
            | Some Blocked \<Rightarrow> lift_res Blocked
            | _ \<Rightarrow> lift_res (Err BytesFailed)))"

definition ignore_err :: "unit act \<Rightarrow> unit act" where
  "ignore_err m = (\<lambda>re. case m re of (Err e, re', es) \<Rightarrow> (Ok (), re', es) | r \<Rightarrow> r)"

definition process_FinalReport :: "env \<Rightarrow> DecodedMsg \<Rightarrow> BroadcastFinalReport \<Rightarrow> unit act" where
  "process_FinalReport env msg m = reading (\<lambda>re.
     case payload_bytes_re re (PFinalReport m) of
       None \<Rightarrow> ret ()
     | Some msgBytes \<Rightarrow>
         seqA (lift_res (VerifySignature env msgBytes (dm_FromId msg) (dm_Signature msg))) (\<lambda>isSigned.
           if \<not> isSigned then ret ()
           else
             let threshold = sint (pg_f (re_pacemakerGlobals re) + 1) in
             seqA (lift_res (count_signatories env (re_msgService re) msgBytes threshold
                      (fr_Signatories (bf_FinalReport m)) [] 0)) (\<lambda>c.
               case c of
                 None \<Rightarrow> ret ()
               | Some validSignatures \<Rightarrow>
                   if int validSignatures < threshold then ret ()
                   else thenA (upd (\<lambda>re. re\<lparr>re_cacheLayer := (re_cacheLayer re)\<lparr>c_finalReport := bf_FinalReport m\<rparr>\<rparr>))
                          (ignore_err (sendFinalReportEcho env)))))"

definition process_FinalEcho :: "env \<Rightarrow> DecodedMsg \<Rightarrow> FinalEcho \<Rightarrow> unit act" where
  "process_FinalEcho env msg m = reading (\<lambda>re.
     if fe_Epoch m \<noteq> re_epoch re \<or> fe_Round m \<noteq> re_curRound re \<or> fe_Leader m \<noteq> re_leader re then ret ()
     else (case payload_bytes_re re (PFinalEcho m) of
             None \<Rightarrow> ret ()
           | Some msgBytes \<Rightarrow>
               seqA (lift_res (VerifySigAndPeer env re msgBytes (dm_FromId msg) (dm_Signature msg))) (\<lambda>signed.
                 if signed then
                   thenA (upd (\<lambda>re. re\<lparr>re_LeaderState := (re_LeaderState re)
                       \<lparr>ls_finalReportAttestation := ls_finalReportAttestation (re_LeaderState re) + 1\<rparr>\<rparr>))
                     (reading (\<lambda>re.
                        if pg_f (re_pacemakerGlobals re) + 1 \<le> ls_finalReportAttestation (re_LeaderState re)
                        then thenA (upd (set_phase PhaseTransmit)) (send_phase PhaseTransmit)
                        else ret ()))
                 else ret ())))"

definition process_ProgressRound :: "env \<Rightarrow> DecodedMsg \<Rightarrow> ProgressRound \<Rightarrow> unit act" where
  "process_ProgressRound env msg m = reading (\<lambda>re.
     case payload_bytes_re re (PProgressRound m) of
       None \<Rightarrow> lift_res (Err BytesFailed)
     | Some msgBytes \<Rightarrow>
         seqA (lift_res (VerifySignature env msgBytes (re_leader re) (dm_Signature msg))) (\<lambda>isSigned.
           if \<not> isSigned then lift_res (Err LeaderSignature) else emit (ESpawn HProgress)))"

subsection \<open>ProcessMessage\<close>

text \<open>The type switch: only pointers to the structs have a case.\<close>

fun dispatch :: "env \<Rightarrow> DecodedMsg \<Rightarrow> goany \<Rightarrow> unit act" where
  "dispatch env msg (Ptr (PObserveReq m)) = process_ObserveReq env m"
| "dispatch env msg (Ptr (PObserveResp m)) = process_ObserveResp env msg m"
| "dispatch env msg (Ptr (PObservationMap m)) = process_ObservationMap m"
| "dispatch env msg (Ptr (PReportReq m)) = process_ReportReq env m"
| "dispatch env msg (Ptr (PReportRes m)) = process_ReportRes env msg m"
| "dispatch env msg (Ptr (PFinalReport m)) = process_FinalReport env msg m"
| "dispatch env msg (Ptr (PFinalEcho m)) = process_FinalEcho env msg m"
| "dispatch env msg (Ptr (PProgressRound m)) = process_ProgressRound env msg m"
| "dispatch env msg _ = ret ()"

text \<open>The mutex is taken first; the early return of an engine that is not ready does not release it.\<close>

definition ReportingEngine_ProcessMessage :: "env \<Rightarrow> DecodedMsg \<Rightarrow> unit act" where
  "ReportingEngine_ProcessMessage env msg = (\<lambda>re.
     if re_mu re then (Blocked, re, [])
     else if \<not> re_ready re then (Err NotReady, re\<lparr>re_mu := True\<rparr>, [])
     else (case rpcMsgPrechecks re msg of
             Ok True \<Rightarrow> dispatch env msg (dm_Data msg) re
           | Ok False \<Rightarrow> (Err (PrecheckFailed UnknownType), re, [])
           | Err e \<Rightarrow> (Err (PrecheckFailed e), re, [])
           | Panicked p \<Rightarrow> (Panicked p, re, [])
           | Blocked \<Rightarrow> (Blocked, re, [])))"

subsection \<open>Start\<close>

text \<open>An element of the pacemaker's queue, an \<open>interface{}\<close>: the pacemaker only adds responses.\<close>

datatype queue_item = QJob DirectRequest | QEvent JobEventResponse

record 'q fifo_lib =
  fifo_New :: 'q
  fifo_Len :: "'q \<Rightarrow> nat"
  fifo_Add :: "queue_item \<Rightarrow> 'q \<Rightarrow> 'q"
  fifo_Next :: "'q \<Rightarrow> queue_item option \<times> 'q"

type_synonym schedule = "(u64, DirectRequest list) gomap"

definition schedule_one ::
  "'q fifo_lib \<Rightarrow> u64 \<Rightarrow> nat \<Rightarrow> 'q \<times> schedule \<Rightarrow> (engine_error, 'q \<times> schedule) res" where
  "schedule_one lib i j st =
     (case st of (q, sched) \<Rightarrow>
        case fifo_Next lib q of
          (Some (QJob job), q') \<Rightarrow> Ok (q', gm_put i (gm_get0 [] sched i @ [job]) sched)
        | (_, q') \<Rightarrow> Panicked TypeAssertion)"

text \<open>\<open>for i := 0; i < MAX_ROUNDS; i++ { for j := 1; j < jobs_per_round; j++ { ... } }\<close>\<close>

definition schedule_jobs ::
  "'q fifo_lib \<Rightarrow> 'q \<Rightarrow> schedule \<Rightarrow> (engine_error, 'q \<times> schedule) res" where
  "schedule_jobs lib q sched =
     (let jobs_per_round = fifo_Len lib q div MAX_ROUNDS in
      foldM (\<lambda>i. foldM (schedule_one lib (word_of_nat i)) [1..<jobs_per_round]) [0..<MAX_ROUNDS] (q, sched))"

definition ReportingEngine_Start ::
  "'q fifo_lib \<Rightarrow> 'q \<Rightarrow> (string, DirectRequest) gomap \<Rightarrow> ReportingEngine \<Rightarrow>
   ((engine_error, unit) res \<times> ReportingEngine \<times> effect list) \<times> 'q" where
  "ReportingEngine_Start lib recEvents jobReg re =
     (let re1 = re\<lparr>re_jobRegistry := Some jobReg\<rparr>;
          set_ready = (\<lambda>re. if re_mu re then (Blocked, re, []) else (Ok (), re\<lparr>re_ready := True\<rparr>, []))
      in if re_isLeader re then
           (let re2 = re1\<lparr>re_recEvents := True\<rparr> in
            case (case re_jobSchedule re of
                    None \<Rightarrow> (case schedule_jobs lib recEvents [] of
                               Ok (q, []) \<Rightarrow> Ok (q, None)
                             | Ok _ \<Rightarrow> Panicked (ExplicitPanic ''assignment to entry in nil map'')
                             | Err e \<Rightarrow> Err e
                             | Panicked p \<Rightarrow> Panicked p
                             | Blocked \<Rightarrow> Blocked)
                  | Some m \<Rightarrow> res_bind (schedule_jobs lib recEvents m) (\<lambda>(q, m'). Ok (q, Some m'))) of
              Ok (q, sched) \<Rightarrow>
                (thenA (upd (\<lambda>re. re\<lparr>re_orch := Some (fst (ls_phaseCh (re_LeaderState re)))\<rparr>))
                   (thenA (send_phase PhaseObserve) set_ready) (re2\<lparr>re_jobSchedule := sched\<rparr>), q)
            | Err e \<Rightarrow> ((Err e, re2, []), recEvents)
            | Panicked p \<Rightarrow> ((Panicked p, re2, []), recEvents)
            | Blocked \<Rightarrow> ((Blocked, re2, []), recEvents))
         else (thenA (emit (ESpawn HFollowing)) set_ready re1, recEvents))"

end
