(* ===== verification/EngineFrame.thy ===== *)
theory EngineFrame
  imports Reporter
begin

text \<open>
  Reasoning about the engine's actions: what an action changes and what it emits. The locale \<open>frame\<close>
  is the interface between the actions and the properties that are preserved by all of them: a
  reflexive and transitive relation between states and a set of allowed effects. Its lemmas lift the
  two through the combinators; the interpretations give the configuration, the quit channel and the
  phases the engine can reach.
\<close>

section \<open>The interface\<close>

definition keeps :: "(ReportingEngine \<Rightarrow> ReportingEngine \<Rightarrow> bool) \<Rightarrow> (effect \<Rightarrow> bool) \<Rightarrow> 'a act \<Rightarrow> bool" where
  "keeps R E m \<longleftrightarrow> (\<forall>re. case m re of (r, re', es) \<Rightarrow> R re re' \<and> list_all E es)"

named_theorems keep_rules \<open>what the combinators keep\<close>

lemma keepsI: "(\<And>re r re' es. m re = (r, re', es) \<Longrightarrow> R re re' \<and> list_all E es) \<Longrightarrow> keeps R E m"
  unfolding keeps_def by (auto split: prod.split)

lemma keepsD: "keeps R E m \<Longrightarrow> m re = (r, re', es) \<Longrightarrow> R re re' \<and> list_all E es"
  unfolding keeps_def by (auto split: prod.splits)

locale frame =
  fixes R :: "ReportingEngine \<Rightarrow> ReportingEngine \<Rightarrow> bool"
    and E :: "effect \<Rightarrow> bool"
  assumes R_refl: "R re re"
    and R_trans: "R a b \<Longrightarrow> R b c \<Longrightarrow> R a c"
begin

lemma keeps_ret [keep_rules]: "keeps R E (ret a)"
  by (simp add: keeps_def ret_def R_refl)

lemma keeps_lift [keep_rules]: "keeps R E (lift_res r)"
  by (simp add: keeps_def lift_res_def R_refl)

lemma keeps_upd [keep_rules]: "(\<And>re. R re (f re)) \<Longrightarrow> keeps R E (upd f)"
  by (simp add: keeps_def upd_def)

lemma keeps_emit [keep_rules]: "E e \<Longrightarrow> keeps R E (emit e)"
  by (simp add: keeps_def emit_def R_refl)

lemma keeps_reading [keep_rules]: "(\<And>re. keeps R E (k re)) \<Longrightarrow> keeps R E (reading k)"
  by (simp add: keeps_def reading_def)

lemma keeps_seq [keep_rules]:
  assumes "keeps R E m" and "\<And>a. keeps R E (k a)" shows "keeps R E (seqA m k)"
proof (rule keepsI)
  fix re r re' es assume s: "seqA m k re = (r, re', es)"
  obtain q re1 es1 where m: "m re = (q, re1, es1)" by (cases "m re") auto
  note m' = keepsD [OF assms(1) m]
  show "R re re' \<and> list_all E es"
  proof (cases q)
    case (Ok a)
    obtain r2 re2 es2 where k: "k a re1 = (r2, re2, es2)" by (cases "k a re1") auto
    have "re' = re2" "es = es1 @ es2" using s by (simp_all add: seqA_def m Ok k)
    then show ?thesis using m' keepsD [OF assms(2) k] R_trans by auto
  qed (use s m' m in \<open>auto simp: seqA_def\<close>)
qed

text \<open>A continuation only sees values its computation can give.\<close>

lemma keeps_lift_seq: "(\<And>a. r = Ok a \<Longrightarrow> keeps R E (k a)) \<Longrightarrow> keeps R E (seqA (lift_res r) k)"
  by (cases r) (simp_all add: keeps_def seqA_def lift_res_def R_refl split: prod.splits)

lemma keeps_then [keep_rules]: "keeps R E m \<Longrightarrow> keeps R E k \<Longrightarrow> keeps R E (thenA m k)"
  by (simp add: thenA_def keeps_seq)

lemma keeps_if [keep_rules]: "keeps R E m \<Longrightarrow> keeps R E k \<Longrightarrow> keeps R E (if b then m else k)"
  by simp

lemma keeps_ignore [keep_rules]: "keeps R E m \<Longrightarrow> keeps R E (ignore_err m)"
  unfolding keeps_def ignore_err_def by (auto split: prod.splits res.splits)

lemma keeps_phase [keep_rules]:
  "(\<And>t. t \<in> set (phase_task p) \<Longrightarrow> E (ESpawn t)) \<Longrightarrow> keeps R E (send_phase p)"
  by (auto simp: keeps_def send_phase_def R_refl list_all_iff split: prod.split chan.split)

lemma keeps_broadcast: "(\<And>b. E (EBroadcast b)) \<Longrightarrow> keeps R E (BroadcastMsg_re b)"
  unfolding BroadcastMsg_re_def by (intro keep_rules)

lemma keeps_send: "(\<And>i b. E (ESend i b)) \<Longrightarrow> keeps R E (SendMsg_re i b)"
  unfolding SendMsg_re_def by (intro keep_rules)

end

section \<open>What the handlers of messages keep\<close>

lemma VerifySigAndPeer_never: "VerifySigAndPeer env re b i sg \<noteq> Ok True"
  by (auto simp: VerifySigAndPeer_def Let_def split: res.splits)
    (auto simp: res_bind_Ok_iff split: if_splits)

lemma assemble_jobs_wf: "foldM (assemble_job reg) xs acc = Ok vs \<Longrightarrow> gm_wf acc \<Longrightarrow> gm_wf vs"
proof (induction xs arbitrary: acc)
  case (Cons x xs)
  then obtain acc' where "assemble_job reg x acc = Ok acc'" "foldM (assemble_job reg) xs acc' = Ok vs"
    by (auto simp: res_bind_Ok_iff)
  moreover from this(1) Cons.prems(2) have "gm_wf acc'"
    by (auto simp: assemble_job_def gm_wf_put split: prod.splits option.splits res.splits)
  ultimately show ?case using Cons.IH by blast
qed simp

locale handler_frame = frame +
  assumes R_phase: "R re (set_phase p re)"
    and R_jobs: "R re (re\<lparr>re_cacheLayer := (re_cacheLayer re)\<lparr>c_jobs := js\<rparr>\<rparr>)"
    and R_follower: "ObservationSafeMap_UnmarshalJSON d [] = Some obs \<Longrightarrow>
      R re (re\<lparr>re_cacheLayer := (re_cacheLayer re)\<lparr>follower_observations := obs\<rparr>\<rparr>)"
    and R_reports: "gm_wf vs \<Longrightarrow> R re (re\<lparr>re_cacheLayer := (re_cacheLayer re)\<lparr>jobReports := vs\<rparr>\<rparr>)"
    and R_accepted: "R re (re\<lparr>re_cacheLayer := (re_cacheLayer re)\<lparr>c_finalReport := f\<rparr>\<rparr>)"
    and R_final: "R re (re\<lparr>re_LeaderState := (re_LeaderState re)\<lparr>ls_finalReport := fr\<rparr>\<rparr>)"
    and R_timer: "R re (re\<lparr>re_LeaderState := (re_LeaderState re)\<lparr>ls_TimerRoundTimeout := tm, ls_Phase := p\<rparr>\<rparr>)"
    and R_stop: "ReportingEngine_Stop re = Ok re' \<Longrightarrow> R re re'"
    and E_msgs: "E (EBroadcast b)" "E (ESend i b)"
    and E_tasks: "t \<noteq> HTransmit \<Longrightarrow> t \<noteq> HProgress \<Longrightarrow> E (ESpawn t)"
begin

lemmas msg_rules = keeps_broadcast [OF E_msgs(1)] keeps_send [OF E_msgs(2)]

lemma keeps_signed: "keeps R E (signed_bytes env re h p)"
  unfolding signed_bytes_def by (cases "payload_bytes_re re p") (auto intro!: keep_rules)

lemma keeps_respond: "keeps R E (respond env h p)"
  unfolding respond_def
  by (intro keep_rules keeps_signed) (auto split: option.split intro!: keep_rules msg_rules)

lemma keeps_finish_rounds: "keeps R E finish_rounds"
proof -
  have "keeps R E (\<lambda>re. case ReportingEngine_Stop re of
      Ok re' \<Rightarrow> (Ok (), re', []) | Err e \<Rightarrow> (Err e, re, []) | Panicked p \<Rightarrow> (Panicked p, re, [])
    | Blocked \<Rightarrow> (Blocked, re, []))"
    using R_stop R_refl by (auto simp: keeps_def split: res.split)
  then show ?thesis unfolding finish_rounds_def by (intro keep_rules msg_rules)
qed

lemma keeps_observe_round: "keeps R E (observe_round env infos)"
  unfolding observe_round_def Let_def
  by (intro keep_rules)
    (auto split: prod.split option.split list.split intro!: keep_rules keeps_respond R_jobs)

lemma keeps_ObservationMap: "keeps R E (process_ObservationMap m)"
  unfolding process_ObservationMap_def by (auto split: option.split intro!: keep_rules R_follower)

lemma keeps_ReportReq: "keeps R E (process_ReportReq env m)"
  unfolding process_ReportReq_def
  by (intro keep_rules)
    (auto split: option.split intro!: keep_rules keeps_lift_seq keeps_respond R_reports dest: assemble_jobs_wf)

lemma keeps_FinalReport: "keeps R E (process_FinalReport env msg m)"
proof -
  have "keeps R E (sendFinalReportEcho env)"
    unfolding sendFinalReportEcho_def
    by (intro keep_rules keeps_signed) (auto split: option.split res.split intro!: keep_rules msg_rules)
  then show ?thesis unfolding process_FinalReport_def Let_def
    by (auto split: option.split intro!: keep_rules R_accepted)
qed

text \<open>The branch of FINAL-ECHO that would count an attestation is never taken.\<close>

lemma keeps_FinalEcho: "keeps R E (process_FinalEcho env msg m)"
proof (rule keepsI)
  fix re r re' es assume "process_FinalEcho env msg m re = (r, re', es)"
  then show "R re re' \<and> list_all E es"
    using VerifySigAndPeer_never
    by (auto simp: process_FinalEcho_def act_defs R_refl split: if_splits option.splits res.splits bool.splits)
qed

lemma keeps_ProgressRound: "E (ESpawn HProgress) \<Longrightarrow> keeps R E (process_ProgressRound env msg m)"
  unfolding process_ProgressRound_def by (auto split: option.split intro!: keep_rules)

text \<open>The goroutines of the leader's phases up to the final report.\<close>

lemma keeps_handleObserve: "keeps R E handleObserve"
  unfolding handleObserve_def Let_def by (intro keep_rules msg_rules R_timer)

lemma keeps_handleReport: "keeps R E handleReport"
proof -
  have "keeps R E (broadcastObservationMap d)" for d
    unfolding broadcastObservationMap_def by (auto split: res.split intro!: keep_rules msg_rules)
  then show ?thesis unfolding handleReport_def Let_def by (intro keep_rules msg_rules)
qed

lemma keeps_handleFinal: "keeps R E (handleFinal env)"
  unfolding handleFinal_def by (auto split: option.split intro!: keep_rules keeps_signed msg_rules)

lemma keeps_task: "t \<noteq> HTransmit \<Longrightarrow> t \<noteq> HProgress \<Longrightarrow> keeps R E (run_task env t)"
  by (cases t)
    (auto simp: handleGrace_def graceOver_def phase_task_def
      intro!: keep_rules keeps_handleObserve keeps_handleReport keeps_handleFinal R_phase E_tasks)

lemmas keeps_handlers =
  keeps_finish_rounds keeps_observe_round keeps_ObservationMap keeps_ReportReq
  keeps_FinalReport keeps_FinalEcho

end

text \<open>The two handlers that store what a verified response brings.\<close>

locale response_frame = handler_frame +
  assumes R_observation: "R re (store_observation i m re)"
    and R_report: "R re (add_report msg rr re)"
begin

lemma keeps_ObserveResp: "keeps R E (process_ObserveResp env msg m)"
  unfolding process_ObserveResp_def by (intro keep_rules R_observation R_phase E_tasks) (simp_all add: phase_task_def)

lemma keeps_ReportRes: "keeps R E (process_ReportRes env msg m)"
proof -
  have "R re (set_phase PhaseFinal (re\<lparr>re_LeaderState := (re_LeaderState re)\<lparr>ls_finalReport := fr\<rparr>\<rparr>))" for re fr
    using R_trans [OF R_final R_phase] .
  then show ?thesis unfolding process_ReportRes_def
    by (auto split: option.split res.split simp: phase_task_def intro!: keep_rules R_report E_tasks)
qed

end

text \<open>
  The configuration of an engine, which no message changes, and the two relations: the quit channel
  stays nil (nothing ever makes it), and so stopping never gets as far as a change.
\<close>

definition config ::
  "ReportingEngine \<Rightarrow> (u64 \<times> string \<times> bool \<times> ServerInfo) \<times> PacemakerGlobals \<times> PrivateKey \<times> bool \<times>
     nat option \<times> bool \<times> (string, DirectRequest) gomap option \<times> (u64, DirectRequest list) gomap option" where
  "config re =
     ((re_epoch re, re_leader re, re_isLeader re, re_serverOpts re), re_pacemakerGlobals re, re_signer re,
      re_ready re, re_orch re, re_msgService re, re_jobRegistry re, re_jobSchedule re)"

definition same_config :: "ReportingEngine \<Rightarrow> ReportingEngine \<Rightarrow> bool" where
  "same_config re re' \<longleftrightarrow>
     (re_quitCh re = NilChan \<longrightarrow>
        re_quitCh re' = NilChan \<and> config re' = config re \<and> re_mu re' = re_mu re \<and>
        ls_phaseCh (re_LeaderState re') = ls_phaseCh (re_LeaderState re))"

definition same_round :: "ReportingEngine \<Rightarrow> ReportingEngine \<Rightarrow> bool" where
  "same_round re re' \<longleftrightarrow>
     (re_quitCh re = NilChan \<longrightarrow>
        re_quitCh re' = NilChan \<and> re_curRound re' = re_curRound re)"

definition no_progress :: "effect \<Rightarrow> bool" where
  "no_progress e \<longleftrightarrow> e \<noteq> ESpawn HTransmit \<and> e \<noteq> ESpawn HProgress"

lemma stop_nil: "re_quitCh re = NilChan \<Longrightarrow> ReportingEngine_Stop re = Panicked CloseOfNilChannel"
  by (simp add: ReportingEngine_Stop_def)

lemmas update_defs = store_observation_def set_phase_def add_report_def config_def

interpretation cfg: response_frame same_config no_progress
  by unfold_locales (auto simp: same_config_def no_progress_def update_defs stop_nil)

interpretation rnd: response_frame same_round no_progress
  by unfold_locales (auto simp: same_round_def no_progress_def update_defs stop_nil)

lemma dispatch_config:
  "(\<forall>m. d \<noteq> Ptr (PProgressRound m)) \<Longrightarrow> keeps same_config no_progress (dispatch env msg d)"
proof (cases "(env, msg, d)" rule: dispatch.cases)
  case (1 env msg m)
  have "keeps same_config no_progress (process_ObserveReq env m)"
    unfolding process_ObserveReq_def
    by (intro cfg.keeps_then cfg.keeps_upd cfg.keeps_handlers) (simp add: same_config_def config_def)
  with 1 show ?thesis by simp
qed (auto intro!: cfg.keeps_handlers cfg.keeps_ObserveResp cfg.keeps_ReportRes cfg.keeps_ret)

text \<open>A message that passes the prechecks carries the engine's round, so OBSERVE-REQ keeps it too.\<close>

lemma prechecks_round:
  "rpcMsgPrechecks re msg = Ok b \<Longrightarrow> b \<and> (\<exists>l e. common_fields (any_payload (dm_Data msg)) = Some (e, re_curRound re, l)) \<and>
     typeToPhase (any_payload (dm_Data msg)) \<noteq> None"
  by (auto simp: rpcMsgPrechecks_def getCommonFieldsAndPhase_def split: option.splits if_splits)

lemma dispatch_round:
  assumes "rpcMsgPrechecks re msg = Ok b" and "dispatch env msg (dm_Data msg) re = (r, re', es)"
  shows "same_round re re'"
proof -
  note pc = prechecks_round [OF assms(1)]
  consider m where "dm_Data msg = Ptr (PObserveReq m)"
    | "\<forall>m. dm_Data msg \<noteq> Ptr (PObserveReq m)" by blast
  then show ?thesis
  proof cases
    case 1
    with pc have "oq_Round m = re_curRound re" by auto
    then have "thenA finish_rounds (observe_round env (oq_Jobs m)) re = (r, re', es)"
      using assms(2) 1 by (simp add: process_ObserveReq_def act_defs split: prod.splits)
    then show ?thesis
      using keepsD [OF rnd.keeps_then [OF rnd.keeps_finish_rounds rnd.keeps_observe_round]] by blast
  next
    case 2
    have "keeps same_round no_progress (dispatch env msg (dm_Data msg))"
      using 2 pc
      by (cases "(env, msg, dm_Data msg)" rule: dispatch.cases)
        (auto intro!: rnd.keeps_handlers rnd.keeps_ObserveResp rnd.keeps_ReportRes rnd.keeps_ret simp: typeToPhase_def)
    from keepsD [OF this assms(2)] show ?thesis by blast
  qed
qed

section \<open>ProcessMessage\<close>

lemma ProcessMessage_cases:
  obtains (blocked) "re_mu re" "ReportingEngine_ProcessMessage env msg re = (Blocked, re, [])"
  | (not_ready) "\<not> re_mu re" "\<not> re_ready re"
      "ReportingEngine_ProcessMessage env msg re = (Err NotReady, re\<lparr>re_mu := True\<rparr>, [])"
  | (rejected) e where "\<not> re_mu re" "re_ready re" "rpcMsgPrechecks re msg = Err e"
      "ReportingEngine_ProcessMessage env msg re = (Err (PrecheckFailed e), re, [])"
  | (accepted) "\<not> re_mu re" "re_ready re" "rpcMsgPrechecks re msg = Ok True"
      "ReportingEngine_ProcessMessage env msg re = dispatch env msg (dm_Data msg) re"
proof -
  have "\<exists>e. rpcMsgPrechecks re msg = Err e \<or> rpcMsgPrechecks re msg = Ok True"
    by (auto simp: rpcMsgPrechecks_def getCommonFieldsAndPhase_def split: option.splits)
  then show thesis
    using that by (auto simp: ReportingEngine_ProcessMessage_def)
qed

text \<open>
  The guard of the message handler: a ready engine acts on a message exactly when the message is of
  a type the engine knows and carries the engine's epoch, round and leader; every other message is
  refused with an error, changes nothing and sends nothing.
\<close>

theorem message_guard:
  assumes "\<not> re_mu re" and "re_ready re"
  shows "if common_fields (any_payload (dm_Data msg)) = Some (re_epoch re, re_curRound re, re_leader re) \<and>
            typeToPhase (any_payload (dm_Data msg)) \<noteq> None
         then ReportingEngine_ProcessMessage env msg re = dispatch env msg (dm_Data msg) re
         else \<exists>e. ReportingEngine_ProcessMessage env msg re = (Err (PrecheckFailed e), re, [])"
  using assms
  by (auto simp: ReportingEngine_ProcessMessage_def rpcMsgPrechecks_def getCommonFieldsAndPhase_def
      split: option.splits)

lemma ProcessMessage_frame:
  assumes "re_quitCh re = NilChan" and "ReportingEngine_ProcessMessage env msg re = (r, re', es)"
  shows "config re' = config re \<and> re_curRound re' = re_curRound re \<and>
         ls_phaseCh (re_LeaderState re') = ls_phaseCh (re_LeaderState re) \<and>
         re_quitCh re' = NilChan \<and> ESpawn HTransmit \<notin> set es \<and> ESpawn HProgress \<notin> set es"
proof (cases rule: ProcessMessage_cases [of re env msg])
  case accepted
  then have d: "dispatch env msg (dm_Data msg) re = (r, re', es)" using assms(2) by simp
  have "\<forall>m. dm_Data msg \<noteq> Ptr (PProgressRound m)"
    using prechecks_round [OF accepted(3)] by (auto simp: typeToPhase_def)
  from keepsD [OF dispatch_config [OF this] d] dispatch_round [OF accepted(3) d] assms(1)
  show ?thesis by (auto simp: same_config_def same_round_def no_progress_def list_all_iff)
qed (use assms in \<open>auto simp: config_def\<close>)

text \<open>
  No message changes the epoch, the round, the leader, the role, the keys, the thresholds, the
  schedule or the phase channel of an engine, whatever it contains and whatever it makes the engine do;
  and no message makes the engine start the transmission or the next round.
\<close>

theorem message_frame:
  assumes "re_quitCh re = NilChan" and "ReportingEngine_ProcessMessage env msg re = (r, re', es)"
  shows "config re' = config re \<and> re_curRound re' = re_curRound re \<and>
         ls_phaseCh (re_LeaderState re') = ls_phaseCh (re_LeaderState re) \<and>
         re_quitCh re' = NilChan \<and> ESpawn HTransmit \<notin> set es \<and> ESpawn HProgress \<notin> set es"
  by (rule ProcessMessage_frame [OF assms])

text \<open>
  An engine that gets a message before it is ready is lost: \<open>ProcessMessage\<close> returns with the mutex
  held, after which every further message blocks its caller for ever and \<open>initReporter\<close> blocks too.
\<close>

theorem early_message_deadlock:
  assumes "\<not> re_mu re" and "\<not> re_ready re"
  shows "\<exists>re'. ReportingEngine_ProcessMessage env msg re = (Err NotReady, re', []) \<and>
           (\<forall>env' msg'. ReportingEngine_ProcessMessage env' msg' re' = (Blocked, re', [])) \<and>
           (\<forall>l e ld si pg sg. initReporter l e ld si pg sg re' = Blocked)"
  using assms by (simp add: ReportingEngine_ProcessMessage_def initReporter_def)

section \<open>The engine as a transition system\<close>

text \<open>
  The states an engine can reach together with the goroutines that are started and not yet run: it is
  initialised, started, handles messages in any order and any environment, and the goroutines run in
  any order.
\<close>

definition spawned :: "effect list \<Rightarrow> task list" where
  "spawned es = concat (map (\<lambda>e. case e of ESpawn t \<Rightarrow> [t] | _ \<Rightarrow> []) es)"

inductive engine_reach :: "'q fifo_lib \<Rightarrow> ReportingEngine \<Rightarrow> task multiset \<Rightarrow> bool" for lib where
  new: "engine_reach lib zero_engine {#}"
| init: "engine_reach lib re ts \<Longrightarrow> initReporter l e ld si pg sg re = Ok re' \<Longrightarrow> engine_reach lib re' ts"
| start: "engine_reach lib re ts \<Longrightarrow> ReportingEngine_Start lib q reg re = ((r, re', es), q') \<Longrightarrow>
    engine_reach lib re' (ts + mset (spawned es))"
| message: "engine_reach lib re ts \<Longrightarrow> ReportingEngine_ProcessMessage env msg re = (r, re', es) \<Longrightarrow>
    engine_reach lib re' (ts + mset (spawned es))"
| task: "engine_reach lib re (add_mset t ts) \<Longrightarrow> run_task env t re = (r, re', es) \<Longrightarrow>
    engine_reach lib re' (ts + mset (spawned es))"

lemma spawned_no_progress: "list_all no_progress es \<Longrightarrow> HTransmit \<notin> set (spawned es) \<and> HProgress \<notin> set (spawned es)"
  by (induction es) (auto simp: spawned_def no_progress_def split: effect.splits)

lemma start_frame:
  assumes "ReportingEngine_Start lib q reg re = ((r, re', es), q')"
  shows "re_quitCh re' = re_quitCh re \<and> re_curRound re' = re_curRound re \<and> list_all no_progress es"
proof -
  let ?R = "\<lambda>re re'. re_quitCh re' = re_quitCh re \<and> re_curRound re' = re_curRound re"
  have ready: "keeps ?R no_progress (\<lambda>re. if re_mu re then (Blocked, re, []) else (Ok (), re\<lparr>re_ready := True\<rparr>, []))"
    by (simp add: keeps_def)
  have "frame ?R" by unfold_locales auto
  note rules = frame.keeps_then [OF this] frame.keeps_upd [OF this] frame.keeps_phase [OF this] frame.keeps_emit [OF this]
  have lead: "keeps ?R no_progress
      (thenA (upd (\<lambda>re. re\<lparr>re_orch := Some (fst (ls_phaseCh (re_LeaderState re)))\<rparr>))
        (thenA (send_phase PhaseObserve)
          (\<lambda>re. if re_mu re then (Blocked, re, []) else (Ok (), re\<lparr>re_ready := True\<rparr>, []))))"
    by (intro rules ready) (simp_all add: phase_task_def no_progress_def)
  have follow: "keeps ?R no_progress (thenA (emit (ESpawn HFollowing))
      (\<lambda>re. if re_mu re then (Blocked, re, []) else (Ok (), re\<lparr>re_ready := True\<rparr>, [])))"
    by (intro rules ready) (simp add: no_progress_def)
  show ?thesis
    using assms lead follow unfolding ReportingEngine_Start_def Let_def keeps_def
    by (auto split: if_splits option.splits res.splits prod.splits)
qed

text \<open>
  C13: The engine never gets past its first round. In every state reachable by any sequence of
  initialisations, starts, messages and goroutines, the round is the initial one, no goroutine for the
  transmission or for the next round has been started, and stopping the engine panics. Two defects
  combine: no FINAL-ECHO is ever counted, and the prechecks refuse every PROGRESS-ROUND.
\<close>

theorem first_round_forever:
  assumes "engine_reach lib re ts"
  shows "(re_curRound re = 0 \<or> re_curRound re = INIT_ROUND) \<and> HTransmit \<notin># ts \<and> HProgress \<notin># ts \<and>
         ReportingEngine_Stop re = Panicked CloseOfNilChannel"
proof -
  have "re_quitCh re = NilChan \<and> (re_curRound re = 0 \<or> re_curRound re = INIT_ROUND) \<and>
      HTransmit \<notin># ts \<and> HProgress \<notin># ts"
    using assms
  proof (induction rule: engine_reach.induct)
    case new
    then show ?case by (simp add: zero_engine_def)
  next
    case (init re ts l e ld si pg sg re')
    then show ?case by (auto simp: initReporter_def split: if_splits)
  next
    case (start re ts q reg r re' es q')
    with start_frame [OF start.hyps(2)] spawned_no_progress show ?case by auto
  next
    case (message re ts env msg r re' es)
    with ProcessMessage_frame [OF _ message.hyps(2)] have "HTransmit \<notin> set (spawned es) \<and> HProgress \<notin> set (spawned es)"
      by (auto simp: spawned_def split: effect.splits)
    with ProcessMessage_frame [OF _ message.hyps(2)] message.IH show ?case by auto
  next
    case (task re t ts env r re' es)
    then have "t \<noteq> HTransmit" "t \<noteq> HProgress" by auto
    from keepsD [OF rnd.keeps_task [OF this] task.hyps(2)] task.IH spawned_no_progress
    show ?case by (auto simp: same_round_def)
  qed
  then show ?thesis by (simp add: stop_nil)
qed

text \<open>
  The change of round: it clears what the round collected (the leader's observations, reports and
  attestations, or the follower's cache), advances the round by one and keeps the configuration. But
  the leader gets a new phase channel while its orchestrator still waits on the old one, so every later
  phase change blocks the goroutine that makes it.
\<close>

theorem next_round:
  assumes "ls_phaseCh (re_LeaderState re) = (g, OpenChan)" and "re_orch re = Some g"
  shows "let re' = progressToNextRound re in
         re_curRound re' = re_curRound re + 1 \<and> config re' = config re \<and>
         (if si_ID (re_serverOpts re) = re_leader re
          then ls_observations (re_LeaderState re') = [] \<and> ls_reports (re_LeaderState re') = [zero_Report] \<and>
               ls_finalReportAttestation (re_LeaderState re') = 0 \<and> ls_Phase (re_LeaderState re') = PhaseObserve \<and>
               re_cacheLayer re' = re_cacheLayer re \<and> send_phase p re' = (Blocked, re', [])
          else re_cacheLayer re' = zero_CacheLayer \<and> re_LeaderState re' = re_LeaderState re)"
  using assms by (simp add: progressToNextRound_def Let_def config_def send_phase_def)

section \<open>Witnesses\<close>

text \<open>A follower \<open>b\<close> and a leader \<open>a\<close>, initialised in epoch 3, with four nodes of which one may be faulty.\<close>

definition demo_info :: "string \<Rightarrow> ServerInfo" where
  "demo_info i = \<lparr>si_Addr = ''addr'', si_Codec = JSONCodec (\<lambda>_. ''0''), si_ID = i\<rparr>"

definition demo_key :: PrivateKey where
  "demo_key = \<lparr>priv_D = 1, priv_pub = witness_key\<rparr>"

definition demo_engine :: "bool \<Rightarrow> string \<Rightarrow> ReportingEngine" where
  "demo_engine isLeader i =
     (NewReportingEngine isLeader 3 ''a'' (demo_info i) \<lparr>pg_n = 4, pg_f = 1\<rparr> demo_key)
       \<lparr>re_ready := True, re_orch := (if isLeader then Some 0 else None)\<rparr>"

lemmas demo_defs = demo_engine_def NewReportingEngine_def zero_engine_def demo_info_def demo_key_def
  fresh_LeaderState_def zero_CacheLayer_def INIT_ROUND_def

definition demo_env :: env where
  "demo_env =
     \<lparr>en_prims = witness_prims,
      en_job = \<lparr>http_get = (\<lambda>_. None), parseFloat = (\<lambda>_. None), fmt_v = (\<lambda>_. []), shortest = (\<lambda>_. ''0'')\<rparr>,
      en_isPeer = (\<lambda>_. Ok True), en_rnd = 0, en_elapsed = (\<lambda>_ _. 0), en_finish = id,
      en_obs_order = id, en_rj = id, en_rh = id\<rparr>"

definition echo_msg :: DecodedMsg where
  "echo_msg = \<lparr>dm_FromId = ''b'', dm_Topic = TopicReporter,
     dm_Data = Ptr (PFinalEcho \<lparr>fe_Epoch = 3, fe_Round = 2, fe_Leader = ''a''\<rparr>), dm_Signature = zero_Signature\<rparr>"

theorem message_guard_witness:
  "\<exists>e. ReportingEngine_ProcessMessage demo_env echo_msg (demo_engine True ''a'') =
     (Err (PrecheckFailed e), demo_engine True ''a'', [])"
  using message_guard [of "demo_engine True ''a''" echo_msg demo_env] by (simp add: demo_defs echo_msg_def)

theorem message_frame_witness:
  "re_curRound (fst (snd (ReportingEngine_ProcessMessage demo_env echo_msg (demo_engine True ''a'')))) = 1"
proof -
  obtain r re' es where "ReportingEngine_ProcessMessage demo_env echo_msg (demo_engine True ''a'') = (r, re', es)"
    by (cases "ReportingEngine_ProcessMessage demo_env echo_msg (demo_engine True ''a'')") auto
  with message_frame [OF _ this] show ?thesis by (simp add: demo_defs)
qed

theorem early_message_deadlock_witness:
  "\<exists>re'. ReportingEngine_ProcessMessage demo_env echo_msg zero_engine = (Err NotReady, re', []) \<and>
     ReportingEngine_ProcessMessage demo_env echo_msg re' = (Blocked, re', [])"
  using early_message_deadlock [of zero_engine demo_env echo_msg] by (auto simp: zero_engine_def)

theorem first_round_forever_witness:
  "\<exists>re. initReporter True 3 ''a'' (demo_info ''a'') \<lparr>pg_n = 4, pg_f = 1\<rparr> demo_key zero_engine = Ok re \<and>
     ReportingEngine_Stop re = Panicked CloseOfNilChannel"
proof -
  obtain re where re: "initReporter True 3 ''a'' (demo_info ''a'') \<lparr>pg_n = 4, pg_f = 1\<rparr> demo_key zero_engine = Ok re"
    by (simp add: initReporter_def zero_engine_def)
  fix lib :: "unit fifo_lib"
  have "engine_reach lib re {#}" by (rule engine_reach.init [OF engine_reach.new re])
  from first_round_forever [OF this] re show ?thesis by blast
qed

theorem next_round_witness:
  "re_curRound (progressToNextRound (demo_engine True ''a'')) = 2 \<and>
   send_phase PhaseReport (progressToNextRound (demo_engine True ''a'')) =
     (Blocked, progressToNextRound (demo_engine True ''a''), [])"
  using next_round [of "demo_engine True ''a''" 0 PhaseReport]
  by (simp add: Let_def) (simp add: demo_defs)

end
