(* ===== verification/Protocol.thy ===== *)
theory Protocol
  imports EngineFrame
begin

text \<open>
  The properties of the reporting protocol as the engine runs it: which responses count, when the
  grace phase begins, what a follower answers to a report request, and which final reports it accepts.
\<close>

section \<open>Grouping of observations\<close>

lemma fold_group:
  "map_of (fold (\<lambda>(k, xs) m. gm_put k (gm_get0 [] m k @ xs) m) kvs acc) k =
     (let xss = map snd (filter (\<lambda>(k', _). k' = k) kvs)
      in if xss = [] then map_of acc k else Some (gm_get0 [] acc k @ concat xss))"
  by (induction kvs arbitrary: acc) (auto simp: Let_def gm_get0_def split: option.splits)

lemma gm_wf_fold_group:
  "gm_wf acc \<Longrightarrow> gm_wf (fold (\<lambda>(k, xs) m. gm_put k (gm_get0 [] m k @ xs) m) kvs acc)"
  by (induction kvs arbitrary: acc) auto

lemma group_responses_fold:
  "group_responses rs = fold (\<lambda>(k, xs) m. gm_put k (gm_get0 [] m k @ xs) m) (map (\<lambda>r. (JobId r, [r])) rs) []"
  unfolding group_responses_def fold_map by (simp add: comp_def)

lemma group_by_job_fold:
  "group_by_job obs = fold (\<lambda>(k, xs) m. gm_put k (gm_get0 [] m k @ xs) m) (concat (map snd obs)) []"
proof -
  have "fold (\<lambda>(p, m). fold (\<lambda>(k, xs) m. gm_put k (gm_get0 [] m k @ xs) m) m) obs acc =
      fold (\<lambda>(k, xs) m. gm_put k (gm_get0 [] m k @ xs) m) (concat (map snd obs)) acc" for acc
    by (induction obs arbitrary: acc) auto
  then show ?thesis by (simp add: group_by_job_def Iterate_all case_prod_unfold)
qed

text \<open>
  Grouping keeps every observation: the responses of one peer are stored under their jobs in order,
  and the report phase collects for each job exactly the observations of all peers for it, peer by
  peer in the order of the iteration; a job nobody observed has no entry.
\<close>

theorem observations_grouped:
  "map_of (group_responses rs) j =
     (let xs = filter (\<lambda>r. JobId r = j) rs in if xs = [] then None else Some xs) \<and>
   map_of (group_by_job obs) j =
     (let xss = map snd (filter (\<lambda>(j', _). j' = j) (concat (map snd obs)))
      in if xss = [] then None else Some (concat xss))"
proof -
  have "concat (map snd (filter (\<lambda>(k', _). k' = j) (map (\<lambda>r. (JobId r, [r])) rs))) = filter (\<lambda>r. JobId r = j) rs"
    by (induction rs) auto
  moreover have "map snd (filter (\<lambda>(k', _). k' = j) (map (\<lambda>r. (JobId r, [r])) rs)) = [] \<longleftrightarrow>
      filter (\<lambda>r. JobId r = j) rs = []"
    by (induction rs) auto
  ultimately have "map_of (group_responses rs) j =
     (let xs = filter (\<lambda>r. JobId r = j) rs in if xs = [] then None else Some xs)"
    unfolding group_responses_fold fold_group Let_def by simp
  moreover have "map_of (group_by_job obs) j =
     (let xss = map snd (filter (\<lambda>(j', _). j' = j) (concat (map snd obs)))
      in if xss = [] then None else Some (concat xss))"
    unfolding group_by_job_fold fold_group Let_def by simp
  ultimately show ?thesis ..
qed

subsection \<open>What the reports are made of\<close>

text \<open>
  The observations of a job in an observation map: those of all peers together. \<open>registered\<close> is the
  job a registry holds for an identity, and \<open>report_of\<close> the value it assembles from a list of
  observations, nothing when it fails.
\<close>

definition job_observations :: "ObservationSafeMap \<Rightarrow> string \<Rightarrow> JobObservationResponse multiset" where
  "job_observations obs j = (\<Sum>e\<in>#mset obs. mset (gm_get0 [] (snd e) j))"

definition observed :: "ObservationSafeMap \<Rightarrow> string \<Rightarrow> bool" where
  "observed obs j \<longleftrightarrow> (\<exists>e\<in>set obs. map_of (snd e) j \<noteq> None)"

definition registered :: "(string, DirectRequest) gomap option \<Rightarrow> string \<Rightarrow> DirectRequest option" where
  "registered reg j = Option.bind reg (\<lambda>m. map_of m j)"

definition report_of ::
  "(string, DirectRequest) gomap option \<Rightarrow> string \<Rightarrow> JobObservationResponse list \<Rightarrow> goval option" where
  "report_of reg j xs =
     (case registered reg j of
        None \<Rightarrow> None
      | Some job \<Rightarrow> (case Job_Assemble job xs of Ok v \<Rightarrow> Some v | _ \<Rightarrow> None))"

lemma filter_key:
  "gm_wf m \<Longrightarrow> filter (\<lambda>(j', _). j' = j) m = (case map_of m j of None \<Rightarrow> [] | Some xs \<Rightarrow> [(j, xs)])"
proof (induction m)
  case (Cons e m)
  then have "gm_wf m" by (simp add: gm_wf_def)
  moreover have "map_of m j = None" if "fst e = j"
    using Cons.prems that by (simp add: gm_wf_def map_of_eq_None_iff)
  ultimately show ?case using Cons.IH by (auto split: option.splits)
qed simp

lemma mset_filter_concat:
  "mset (concat (map snd (filter P (concat (map snd obs))))) =
     (\<Sum>e\<in>#mset obs. mset (concat (map snd (filter P (snd e)))))"
  by (induction obs) simp_all

lemma group_by_job_observations:
  assumes "\<forall>e\<in>set obs. gm_wf (snd e)"
  shows "map_of (group_by_job obs) j = None \<longleftrightarrow> \<not> observed obs j"
    and "map_of (group_by_job obs) j = Some xs \<Longrightarrow> mset xs = job_observations obs j"
proof -
  have "concat (map snd (filter (\<lambda>(j', _). j' = j) (snd e))) = gm_get0 [] (snd e) j" if "e \<in> set obs" for e
    using assms that by (auto simp: filter_key gm_get0_def split: option.splits)
  then have "mset (concat (map snd (filter (\<lambda>(j', _). j' = j) (concat (map snd obs))))) = job_observations obs j"
    unfolding mset_filter_concat job_observations_def by (intro arg_cong [where f = sum_mset] image_mset_cong) simp
  then show "map_of (group_by_job obs) j = Some xs \<Longrightarrow> mset xs = job_observations obs j"
    using observations_grouped [of _ j obs] by (auto simp: Let_def split: if_splits)
  have "filter (\<lambda>(j', _). j' = j) (concat (map snd obs)) = [] \<longleftrightarrow>
      (\<forall>e\<in>set obs. filter (\<lambda>(j', _). j' = j) (snd e) = [])"
    by (induction obs) simp_all
  also have "\<dots> \<longleftrightarrow> \<not> observed obs j"
    unfolding observed_def using assms by (simp add: filter_key split: option.split)
  finally have "filter (\<lambda>(j', _). j' = j) (concat (map snd obs)) = [] \<longleftrightarrow> \<not> observed obs j" .
  then show "map_of (group_by_job obs) j = None \<longleftrightarrow> \<not> observed obs j"
    using observations_grouped [of _ j obs] by (auto simp: Let_def)
qed

text \<open>Neither the order of the peers nor the normal form changes the observations of a job.\<close>

lemma mset_image_set: "mset xs = image_mset f (mset ys) \<Longrightarrow> set xs = f ` set ys"
  using set_image_mset [of f "mset ys"] by (metis set_mset_mset)

lemma observations_any_order:
  assumes "obs_wf obs" and "mset o' = mset (obs_norm obs)"
  shows "job_observations o' j = job_observations obs j" and "observed o' j = observed obs j"
    and "\<forall>e\<in>set o'. gm_wf (snd e)"
proof -
  have wf: "gm_wf (snd e)" if "e \<in> set obs" for e using assms(1) that by (auto simp: obs_wf_def)
  then have get: "map_of (sort_key fst (snd e)) j = map_of (snd e) j" if "e \<in> set obs" for e
    using gm_eq_sort_key [OF wf [OF that]] by (simp add: gm_eq_def)
  have m: "mset o' = image_mset (\<lambda>e. (fst e, sort_key fst (snd e))) (mset obs)"
    unfolding assms(2) obs_norm_def case_prod_beta by simp
  then have s: "set o' = (\<lambda>e. (fst e, sort_key fst (snd e))) ` set obs" by (rule mset_image_set)
  show "job_observations o' j = job_observations obs j"
    unfolding job_observations_def m multiset.map_comp comp_def gm_get0_def
    by (intro arg_cong [where f = sum_mset] image_mset_cong) (simp add: get)
  show "observed o' j = observed obs j" unfolding observed_def s using get by simp
  show "\<forall>e\<in>set o'. gm_wf (snd e)" unfolding s using wf by (simp add: gm_wf_sort_key)
qed

lemma Assemble_returns: "\<exists>v. Assemble a xs = Ok v \<or> (\<exists>e. Assemble a xs = Err e)"
proof -
  have "(\<exists>y. sum_responses xs s n = Ok y) \<or> (\<exists>e. sum_responses xs s n = Err e)" for s n
    by (induction xs arbitrary: s n) (auto split: option.splits)
  then have "(\<exists>y. sum_responses xs (FFin 0) 0 = Ok y) \<or> (\<exists>e. sum_responses xs (FFin 0) 0 = Err e)" .
  then show ?thesis by (cases a) (elim disjE exE; simp split: prod.split)
qed

lemma assemble_all:
  assumes "\<forall>(j, xs)\<in>set kvs. \<exists>job a. registered reg j = Some job \<and> dr_assembler job = Some a"
    and "gm_wf kvs"
  shows "\<exists>vs. foldM (assemble_job reg) kvs acc = Ok vs \<and> (gm_wf acc \<longrightarrow> gm_wf vs) \<and>
     (\<forall>j. map_of vs j =
        (case Option.bind (map_of kvs j) (report_of reg j) of None \<Rightarrow> map_of acc j | Some v \<Rightarrow> Some v))"
  using assms
proof (induction kvs arbitrary: acc)
  case (Cons e kvs)
  obtain j xs where e: "e = (j, xs)" by (cases e)
  with Cons.prems(1) obtain job a where job: "registered reg j = Some job" "dr_assembler job = Some a" by auto
  let ?acc = "case report_of reg j xs of None \<Rightarrow> acc | Some v \<Rightarrow> gm_put j v acc"
  have step: "assemble_job reg e acc = Ok ?acc"
    using Assemble_returns [of a xs] job
    by (auto simp: assemble_job_def report_of_def Job_Assemble_def e registered_def)
  have fresh: "map_of kvs j = None" using Cons.prems(2) by (simp add: e gm_wf_def map_of_eq_None_iff)
  from Cons.IH [of ?acc] Cons.prems obtain vs where vs: "foldM (assemble_job reg) kvs ?acc = Ok vs"
      "gm_wf ?acc \<longrightarrow> gm_wf vs" "\<forall>i. map_of vs i =
        (case Option.bind (map_of kvs i) (report_of reg i) of None \<Rightarrow> map_of ?acc i | Some v \<Rightarrow> Some v)"
    by (auto simp: gm_wf_def)
  moreover have "gm_wf acc \<longrightarrow> gm_wf ?acc" by (auto split: option.splits)
  ultimately show ?case using step fresh by (auto simp: e split: option.splits)
qed simp

section \<open>Responses to the leader\<close>

subsection \<open>Authenticity\<close>

text \<open>The handlers that leave the leader's collections alone.\<close>

definition same_collections :: "ReportingEngine \<Rightarrow> ReportingEngine \<Rightarrow> bool" where
  "same_collections re re' \<longleftrightarrow>
     (re_quitCh re = NilChan \<longrightarrow>
        re_quitCh re' = NilChan \<and> ls_observations (re_LeaderState re') = ls_observations (re_LeaderState re) \<and>
        ls_reports (re_LeaderState re') = ls_reports (re_LeaderState re))"

interpretation col: handler_frame same_collections "\<lambda>_. True"
  by unfold_locales (auto simp: same_collections_def set_phase_def stop_nil)

lemma verify_response_True:
  "verify_response env re msg p = Ok (Some True) \<longleftrightarrow>
     (\<exists>b. payload_bytes_re re p = Some b \<and> VerifySignature env b (dm_FromId msg) (dm_Signature msg) = Ok True)"
  by (auto simp: verify_response_def VerifySignature_def go_simps split: option.splits res.splits)

lemma dispatch_collections:
  assumes "\<forall>m. d \<noteq> Ptr (PObserveResp m)" and "\<forall>m. d \<noteq> Ptr (PReportRes m)"
  shows "keeps same_collections (\<lambda>_. True) (dispatch env msg d)"
proof (cases "(env, msg, d)" rule: dispatch.cases)
  case (1 env msg m)
  have "keeps same_collections (\<lambda>_. True) (process_ObserveReq env m)"
    unfolding process_ObserveReq_def
    by (intro col.keeps_then col.keeps_upd col.keeps_handlers) (simp add: same_collections_def)
  with 1 show ?thesis by simp
qed (use assms in \<open>auto intro!: col.keeps_handlers col.keeps_ret col.keeps_ProgressRound\<close>)

lemma ObserveResp_collections:
  assumes "process_ObserveResp env msg m re = (r, re', es)"
  shows "ls_reports (re_LeaderState re') = ls_reports (re_LeaderState re) \<and>
         (ls_observations (re_LeaderState re') = ls_observations (re_LeaderState re) \<or>
          verify_response env re msg (PObserveResp m) = Ok (Some True) \<and>
          ls_observations (re_LeaderState re') =
            Store (dm_FromId msg) (group_responses (or_JobResponses m)) (ls_observations (re_LeaderState re)))"
  using assms
  by (auto simp: process_ObserveResp_def act_defs send_phase_def set_phase_def store_observation_def
      split: if_splits res.splits prod.splits chan.splits)

lemma ReportRes_collections:
  assumes "process_ReportRes env msg m re = (r, re', es)"
  shows "ls_observations (re_LeaderState re') = ls_observations (re_LeaderState re) \<and>
         (ls_reports (re_LeaderState re') = ls_reports (re_LeaderState re) \<or>
          verify_response env re msg (PReportRes m) = Ok (Some True) \<and>
          ls_reports (re_LeaderState re') = ls_reports (re_LeaderState re) @
            [\<lparr>rep_from = dm_FromId msg, rep_reports = rr_Reports m, rep_sig = dm_Signature msg\<rparr>])"
  using assms
  by (auto simp: process_ReportRes_def act_defs send_phase_def set_phase_def add_report_def
      split: if_splits res.splits prod.splits chan.splits option.splits)

text \<open>
  C7: Only authentic responses are collected. Whatever message arrives, the leader's observations
  change at most for the sender of an OBSERVE-RES, to what that message says, and its reports grow at
  most by the content of a REPORT-RES; in both cases the sender's signature over the message has been
  verified and the message carries the engine's epoch, round and leader.
\<close>

theorem responses_authentic:
  assumes "re_quitCh re = NilChan" and "ReportingEngine_ProcessMessage env msg re = (r, re', es)"
  shows "(ls_observations (re_LeaderState re') = ls_observations (re_LeaderState re) \<and>
          ls_reports (re_LeaderState re') = ls_reports (re_LeaderState re)) \<or>
         (\<exists>p b. dm_Data msg = Ptr p \<and> common_fields p = Some (re_epoch re, re_curRound re, re_leader re) \<and>
            payload_bytes_re re p = Some b \<and>
            VerifySignature env b (dm_FromId msg) (dm_Signature msg) = Ok True \<and>
            ((\<exists>m. p = PObserveResp m \<and> ls_reports (re_LeaderState re') = ls_reports (re_LeaderState re) \<and>
                (\<forall>i. Load (ls_observations (re_LeaderState re')) i =
                   (if i = dm_FromId msg then Some (group_responses (or_JobResponses m))
                    else Load (ls_observations (re_LeaderState re)) i))) \<or>
             (\<exists>m. p = PReportRes m \<and>
                ls_observations (re_LeaderState re') = ls_observations (re_LeaderState re) \<and>
                ls_reports (re_LeaderState re') = ls_reports (re_LeaderState re) @
                  [\<lparr>rep_from = dm_FromId msg, rep_reports = rr_Reports m, rep_sig = dm_Signature msg\<rparr>])))"
proof (cases rule: ProcessMessage_cases [of re env msg])
  case accepted
  then have d: "dispatch env msg (dm_Data msg) re = (r, re', es)" using assms(2) by simp
  have fields: "common_fields (any_payload (dm_Data msg)) = Some (re_epoch re, re_curRound re, re_leader re)"
    using accepted(3)
    by (auto simp: rpcMsgPrechecks_def getCommonFieldsAndPhase_def split: option.splits if_splits)
  consider (obs) m where "dm_Data msg = Ptr (PObserveResp m)" | (rep) m where "dm_Data msg = Ptr (PReportRes m)"
    | (other) "\<forall>m. dm_Data msg \<noteq> Ptr (PObserveResp m)" "\<forall>m. dm_Data msg \<noteq> Ptr (PReportRes m)" by blast
  then show ?thesis
  proof cases
    case obs
    with d have "process_ObserveResp env msg m re = (r, re', es)" by simp
    from ObserveResp_collections [OF this] show ?thesis
      using obs fields verify_response_True by (auto simp: obs.get_put)
  next
    case rep
    with d have "process_ReportRes env msg m re = (r, re', es)" by simp
    from ReportRes_collections [OF this] show ?thesis
      using rep fields verify_response_True by auto
  next
    case other
    from keepsD [OF dispatch_collections [OF other] d] assms(1) show ?thesis
      by (simp add: same_collections_def)
  qed
qed (use assms in auto)

subsection \<open>The grace phase\<close>

fun process_all :: "env \<Rightarrow> DecodedMsg list \<Rightarrow> ReportingEngine \<Rightarrow> ReportingEngine \<times> effect list" where
  "process_all env [] re = (re, [])"
| "process_all env (msg # msgs) re =
     (case ReportingEngine_ProcessMessage env msg re of
        (r, re', es) \<Rightarrow> (case process_all env msgs re' of (re'', es') \<Rightarrow> (re'', es @ es')))"

definition leading :: "ReportingEngine \<Rightarrow> bool" where
  "leading re \<longleftrightarrow> \<not> re_mu re \<and> re_ready re \<and>
     snd (ls_phaseCh (re_LeaderState re)) = OpenChan \<and> re_orch re = Some (fst (ls_phaseCh (re_LeaderState re)))"

definition valid_observation :: "env \<Rightarrow> ReportingEngine \<Rightarrow> DecodedMsg \<Rightarrow> bool" where
  "valid_observation env re msg \<longleftrightarrow>
     (\<exists>m. dm_Data msg = Ptr (PObserveResp m) \<and>
        common_fields (PObserveResp m) = Some (re_epoch re, re_curRound re, re_leader re) \<and>
        verify_response env re msg (PObserveResp m) = Ok (Some True))"

definition observed_jobs :: "DecodedMsg \<Rightarrow> string \<times> JobObservations" where
  "observed_jobs msg =
     (dm_FromId msg,
      case any_payload (dm_Data msg) of PObserveResp m \<Rightarrow> group_responses (or_JobResponses m) | _ \<Rightarrow> [])"

lemma send_phase_leading: "leading re \<Longrightarrow> send_phase p re = (Ok (), re, map ESpawn (phase_task p))"
  by (cases "ls_phaseCh (re_LeaderState re)") (simp add: leading_def send_phase_def)

lemma observation_step:
  assumes "leading re" and "valid_observation env re msg"
  obtains re' where
    "ReportingEngine_ProcessMessage env msg re =
       (Ok (), re', if 2 * pg_f (re_pacemakerGlobals re) + 1 < observe_n (re_cacheLayer re) + 1
                    then [ESpawn HGrace] else [])"
    "leading re'" "\<And>msg'. valid_observation env re' msg' \<longleftrightarrow> valid_observation env re msg'"
    "re_pacemakerGlobals re' = re_pacemakerGlobals re"
    "observe_n (re_cacheLayer re') = observe_n (re_cacheLayer re) + 1"
    "ls_observations (re_LeaderState re') =
       Store (fst (observed_jobs msg)) (snd (observed_jobs msg)) (ls_observations (re_LeaderState re))"
proof -
  obtain m where m: "dm_Data msg = Ptr (PObserveResp m)"
      "common_fields (PObserveResp m) = Some (re_epoch re, re_curRound re, re_leader re)"
      "verify_response env re msg (PObserveResp m) = Ok (Some True)"
    using assms(2) by (auto simp: valid_observation_def)
  let ?b = "2 * pg_f (re_pacemakerGlobals re) + 1 < observe_n (re_cacheLayer re) + 1"
  let ?re1 = "store_observation (dm_FromId msg) m re"
  let ?re' = "if ?b then set_phase PhaseGrace ?re1 else ?re1"
  have pc: "rpcMsgPrechecks re msg = Ok True"
    using m by (simp add: rpcMsgPrechecks_def getCommonFieldsAndPhase_def typeToPhase_def)
  have "ReportingEngine_ProcessMessage env msg re = process_ObserveResp env msg m re"
    using assms(1) m(1) pc by (simp add: ReportingEngine_ProcessMessage_def leading_def)
  also have "\<dots> = (Ok (), ?re', if ?b then [ESpawn HGrace] else [])"
  proof -
    have "leading (set_phase PhaseGrace ?re1)"
      using assms(1) by (simp add: leading_def set_phase_def store_observation_def)
    moreover have "observe_n (re_cacheLayer ?re1) = observe_n (re_cacheLayer re) + 1"
      "re_pacemakerGlobals ?re1 = re_pacemakerGlobals re"
      by (simp_all add: store_observation_def)
    ultimately show ?thesis using m
      by (simp add: process_ObserveResp_def act_defs send_phase_leading phase_task_def)
  qed
  finally have "ReportingEngine_ProcessMessage env msg re = (Ok (), ?re', if ?b then [ESpawn HGrace] else [])" .
  moreover have "verify_response env ?re' = verify_response env re"
    by (intro ext) (simp add: verify_response_def payload_bytes_re_def set_phase_def store_observation_def)
  ultimately show thesis using assms(1) m(1)
    by (intro that [of ?re']) (auto simp: leading_def valid_observation_def observed_jobs_def set_phase_def store_observation_def)
qed

text \<open>
  C18: Counting observations: after any sequence of verified OBSERVE-RES messages of its round, a leader
  holds for each sender its last observations and has counted the messages, whoever sent them. The
  grace phase is started by the message number \<open>2f + 2\<close> and again by every one after it.
\<close>

theorem grace_threshold:
  assumes "leading re" and "\<forall>msg\<in>set msgs. valid_observation env re msg"
    and "unat (observe_n (re_cacheLayer re)) + length msgs < 2 ^ 63"
    and "2 * unat (pg_f (re_pacemakerGlobals re)) + 1 < 2 ^ 63"
  shows "case process_all env msgs re of (re', es) \<Rightarrow>
           unat (observe_n (re_cacheLayer re')) = unat (observe_n (re_cacheLayer re)) + length msgs \<and>
           es = replicate
             (unat (observe_n (re_cacheLayer re)) + length msgs -
                max (unat (observe_n (re_cacheLayer re))) (2 * unat (pg_f (re_pacemakerGlobals re)) + 1))
             (ESpawn HGrace) \<and>
           (\<forall>i. Load (ls_observations (re_LeaderState re')) i =
              (case map_of (rev (map observed_jobs msgs)) i of
                 None \<Rightarrow> Load (ls_observations (re_LeaderState re)) i | Some v \<Rightarrow> Some v))"
proof -
  have "case process_all env msgs re of (re', es) \<Rightarrow>
           unat (observe_n (re_cacheLayer re')) = unat (observe_n (re_cacheLayer re)) + length msgs \<and>
           es = replicate
             (unat (observe_n (re_cacheLayer re)) + length msgs -
                max (unat (observe_n (re_cacheLayer re))) (2 * unat (pg_f (re_pacemakerGlobals re)) + 1))
             (ESpawn HGrace) \<and>
           ls_observations (re_LeaderState re') =
             fold (\<lambda>(k, v). Store k v) (map observed_jobs msgs) (ls_observations (re_LeaderState re))"
    using assms
  proof (induction msgs arbitrary: re)
    case (Cons msg msgs)
    let ?n = "unat (observe_n (re_cacheLayer re))" and ?f = "pg_f (re_pacemakerGlobals re)"
    obtain re' where step: "ReportingEngine_ProcessMessage env msg re =
         (Ok (), re', if 2 * ?f + 1 < observe_n (re_cacheLayer re) + 1 then [ESpawn HGrace] else [])"
      and re': "leading re'" "\<And>msg'. valid_observation env re' msg' \<longleftrightarrow> valid_observation env re msg'"
        "re_pacemakerGlobals re' = re_pacemakerGlobals re"
        "observe_n (re_cacheLayer re') = observe_n (re_cacheLayer re) + 1"
        "ls_observations (re_LeaderState re') =
           Store (fst (observed_jobs msg)) (snd (observed_jobs msg)) (ls_observations (re_LeaderState re))"
      using observation_step [OF Cons.prems(1)] Cons.prems(2) by (metis list.set_intros(1))
    have n: "unat (observe_n (re_cacheLayer re) + 1) = ?n + 1"
      using Cons.prems(3) by (subst unat_add_lem [THEN iffD1]) auto
    have f: "unat (2 * ?f + 1) = 2 * unat ?f + 1" using Cons.prems(4) by (intro unat_double_Suc) simp
    have thr: "2 * ?f + 1 < observe_n (re_cacheLayer re) + 1 \<longleftrightarrow> 2 * unat ?f + 1 < ?n + 1"
      by (simp only: word_less_nat_alt n f)
    obtain re'' es where rest: "process_all env msgs re' = (re'', es)" by fastforce
    have "unat (observe_n (re_cacheLayer re'')) = ?n + 1 + length msgs \<and>
          es = replicate (?n + 1 + length msgs - max (?n + 1) (2 * unat ?f + 1)) (ESpawn HGrace) \<and>
          ls_observations (re_LeaderState re'') =
             fold (\<lambda>(k, v). Store k v) (map observed_jobs msgs) (ls_observations (re_LeaderState re'))"
      using Cons.IH [of re'] Cons.prems re' by (simp add: rest n)
    moreover have "(if 2 * unat ?f + 1 < ?n + 1 then [ESpawn HGrace] else []) @
          replicate (?n + 1 + length msgs - max (?n + 1) (2 * unat ?f + 1)) (ESpawn HGrace) =
        replicate (?n + length (msg # msgs) - max ?n (2 * unat ?f + 1)) (ESpawn HGrace)"
      by (simp add: max_def flip: replicate_Suc) arith
    ultimately show ?case using re'(5) by (simp add: step rest thr case_prod_unfold)
  qed simp
  then show ?thesis by (auto simp: obs.get_fold_put)
qed

section \<open>The final report at a follower\<close>

lemma count_signatories_sound:
  assumes "count_signatories env srv b th ss u n = Ok (Some n')" and "distinct u" and "length u = n"
    and "\<forall>i\<in>set u. P i"
    and "\<And>s. s \<in> set ss \<Longrightarrow> en_isPeer env (sg_ID s) = Ok True \<Longrightarrow>
           VerifySignature env b (sg_ID s) (sg_Sign s) = Ok True \<Longrightarrow> P (sg_ID s)"
  shows "\<exists>u'. distinct u' \<and> length u' = n' \<and> (\<forall>i\<in>set u'. P i)"
  using assms
proof (induction ss arbitrary: u n)
  case (Cons s ss)
  obtain pk where pk: "StringToPublicKey (en_prims env) (sg_ID s) = Ok pk"
    using Cons.prems(1) by (auto split: res.splits)
  have srv: "srv" using Cons.prems(1) by (auto simp: pk split: if_splits)
  obtain v where peer: "en_isPeer env (sg_ID s) = Ok True"
      and v: "Signature_Verify (en_prims env) (sg_Sign s) b pk = (Ok v :: (engine_error, bool) res)"
    using Cons.prems(1) by (auto simp: pk srv go_simps split: if_splits)
  have P: "v \<Longrightarrow> P (sg_ID s)"
    using Cons.prems(5) [of s] peer v pk by (simp add: VerifySignature_def)
  define u' where "u' = (if v \<and> sg_ID s \<notin> set u then sg_ID s # u else u)"
  define m where "m = (if v \<and> sg_ID s \<notin> set u then n + 1 else n)"
  have u': "distinct u'" "length u' = m" "\<forall>i\<in>set u'. P i"
    using Cons.prems(2-4) P by (auto simp: u'_def m_def)
  have "(if th \<le> int m then Ok (Some m) else count_signatories env srv b th ss u' m) = Ok (Some n')"
    using Cons.prems(1) unfolding u'_def m_def
    by (simp only: count_signatories.simps pk srv peer v res.case not_True_eq_False if_False res_bind.simps Let_def)
  then consider "n' = m" | "count_signatories env srv b th ss u' m = Ok (Some n')"
    by (cases "th \<le> int m") simp_all
  then show ?case
  proof cases
    case 2
    from Cons.IH [OF this u'(1,2,3)] Cons.prems(5) show ?thesis by auto
  qed (use u' in auto)
qed auto

lemma echo_cache: "re_cacheLayer (fst (snd (ignore_err (sendFinalReportEcho env) re))) = re_cacheLayer re"
  by (auto simp: ignore_err_def sendFinalReportEcho_def signed_bytes_def SendMsg_re_def act_defs
      split: option.split res.split prod.split)

lemma FinalReport_accepted:
  assumes "process_FinalReport env msg m re = (r, re', es)" and "unat (pg_f (re_pacemakerGlobals re)) + 1 < 2 ^ 63"
    and "re_cacheLayer re' \<noteq> re_cacheLayer re"
  obtains b n where "payload_bytes_re re (PFinalReport m) = Some b"
    "VerifySignature env b (dm_FromId msg) (dm_Signature msg) = Ok True"
    "count_signatories env (re_msgService re) b (sint (pg_f (re_pacemakerGlobals re) + 1))
       (fr_Signatories (bf_FinalReport m)) [] 0 = Ok (Some n)"
    "unat (pg_f (re_pacemakerGlobals re)) + 1 \<le> n"
    "re_cacheLayer re' = (re_cacheLayer re)\<lparr>c_finalReport := bf_FinalReport m\<rparr>"
proof -
  let ?b = "payload_bytes_re re (PFinalReport m)"
  let ?th = "sint (pg_f (re_pacemakerGlobals re) + 1)"
  obtain b where b: "?b = Some b" using assms(1,3) by (auto simp: process_FinalReport_def act_defs split: option.splits)
  have sig: "VerifySignature env b (dm_FromId msg) (dm_Signature msg) = Ok True"
    using assms(1,3) by (auto simp: process_FinalReport_def act_defs b split: res.splits if_splits)
  obtain n where n: "count_signatories env (re_msgService re) b ?th (fr_Signatories (bf_FinalReport m)) [] 0 = Ok (Some n)"
    "?th \<le> int n"
    using assms(1,3) by (auto simp: process_FinalReport_def act_defs b sig Let_def split: res.splits option.splits if_splits)
  have "re_cacheLayer re' = (re_cacheLayer re)\<lparr>c_finalReport := bf_FinalReport m\<rparr>"
    using assms(1) echo_cache [of env "re\<lparr>re_cacheLayer := (re_cacheLayer re)\<lparr>c_finalReport := bf_FinalReport m\<rparr>\<rparr>"]
      linorder_not_less [THEN iffD2, OF n(2)]
    by (simp add: process_FinalReport_def act_defs b sig Let_def n(1) split: prod.splits)
  moreover have "unat (pg_f (re_pacemakerGlobals re)) + 1 \<le> n"
    using n(2) unfolding sint_threshold [OF assms(2)] by (simp only: of_nat_le_iff)
  ultimately show thesis using that b sig n(1) by blast
qed

text \<open>
  C9: A follower accepts a final report only with a quorum: it stores the report of a broadcast only if
  the sender's signature over the broadcast verifies and at least \<open>f + 1\<close> different peers are listed
  whose signatures over the same bytes verify.
\<close>

theorem final_report_acceptance:
  assumes "ReportingEngine_ProcessMessage env msg re = (r, re', es)" and "dm_Data msg = Ptr (PFinalReport m)"
    and "unat (pg_f (re_pacemakerGlobals re)) + 1 < 2 ^ 63"
    and "re_cacheLayer re' \<noteq> re_cacheLayer re"
  shows "\<exists>b ids. payload_bytes_re re (PFinalReport m) = Some b \<and>
           VerifySignature env b (dm_FromId msg) (dm_Signature msg) = Ok True \<and>
           distinct ids \<and> unat (pg_f (re_pacemakerGlobals re)) + 1 \<le> length ids \<and>
           (\<forall>i\<in>set ids. en_isPeer env i = Ok True \<and>
              (\<exists>s\<in>set (fr_Signatories (bf_FinalReport m)).
                 sg_ID s = i \<and> VerifySignature env b i (sg_Sign s) = Ok True)) \<and>
           re_cacheLayer re' = (re_cacheLayer re)\<lparr>c_finalReport := bf_FinalReport m\<rparr>"
proof (cases rule: ProcessMessage_cases [of re env msg])
  case accepted
  with assms(1,2) have "process_FinalReport env msg m re = (r, re', es)" by simp
  then obtain b n where b: "payload_bytes_re re (PFinalReport m) = Some b"
      "VerifySignature env b (dm_FromId msg) (dm_Signature msg) = Ok True"
    and c: "count_signatories env (re_msgService re) b (sint (pg_f (re_pacemakerGlobals re) + 1))
       (fr_Signatories (bf_FinalReport m)) [] 0 = Ok (Some n)"
    and n: "unat (pg_f (re_pacemakerGlobals re)) + 1 \<le> n"
    and re': "re_cacheLayer re' = (re_cacheLayer re)\<lparr>c_finalReport := bf_FinalReport m\<rparr>"
    by (rule FinalReport_accepted [OF _ assms(3,4)])
  let ?P = "\<lambda>i. en_isPeer env i = Ok True \<and>
    (\<exists>s\<in>set (fr_Signatories (bf_FinalReport m)). sg_ID s = i \<and> VerifySignature env b i (sg_Sign s) = Ok True)"
  obtain ids where "distinct ids" "length ids = n" "\<forall>i\<in>set ids. ?P i"
    using count_signatories_sound [OF c, of ?P] by auto
  with b n re' show ?thesis by blast
qed (use assms in auto)

section \<open>Witnesses\<close>

definition demo_sig :: Signature where
  "demo_sig = \<lparr>sig_R = Some 1, sig_S = Some 1\<rparr>"

lemma demo_verify [simp]:
  "VerifySignature demo_env b (PublicKey_String witness_key) demo_sig = Ok True"
  "StringToPublicKey witness_prims (PublicKey_String witness_key) = Ok witness_key"
  "Signature_Verify witness_prims demo_sig b witness_key = (Ok True :: (engine_error, bool) res)"
proof -
  have "compressed_points witness_prims {witness_key}"
    unfolding witness_prims_def by (rule single_key_prims_points) (simp add: witness_key_def)
  then have u: "unmarshalCompressed witness_prims (PublicKey_Bytes witness_key) = Some witness_key"
    by (rule PublicKey_Bytes_unmarshal_Some) (simp_all add: witness_key_def)
  then show key: "StringToPublicKey witness_prims (PublicKey_String witness_key) = Ok witness_key"
    by (simp add: StringToPublicKey_def PublicKey_String_def)
  have "ecdsa_verify witness_prims witness_key (leftmost b) 1 1" by (simp add: witness_prims_def single_key_prims_def)
  with u show ver: "Signature_Verify witness_prims demo_sig b witness_key = (Ok True :: (engine_error, bool) res)"
    by (simp add: Signature_Verify_def demo_sig_def)
  show "VerifySignature demo_env b (PublicKey_String witness_key) demo_sig = Ok True"
    by (simp add: VerifySignature_def demo_env_def key ver)
qed

definition demo_msg :: "payload \<Rightarrow> DecodedMsg" where
  "demo_msg p = \<lparr>dm_FromId = PublicKey_String witness_key, dm_Topic = TopicReporter, dm_Data = Ptr p,
     dm_Signature = demo_sig\<rparr>"

definition demo_obs :: ObserveResp where
  "demo_obs = \<lparr>or_Epoch = 3, or_Round = 1, or_Leader = ''a'',
     or_JobResponses = [\<lparr>JobId = ''j'', Response = ''7''\<rparr>]\<rparr>"

lemma demo_obs_valid: "valid_observation demo_env (demo_engine True ''a'') (demo_msg (PObserveResp demo_obs))"
  unfolding valid_observation_def verify_response_True
  by (auto simp: demo_msg_def demo_defs demo_obs_def payload_bytes_re_def payload_Bytes_def JSONCodec_def
      simp del: print_json.simps)

theorem grace_threshold_witness:
  "snd (process_all demo_env (replicate 5 (demo_msg (PObserveResp demo_obs))) (demo_engine True ''a'')) =
     [ESpawn HGrace, ESpawn HGrace]"
proof -
  let ?re = "demo_engine True ''a''" and ?msgs = "replicate 5 (demo_msg (PObserveResp demo_obs))"
  have l: "leading ?re" "\<forall>msg\<in>set ?msgs. valid_observation demo_env ?re msg"
    using demo_obs_valid by (simp_all add: leading_def demo_defs)
  have n: "unat (observe_n (re_cacheLayer ?re)) = 0" "unat (pg_f (re_pacemakerGlobals ?re)) = 1"
    by (simp_all add: demo_defs)
  obtain re' es where p: "process_all demo_env ?msgs ?re = (re', es)" by fastforce
  have "es = replicate (0 + length ?msgs - max 0 (2 * 1 + 1)) (ESpawn HGrace)"
    using grace_threshold [OF l] unfolding p n by simp
  with p show ?thesis by (simp add: numeral_eq_Suc)
qed

theorem responses_authentic_witness:
  "\<exists>r re' es. ReportingEngine_ProcessMessage demo_env (demo_msg (PObserveResp demo_obs)) (demo_engine True ''a'') = (r, re', es) \<and>
     ls_reports (re_LeaderState re') = [zero_Report]"
proof -
  let ?re = "demo_engine True ''a''"
  obtain r re' es where p: "ReportingEngine_ProcessMessage demo_env (demo_msg (PObserveResp demo_obs)) ?re = (r, re', es)"
    by (cases "ReportingEngine_ProcessMessage demo_env (demo_msg (PObserveResp demo_obs)) ?re") auto
  have q: "re_quitCh ?re = NilChan" "ls_reports (re_LeaderState ?re) = [zero_Report]" by (simp_all add: demo_defs)
  from responses_authentic [OF q(1) p] q(2) p show ?thesis by (auto simp: demo_msg_def)
qed

definition demo_final :: BroadcastFinalReport where
  "demo_final = \<lparr>bf_Epoch = 3, bf_Round = 1, bf_Leader = ''a'',
     bf_FinalReport = \<lparr>fr_Report = [(''j'', VStr ''7'')],
       fr_Signatories = [\<lparr>sg_Sign = demo_sig, sg_ID = PublicKey_String witness_key\<rparr>]\<rparr>\<rparr>"

definition lone_follower :: ReportingEngine where
  "lone_follower = (demo_engine False ''b'')\<lparr>re_pacemakerGlobals := \<lparr>pg_n = 1, pg_f = 0\<rparr>\<rparr>"

lemma lone_follower_accepts:
  "\<exists>r re' es. ReportingEngine_ProcessMessage demo_env (demo_msg (PFinalReport demo_final)) lone_follower = (r, re', es) \<and>
     re_cacheLayer re' \<noteq> re_cacheLayer lone_follower"
proof -
  obtain b where b: "payload_bytes_re lone_follower (PFinalReport demo_final) = Some b"
    by (simp add: payload_bytes_re_def payload_Bytes_def lone_follower_def demo_defs JSONCodec_def demo_final_def
        finalreport_json_def del: print_json.simps)
  let ?upd = "lone_follower\<lparr>re_cacheLayer := (re_cacheLayer lone_follower)\<lparr>c_finalReport := bf_FinalReport demo_final\<rparr>\<rparr>"
  have f: "pg_f (re_pacemakerGlobals lone_follower) = 0" "re_msgService lone_follower"
    "re_mu lone_follower = False" "re_ready lone_follower" "en_prims demo_env = witness_prims"
    "en_isPeer demo_env i = Ok True" for i
    by (simp_all add: lone_follower_def demo_defs demo_env_def)
  have pc: "rpcMsgPrechecks lone_follower (demo_msg (PFinalReport demo_final)) = Ok True"
    by (simp add: rpcMsgPrechecks_def getCommonFieldsAndPhase_def typeToPhase_def demo_msg_def demo_final_def
        lone_follower_def demo_defs)
  have cnt: "count_signatories demo_env True b 1 (fr_Signatories (bf_FinalReport demo_final)) [] 0 = Ok (Some 1)"
    by (simp add: demo_final_def f)
  have "ReportingEngine_ProcessMessage demo_env (demo_msg (PFinalReport demo_final)) lone_follower =
      ignore_err (sendFinalReportEcho demo_env) ?upd"
    using demo_verify(1) [of b]
    by (simp add: ReportingEngine_ProcessMessage_def f pc)
      (simp add: demo_msg_def process_FinalReport_def act_defs b f cnt Let_def split: prod.split)
  moreover obtain r re' es where e: "ignore_err (sendFinalReportEcho demo_env) ?upd = (r, re', es)"
    by (cases "ignore_err (sendFinalReportEcho demo_env) ?upd") auto
  moreover have "re_cacheLayer re' = re_cacheLayer ?upd" using echo_cache [of demo_env ?upd] by (simp add: e)
  moreover have "re_cacheLayer ?upd \<noteq> re_cacheLayer lone_follower"
    by (simp add: lone_follower_def demo_defs demo_final_def zero_finalreport_def)
  ultimately show ?thesis by metis
qed

theorem final_report_acceptance_witness:
  "\<exists>b ids. payload_bytes_re lone_follower (PFinalReport demo_final) = Some b \<and> ids \<noteq> [] \<and>
     (\<forall>i\<in>set ids. \<exists>s\<in>set (fr_Signatories (bf_FinalReport demo_final)).
        sg_ID s = i \<and> VerifySignature demo_env b i (sg_Sign s) = Ok True)"
proof -
  obtain r re' es where p: "ReportingEngine_ProcessMessage demo_env (demo_msg (PFinalReport demo_final)) lone_follower = (r, re', es)"
      and c: "re_cacheLayer re' \<noteq> re_cacheLayer lone_follower"
    using lone_follower_accepts by blast
  have m: "dm_Data (demo_msg (PFinalReport demo_final)) = Ptr (PFinalReport demo_final)" by (simp add: demo_msg_def)
  have f: "unat (pg_f (re_pacemakerGlobals lone_follower)) + 1 < 2 ^ 63" by (simp add: lone_follower_def demo_defs)
  obtain b ids where "payload_bytes_re lone_follower (PFinalReport demo_final) = Some b"
      "unat (pg_f (re_pacemakerGlobals lone_follower)) + 1 \<le> length ids"
      "\<forall>i\<in>set ids. \<exists>s\<in>set (fr_Signatories (bf_FinalReport demo_final)).
         sg_ID s = i \<and> VerifySignature demo_env b i (sg_Sign s) = Ok True"
    using final_report_acceptance [OF p m f c] by meson
  moreover from this(2) have "ids \<noteq> []" by auto
  ultimately show ?thesis by blast
qed

end
