(* ===== verification/Signatures.thy ===== *)
theory Signatures
  imports Protocol
begin

text \<open>
  What a signature of the protocol covers. The handlers sign and verify the encoded payload itself, not
  a hash of it, and ECDSA uses the first 32 bytes only. Every signed payload starts with the text of
  epoch, round and leader, which is at least that long. So a signature speaks for the round and for
  nothing else of the message: this theory shows it, and what follows for the leader's collections and
  for the quorum of a final report.
\<close>

section \<open>The signed bytes\<close>

text \<open>The beginning of every encoded payload that has the three common fields.\<close>

definition head_text :: "u64 \<Rightarrow> u64 \<Rightarrow> string \<Rightarrow> string" where
  "head_text e r l =
     ''{'' @ print_string ''epoch'' @ '':'' @ nat_str (unat e) @ '','' @ print_string ''round'' @ '':'' @
     nat_str (unat r) @ '','' @ print_string ''leader'' @ '':'' @ print_string l"

lemma print_head:
  "print_json (JObj (head_json e r l @ kvs)) =
     head_text e r l @ (if kvs = [] then [] else '','' @ print_members kvs) @ ''}''"
  by (cases kvs) (simp_all add: head_json_def head_text_def enc_word_def)

lemma length_head_text: "32 \<le> length (head_text e r l)"
proof -
  have "length (print_string ''epoch'') = 7" "length (print_string ''round'') = 7" "length (print_string ''leader'') = 8"
    by code_simp+
  moreover have "1 \<le> length (nat_str n)" for n using nat_str_nonempty [of n] by (cases "nat_str n") simp_all
  from this [of "unat e"] this [of "unat r"] have "2 \<le> length (nat_str (unat e)) + length (nat_str (unat r))" by linarith
  moreover have "2 \<le> length (print_string l)"
    by (simp add: print_string_def)
  ultimately show ?thesis by (simp add: head_text_def)
qed

lemma payload_head:
  assumes "common_fields p = Some (e, r, l)" and "payload_json ff p = Some j"
  obtains rest where "print_json j = head_text e r l @ rest"
proof -
  have "\<exists>kvs. j = JObj (head_json e r l @ kvs)"
    using assms by (cases p) (auto split: option.splits)
  with that show ?thesis by (auto simp: print_head simp del: print_json.simps)
qed

lemma leftmost_payload:
  assumes "si_Codec (re_serverOpts re) = JSONCodec ff" and "common_fields p = Some (e, r, l)"
    and "payload_bytes_re re p = Some b"
  shows "leftmost b = take 32 (head_text e r l)"
proof -
  obtain j where j: "payload_json ff p = Some j" "b = print_json j"
    using assms(1,3) by (auto simp: payload_bytes_re_def payload_Bytes_def JSONCodec_def)
  from payload_head [OF assms(2) j(1)] obtain rest where "b = head_text e r l @ rest" using j(2) by metis
  then show ?thesis using length_head_text [of e r l] by (simp add: leftmost_def)
qed

lemma VerifySignature_leftmost:
  "leftmost b = leftmost b' \<Longrightarrow> VerifySignature env b i s = VerifySignature env b' i s"
  by (auto simp: VerifySignature_def Signature_Verify_def split: res.split option.split)

text \<open>
  C8: A signature covers only the round. Two payloads with the same epoch, round and leader, whatever their
  types and contents, have the same signatures: each signature is accepted for both or for neither,
  under every identity.
\<close>

theorem signature_covers_header:
  assumes "si_Codec (re_serverOpts re) = JSONCodec ff" and "common_fields p = Some h" and "common_fields q = Some h"
    and "payload_bytes_re re p = Some b" and "payload_bytes_re re q = Some b'"
  shows "VerifySignature env b i s = VerifySignature env b' i s"
  using VerifySignature_leftmost leftmost_payload [OF assms(1)] assms(2-5) by (cases h) metis

section \<open>Forged observations\<close>

text \<open>One signature of a node in the round is enough for every response in its name.\<close>

lemma verify_response_forged:
  assumes "si_Codec (re_serverOpts re) = JSONCodec ff" and "common_fields p = Some h"
    and "payload_bytes_re re p = Some b" and "VerifySignature env b (dm_FromId msg) (dm_Signature msg) = Ok True"
    and "common_fields q = Some h" and "payload_bytes_re re q = Some b'"
  shows "verify_response env re msg q = Ok (Some True)"
proof -
  have "leftmost b = leftmost b'" using leftmost_payload [OF assms(1)] assms(2,3,5,6) by (cases h) metis
  then have "VerifySignature env b' (dm_FromId msg) (dm_Signature msg) = Ok True"
    using VerifySignature_leftmost assms(4) by metis
  with assms(6) show ?thesis by (auto simp: verify_response_True)
qed

text \<open>
  C15: Observations can be forged. Whoever has seen one signed payload of a node in the current round can
  make the leader replace that node's observations by any others, and count them.
\<close>

theorem observation_forgery:
  assumes "leading re" and "si_Codec (re_serverOpts re) = JSONCodec ff"
    and "common_fields p = Some (re_epoch re, re_curRound re, re_leader re)" and "payload_bytes_re re p = Some b"
    and "VerifySignature env b i s = Ok True"
    and "common_fields (PObserveResp m) = Some (re_epoch re, re_curRound re, re_leader re)"
  shows "\<exists>re' es. ReportingEngine_ProcessMessage env
             \<lparr>dm_FromId = i, dm_Topic = t, dm_Data = Ptr (PObserveResp m), dm_Signature = s\<rparr> re = (Ok (), re', es) \<and>
           Load (ls_observations (re_LeaderState re')) i = Some (group_responses (or_JobResponses m)) \<and>
           observe_n (re_cacheLayer re') = observe_n (re_cacheLayer re) + 1"
proof -
  let ?msg = "\<lparr>dm_FromId = i, dm_Topic = t, dm_Data = Ptr (PObserveResp m), dm_Signature = s\<rparr>"
  obtain b' where "payload_bytes_re re (PObserveResp m) = Some b'"
    using assms(2) by (simp add: payload_bytes_re_def payload_Bytes_def JSONCodec_def del: print_json.simps)
  then have "valid_observation env re ?msg"
    using verify_response_forged [OF assms(2-4) _ assms(6), of env ?msg] assms(5,6)
    by (simp add: valid_observation_def)
  then obtain re' es where "ReportingEngine_ProcessMessage env ?msg re = (Ok (), re', es)"
      "observe_n (re_cacheLayer re') = observe_n (re_cacheLayer re) + 1"
      "ls_observations (re_LeaderState re') =
         Store (fst (observed_jobs ?msg)) (snd (observed_jobs ?msg)) (ls_observations (re_LeaderState re))"
    using observation_step [OF assms(1)] by metis
  then show ?thesis by (auto simp: observed_jobs_def obs.get_put)
qed

section \<open>The quorum of a final report\<close>

lemma VerifySignature_True:
  "VerifySignature env b i s = Ok True \<longleftrightarrow>
     (\<exists>pk. StringToPublicKey (en_prims env) i = Ok pk \<and>
        Signature_Verify (en_prims env) s b pk = (Ok True :: (engine_error, bool) res))"
  by (auto simp: VerifySignature_def split: res.splits)

lemma count_signatories_complete:
  assumes "\<forall>s\<in>set ss. en_isPeer env (sg_ID s) = Ok True \<and> VerifySignature env b (sg_ID s) (sg_Sign s) = Ok True"
    and "distinct u" and "length u = n" and "int n < th" and "th \<le> int (card (set u \<union> sg_ID ` set ss))"
  shows "\<exists>n'. count_signatories env True b th ss u n = Ok (Some n') \<and> th \<le> int n'"
  using assms
proof (induction ss arbitrary: u n)
  case Nil
  then show ?case by (simp add: distinct_card)
next
  case (Cons s ss)
  obtain pk where pk: "StringToPublicKey (en_prims env) (sg_ID s) = Ok pk"
      "Signature_Verify (en_prims env) (sg_Sign s) b pk = (Ok True :: (engine_error, bool) res)"
    and peer: "en_isPeer env (sg_ID s) = Ok True"
    using Cons.prems(1) VerifySignature_True by auto
  define new where "new \<longleftrightarrow> sg_ID s \<notin> set u"
  define u' where "u' = (if new then sg_ID s # u else u)"
  define m where "m = (if new then n + 1 else n)"
  have step: "count_signatories env True b th (s # ss) u n =
      (if th \<le> int m then Ok (Some m) else count_signatories env True b th ss u' m)"
    by (simp add: pk peer Let_def u'_def m_def new_def)
  have "set u \<union> sg_ID ` set (s # ss) = set u' \<union> sg_ID ` set ss" by (auto simp: u'_def new_def)
  then have "th \<le> int (card (set u' \<union> sg_ID ` set ss))" using Cons.prems(5) by simp
  moreover have "distinct u'" "length u' = m" using Cons.prems(2,3) by (simp_all add: u'_def m_def new_def)
  ultimately have "\<not> th \<le> int m \<Longrightarrow> ?case"
    unfolding step using Cons.IH [of u' m] Cons.prems(1) by simp
  then show ?case unfolding step by (cases "th \<le> int m") auto
qed

text \<open>
  C10: A final report with a quorum is accepted: when the sender's signature over it verifies and the listed
  signatories are peers, at least \<open>f + 1\<close> different ones, each with a signature of some payload of
  the round (the signatories of \<open>assembleFinalReport\<close> signed their REPORT-RES), the follower stores the
  report.
\<close>

theorem final_report_quorum:
  assumes "re_ready re" and "\<not> re_mu re" and "re_msgService re" and "si_Codec (re_serverOpts re) = JSONCodec ff"
    and "dm_Data msg = Ptr (PFinalReport m)"
    and "common_fields (PFinalReport m) = Some h" and "h = (re_epoch re, re_curRound re, re_leader re)"
    and "payload_bytes_re re (PFinalReport m) = Some b"
    and "VerifySignature env b (dm_FromId msg) (dm_Signature msg) = Ok True"
    and "\<And>s. s \<in> set (fr_Signatories (bf_FinalReport m)) \<Longrightarrow> en_isPeer env (sg_ID s) = Ok True \<and>
           (\<exists>p bp. common_fields p = Some h \<and> payload_bytes_re re p = Some bp \<and>
              VerifySignature env bp (sg_ID s) (sg_Sign s) = Ok True)"
    and "unat (pg_f (re_pacemakerGlobals re)) + 1 \<le> card (sg_ID ` set (fr_Signatories (bf_FinalReport m)))"
    and "unat (pg_f (re_pacemakerGlobals re)) + 1 < 2 ^ 63"
  shows "re_cacheLayer (fst (snd (ReportingEngine_ProcessMessage env msg re))) =
           (re_cacheLayer re)\<lparr>c_finalReport := bf_FinalReport m\<rparr>"
proof -
  let ?ss = "fr_Signatories (bf_FinalReport m)" and ?th = "sint (pg_f (re_pacemakerGlobals re) + 1)"
  have th: "?th = int (unat (pg_f (re_pacemakerGlobals re)) + 1)" by (rule sint_threshold [OF assms(12)])
  have "VerifySignature env b (sg_ID s) (sg_Sign s) = Ok True" if "s \<in> set ?ss" for s
    using assms(10) [OF that] leftmost_payload [OF assms(4)] VerifySignature_leftmost assms(6,8) by (cases h) metis
  then have ver: "\<forall>s\<in>set ?ss. en_isPeer env (sg_ID s) = Ok True \<and> VerifySignature env b (sg_ID s) (sg_Sign s) = Ok True"
    using assms(10) by blast
  have "int 0 < ?th" "?th \<le> int (card (set [] \<union> sg_ID ` set ?ss))"
    using assms(11) unfolding th by (simp_all only: of_nat_le_iff of_nat_less_iff Un_empty_left list.set)
  then obtain n where n: "count_signatories env True b ?th ?ss [] 0 = Ok (Some n)" "?th \<le> int n"
    using count_signatories_complete [OF ver distinct.simps(1) [THEN iffD2, OF TrueI] list.size(3)] by blast
  have "ReportingEngine_ProcessMessage env msg re = process_FinalReport env msg m re"
    using assms(1,2,5-7)
    by (simp add: ReportingEngine_ProcessMessage_def rpcMsgPrechecks_def getCommonFieldsAndPhase_def typeToPhase_def)
  then show ?thesis
    using echo_cache [of env "re\<lparr>re_cacheLayer := (re_cacheLayer re)\<lparr>c_finalReport := bf_FinalReport m\<rparr>\<rparr>"] n
    by (simp add: process_FinalReport_def act_defs assms(3,8,9) Let_def case_prod_unfold)
qed

section \<open>Witnesses\<close>

definition demo_echo :: FinalEcho where
  "demo_echo = \<lparr>fe_Epoch = 3, fe_Round = 1, fe_Leader = ''a''\<rparr>"

lemma demo_payload_bytes:
  assumes "p \<in> {PFinalEcho demo_echo, PObserveResp demo_obs, PFinalReport demo_final}"
    and "si_Codec (re_serverOpts re) = JSONCodec (\<lambda>_. ''0'')"
  shows "\<exists>b. payload_bytes_re re p = Some b" "common_fields p = Some (3, 1, ''a'')"
  using assms by (auto simp: payload_bytes_re_def payload_Bytes_def JSONCodec_def demo_echo_def demo_obs_def
      demo_final_def finalreport_json_def simp del: print_json.simps)

theorem signature_covers_header_witness:
  "\<exists>b b'. payload_bytes_re (demo_engine True ''a'') (PFinalEcho demo_echo) = Some b \<and>
     payload_bytes_re (demo_engine True ''a'') (PObserveResp demo_obs) = Some b' \<and>
     VerifySignature demo_env b (PublicKey_String witness_key) demo_sig =
       VerifySignature demo_env b' (PublicKey_String witness_key) demo_sig"
proof -
  have c: "si_Codec (re_serverOpts (demo_engine True ''a'')) = JSONCodec (\<lambda>_. ''0'')" by (simp add: demo_defs)
  obtain b b' where "payload_bytes_re (demo_engine True ''a'') (PFinalEcho demo_echo) = Some b"
      "payload_bytes_re (demo_engine True ''a'') (PObserveResp demo_obs) = Some b'"
    using demo_payload_bytes(1) [OF _ c] by blast
  then show ?thesis
    using signature_covers_header [OF c demo_payload_bytes(2) [OF _ c] demo_payload_bytes(2) [OF _ c],
        of "PFinalEcho demo_echo" "PObserveResp demo_obs" b b'] by blast
qed

theorem observation_forgery_witness:
  "\<exists>re' es. ReportingEngine_ProcessMessage demo_env (demo_msg (PObserveResp demo_obs)) (demo_engine True ''a'') =
       (Ok (), re', es) \<and>
     Load (ls_observations (re_LeaderState re')) (PublicKey_String witness_key) =
       Some (group_responses (or_JobResponses demo_obs))"
proof -
  let ?re = "demo_engine True ''a''"
  have c: "si_Codec (re_serverOpts ?re) = JSONCodec (\<lambda>_. ''0'')" and l: "leading ?re"
    and h: "re_epoch ?re = 3" "re_curRound ?re = 1" "re_leader ?re = ''a''"
    by (simp_all add: leading_def demo_defs)
  obtain b where b: "payload_bytes_re ?re (PFinalEcho demo_echo) = Some b"
    using demo_payload_bytes(1) [OF _ c] by blast
  have f: "common_fields (PFinalEcho demo_echo) = Some (re_epoch ?re, re_curRound ?re, re_leader ?re)"
    "common_fields (PObserveResp demo_obs) = Some (re_epoch ?re, re_curRound ?re, re_leader ?re)"
    unfolding h by (rule demo_payload_bytes(2) [OF _ c], simp)+
  from observation_forgery [OF l c f(1) b demo_verify(1) f(2), of TopicReporter] show ?thesis
    unfolding demo_msg_def by blast
qed

theorem final_report_quorum_witness:
  "re_cacheLayer (fst (snd (ReportingEngine_ProcessMessage demo_env (demo_msg (PFinalReport demo_final)) lone_follower))) =
     (re_cacheLayer lone_follower)\<lparr>c_finalReport := bf_FinalReport demo_final\<rparr>"
proof -
  let ?re = lone_follower
  have c: "si_Codec (re_serverOpts ?re) = JSONCodec (\<lambda>_. ''0'')"
    and h: "re_epoch ?re = 3" "re_curRound ?re = 1" "re_leader ?re = ''a''"
    and s: "re_ready ?re" "\<not> re_mu ?re" "re_msgService ?re" "pg_f (re_pacemakerGlobals ?re) = 0"
    by (simp_all add: lone_follower_def demo_defs)
  obtain b e where b: "payload_bytes_re ?re (PFinalReport demo_final) = Some b"
      and e: "payload_bytes_re ?re (PFinalEcho demo_echo) = Some e"
    using demo_payload_bytes(1) [OF _ c] by blast
  have f: "common_fields (PFinalReport demo_final) = Some (3, 1, ''a'')"
    "common_fields (PFinalEcho demo_echo) = Some (3, 1, ''a'')"
    by (rule demo_payload_bytes(2) [OF _ c], simp)+
  show ?thesis
  proof (rule final_report_quorum [where h = "(3, 1, ''a'')", OF s(1-3) c _ f(1) _ b])
    show "VerifySignature demo_env b (dm_FromId (demo_msg (PFinalReport demo_final)))
        (dm_Signature (demo_msg (PFinalReport demo_final))) = Ok True"
      by (simp add: demo_msg_def)
    show "en_isPeer demo_env (sg_ID s) = Ok True \<and>
        (\<exists>p bp. common_fields p = Some (3, 1, ''a'') \<and> payload_bytes_re ?re p = Some bp \<and>
           VerifySignature demo_env bp (sg_ID s) (sg_Sign s) = Ok True)"
      if "s \<in> set (fr_Signatories (bf_FinalReport demo_final))" for s
    proof -
      have "s = \<lparr>sg_Sign = demo_sig, sg_ID = PublicKey_String witness_key\<rparr>" using that by (simp add: demo_final_def)
      moreover have "en_isPeer demo_env (PublicKey_String witness_key) = Ok True" by (simp add: demo_env_def)
      ultimately show ?thesis using e f(2) demo_verify(1) [of e] by (metis Signatories.select_convs)
    qed
  qed (simp_all add: demo_msg_def demo_final_def h s)
qed

end
