(* ===== verification/JsonFraming.thy ===== *)
theory JsonFraming
  imports JsonCodec
begin

text \<open>
  What the JSON reader does with more text than a value: an accepted value is read the same way when
  text follows it. So no proper prefix of a written object is accepted, and neither is an object
  with another value behind it. The network's read loop rests on this: one read decodes only if it
  holds exactly one message.
\<close>

section \<open>Lemmas\<close>

lemma skip_ws_append: "skip_ws s \<noteq> [] \<Longrightarrow> skip_ws (s @ t) = skip_ws s @ t"
  by (induction s) (auto simp: skip_ws_def)

lemma skip_ws_append_Cons: "skip_ws s = c # r \<Longrightarrow> skip_ws (s @ t) = c # r @ t"
  using skip_ws_append [of s t] by simp

text \<open>The second half of a surrogate pair, if it follows: its value and the text behind it.\<close>

definition low_half :: "nat \<Rightarrow> string \<Rightarrow> (nat \<times> string) option" where
  "low_half n s =
     (case s of
        bs # u # a # b # x # d # s' \<Rightarrow>
          (case hex4 a b x d of
             Some m \<Rightarrow>
               if bs = CHR 0x5C \<and> u = CHR ''u'' \<and> n < 0xDC00 \<and> 0xDC00 \<le> m \<and> m < 0xE000
               then Some (m, s') else None
           | None \<Rightarrow> None)
      | _ \<Rightarrow> None)"

lemma low_half_split:
  "(case s of
      bs # u # a # b # x # d # s' \<Rightarrow>
        (case hex4 a b x d of
           Some m \<Rightarrow>
             if bs = CHR 0x5C \<and> u = CHR ''u'' \<and> n < 0xDC00 \<and> 0xDC00 \<le> m \<and> m < 0xE000 then F m s' else G
         | None \<Rightarrow> G)
    | _ \<Rightarrow> G) = (case low_half n s of Some (m, s') \<Rightarrow> F m s' | None \<Rightarrow> G)"
  by (simp add: low_half_def split: list.split option.split)

lemma parse_string_body_plain:
  "c \<noteq> CHR 0x5C \<Longrightarrow>
     parse_string_body (c # s) =
       (if c = CHR 0x22 then Some ([], s)
        else if of_char c < (32::nat) then None
        else map_option (apfst (Cons c)) (parse_string_body s))"
  by (simp add: parse_string_body.simps)

lemma parse_string_body_escaped:
  "parse_string_body (CHR 0x5C # s) =
     (case s of
        [] \<Rightarrow> None
      | e # s1 \<Rightarrow>
          (case simple_escape e of
             Some x \<Rightarrow> map_option (apfst (Cons x)) (parse_string_body s1)
           | None \<Rightarrow>
               if e = CHR ''u'' then
                 (case s1 of
                    a # b # x # d # s2 \<Rightarrow>
                      (case hex4 a b x d of
                         None \<Rightarrow> None
                       | Some n \<Rightarrow>
                           if 0xD800 \<le> n \<and> n < 0xE000 then
                             (case low_half n s2 of
                                Some (m, s3) \<Rightarrow>
                                  map_option (apfst (append (utf8 (0x10000 + (n - 0xD800) * 1024 + (m - 0xDC00)))))
                                    (parse_string_body s3)
                              | None \<Rightarrow> map_option (apfst (append (utf8 0xFFFD))) (parse_string_body s2))
                           else map_option (apfst (append (utf8 n))) (parse_string_body s2))
                  | _ \<Rightarrow> None)
               else None))"
  by (simp only: parse_string_body.simps(2) low_half_split if_True if_False refl simp_thms char.inject)

lemma low_half_Some_iff:
  "low_half n s = Some (m, s') \<longleftrightarrow>
     (\<exists>a b x d. s = CHR 0x5C # CHR ''u'' # a # b # x # d # s' \<and> hex4 a b x d = Some m \<and>
        n < 0xDC00 \<and> 0xDC00 \<le> m \<and> m < 0xE000)"
  by (simp add: low_half_def split: list.split option.split) blast

lemma low_half_Some:
  "low_half n s = Some (m, s') \<Longrightarrow> low_half n (s @ t) = Some (m, s' @ t) \<and> length s' < length s"
  unfolding low_half_Some_iff by auto

lemma parse_string_body_short:
  "length r < 4 \<Longrightarrow> parse_string_body (CHR 0x5C # CHR ''u'' # r) = None"
  by (auto simp: parse_string_body_escaped simple_escape_def split: list.split)

lemma low_half_None:
  assumes "low_half n s = None" and "parse_string_body s = Some kr"
  shows "low_half n (s @ t) = None"
proof (rule ccontr)
  assume "low_half n (s @ t) \<noteq> None"
  then obtain a b x d m r where st: "s @ t = CHR 0x5C # CHR ''u'' # a # b # x # d # r"
    and m: "hex4 a b x d = Some m" "n < 0xDC00" "0xDC00 \<le> m" "m < 0xE000"
    by (auto simp: low_half_Some_iff)
  then consider "s = []" | "s = [CHR 0x5C]" | r' where "s = CHR 0x5C # CHR ''u'' # r'" "length r' < 4"
    | s' where "s = CHR 0x5C # CHR ''u'' # a # b # x # d # s'"
    by (auto simp: append_eq_Cons_conv)
  then show False
  proof cases
    case 3
    with assms(2) parse_string_body_short [of r'] show False by simp
  next
    case (4 s')
    with m have "low_half n s = Some (m, s')" by (simp add: low_half_Some_iff)
    with assms(1) show False by simp
  qed (use assms(2) in \<open>simp_all add: parse_string_body_escaped parse_string_body.simps(1)\<close>)
qed

lemma parse_string_body_append:
  "parse_string_body s = Some (k, r) \<Longrightarrow> parse_string_body (s @ t) = Some (k, r @ t)"
proof (induction s arbitrary: k r rule: length_induct)
  case (1 s)
  then have IH: "map_option (apfst g) (parse_string_body u) = Some (k, r) \<Longrightarrow>
      map_option (apfst g) (parse_string_body (u @ t)) = Some (k, r @ t)"
    if "length u < length s" for u k r g using that by auto
  show ?case
  proof (cases s)
    case Nil
    with "1.prems" show ?thesis by (simp add: parse_string_body.simps)
  next
    case (Cons c s')
    show ?thesis
    proof (cases "c = CHR 0x5C")
      case False
      with Cons "1.prems" IH [of s' "Cons c" k r] show ?thesis
        by (simp add: parse_string_body_plain del: map_option_eq_Some split: if_splits)
    next
      case True
      with Cons "1.prems" obtain e s1 where s: "s = CHR 0x5C # e # s1"
        by (auto simp: parse_string_body_escaped split: list.splits)
      show ?thesis
      proof (cases "simple_escape e")
        case (Some x)
        with s "1.prems" IH [of s1 "Cons x" k r] show ?thesis
          by (simp add: parse_string_body_escaped del: map_option_eq_Some)
      next
        case None
        with s "1.prems" obtain a b x d s2 n where
          u: "e = CHR ''u''" "s1 = a # b # x # d # s2" "hex4 a b x d = Some n"
          by (auto simp: parse_string_body_escaped split: if_splits list.splits option.splits)
        show ?thesis
        proof (cases "low_half n s2")
          case half: None
          show ?thesis
            using s None u half "1.prems" low_half_None [OF half, of _ t]
              IH [of s2 "append (utf8 n)" k r] IH [of s2 "append (utf8 0xFFFD)" k r]
            by (auto simp: parse_string_body_escaped simp del: map_option_eq_Some split: if_splits)
        next
          case (Some p)
          then obtain m s3 where p: "low_half n s2 = Some (m, s3)" by (cases p) simp
          show ?thesis
            using s None u p low_half_Some [OF p, of t] "1.prems" IH [of s2 "append (utf8 n)" k r]
              IH [of s3 "append (utf8 (0x10000 + (n - 0xD800) * 1024 + (m - 0xDC00)))" k r]
            by (auto simp: parse_string_body_escaped simp del: map_option_eq_Some split: if_splits)
        qed
      qed
    qed
  qed
qed

lemma dropWhile_append_rest:
  "dropWhile P s \<noteq> [] \<Longrightarrow> dropWhile P (s @ t) = dropWhile P s @ t \<and> takeWhile P (s @ t) = takeWhile P s"
  by (induction s) auto

lemma lex_int_rest: "lex_int s = Some (a, r) \<Longrightarrow> r \<noteq> [] \<Longrightarrow> lex_int (s @ t) = Some (a, r @ t)"
  using dropWhile_append_rest [of is_digit s t]
  by (auto simp: lex_int_def split: list.splits if_splits)

lemma lex_frac_rest: "lex_frac s = Some (a, r) \<Longrightarrow> r \<noteq> [] \<Longrightarrow> lex_frac (s @ t) = Some (a, r @ t) \<and> s \<noteq> []"
  by (cases s) (auto simp: lex_frac_def dropWhile_append_rest split: if_splits)

lemma lex_exp_rest:
  assumes "lex_exp s = Some (a, r)" and "r \<noteq> []"
  shows "lex_exp (s @ t) = Some (a, r @ t) \<and> s \<noteq> []"
proof (cases s)
  case (Cons c s')
  with assms show ?thesis
    by (cases s') (auto simp: lex_exp_def Let_def dropWhile_append_rest split: if_splits)
qed (use assms in \<open>simp add: lex_exp_def\<close>)

lemma lex_unsigned_rest:
  assumes "lex_unsigned s = Some (x, r)" and "r \<noteq> []"
  shows "lex_unsigned (s @ t) = Some (x, r @ t)"
proof -
  from assms(1) obtain a s2 b s3 c where l: "lex_int s = Some (a, s2)" "lex_frac s2 = Some (b, s3)"
      "lex_exp s3 = Some (c, r)" and x: "x = a @ b @ c"
    by (auto simp: lex_unsigned_def split: option.splits)
  from lex_exp_rest [OF l(3) assms(2)] have e: "lex_exp (s3 @ t) = Some (c, r @ t)" "s3 \<noteq> []" by auto
  from lex_frac_rest [OF l(2) e(2)] have f: "lex_frac (s2 @ t) = Some (b, s3 @ t)" "s2 \<noteq> []" by auto
  from lex_int_rest [OF l(1) f(2)] e f x show ?thesis by (simp add: lex_unsigned_def)
qed

lemma lex_number_rest:
  "lex_number s = Some (x, r) \<Longrightarrow> r \<noteq> [] \<Longrightarrow> lex_number (s @ t) = Some (x, r @ t)"
  using lex_unsigned_rest [of s x r t] lex_unsigned_rest [of "List.tl s" "List.tl x" r t]
  by (cases s) (auto simp: lex_number_def split: if_splits)

lemma take_append_match: "take n s = w \<Longrightarrow> length w = n \<Longrightarrow> take n (s @ t) = w \<and> drop n (s @ t) = drop n s @ t"
  by (auto simp: min_def split: if_splits)

lemma parse_members_parts:
  assumes "parse_members (Suc n) s = Some x"
  obtains s1 k s2 s3 v u d w where "skip_ws s = CHR 0x22 # s1" "parse_string_body s1 = Some (k, s2)"
    "skip_ws s2 = CHR '':'' # s3" "parse_value n s3 = Some (v, u)" "skip_ws u = d # w"
proof -
  from assms obtain s1 where q: "skip_ws s = CHR 0x22 # s1" by (auto split: list.splits if_splits)
  with assms obtain k s2 where k: "parse_string_body s1 = Some (k, s2)" by (auto split: option.splits)
  with assms q obtain s3 where s3: "skip_ws s2 = CHR '':'' # s3" by (auto split: list.splits if_splits)
  with assms q k obtain v u where v: "parse_value n s3 = Some (v, u)" by (auto split: option.splits)
  with assms q k s3 obtain d w where "skip_ws u = d # w" by (auto split: list.splits)
  with that q k s3 v show ?thesis by blast
qed

lemma parse_append:
  "parse_value n s = Some (v, r) \<Longrightarrow> r \<noteq> [] \<or> (\<exists>u. skip_ws s = CHR ''{'' # u) \<Longrightarrow>
     parse_value n (s @ t) = Some (v, r @ t)"
  "parse_elems n s = Some (vs, r) \<Longrightarrow> parse_elems n (s @ t) = Some (vs, r @ t)"
  "parse_members n s = Some (kvs, r) \<Longrightarrow> parse_members n (s @ t) = Some (kvs, r @ t)"
proof (induction n s and n s and n s arbitrary: v r and vs r and kvs r
    rule: parse_value_parse_elems_parse_members.induct)
  case (2 n s)
  then obtain c u where c: "skip_ws s = c # u" by (auto split: list.splits)
  note st = skip_ws_append_Cons [OF c, of t]
  consider "c = CHR 0x22" | "c = CHR ''[''" | "c = CHR ''{''" | "c = CHR ''n''" | "c = CHR ''t''"
    | "c = CHR ''f''" | "c \<noteq> CHR 0x22" "c \<noteq> CHR ''[''" "c \<noteq> CHR ''{''" "c \<noteq> CHR ''n''" "c \<noteq> CHR ''t''"
      "c \<noteq> CHR ''f''"
    by blast
  then show ?case
  proof cases
    case 1
    with 2 c st show ?thesis by (auto dest: parse_string_body_append)
  next
    case 2
    with "2.prems" c obtain d w where d: "skip_ws u = d # w" by (auto split: list.splits)
    with 2 "2.prems" "2.IH"(1) [OF c _ _ d] c st skip_ws_append_Cons [OF d, of t] show ?thesis
      by (auto split: if_splits)
  next
    case 3
    with "2.prems" c obtain d w where d: "skip_ws u = d # w" by (auto split: list.splits)
    with 3 "2.prems" "2.IH"(2) [OF c _ _ _ d] c st skip_ws_append_Cons [OF d, of t] show ?thesis
      by (auto split: if_splits)
  next
    case 7
    with "2.prems" c st show ?thesis
      by (auto dest: lex_number_rest [where s = "c # u" and t = t])
  qed (use "2.prems" c st in \<open>auto dest: take_append_match [where t = t] split: if_splits\<close>)
next
  case (4 n s)
  then obtain v u where v: "parse_value n s = Some (v, u)" by (auto split: option.splits)
  with "4.prems" obtain d w where d: "skip_ws u = d # w" by (auto split: list.splits)
  then have "u \<noteq> []" by (auto simp: skip_ws_def)
  with 4 v d skip_ws_append_Cons [OF d, of t] show ?case by (auto split: if_splits)
next
  case (6 n s)
  from "6.prems" obtain s1 k s2 s3 v u d w where q: "skip_ws s = CHR 0x22 # s1"
    and k: "parse_string_body s1 = Some (k, s2)" and s3: "skip_ws s2 = CHR '':'' # s3"
    and v: "parse_value n s3 = Some (v, u)" and d: "skip_ws u = d # w"
    by (blast elim: parse_members_parts)
  then have "u \<noteq> []" by (auto simp: skip_ws_def)
  with 6 q k s3 v d skip_ws_append_Cons [OF d, of t] skip_ws_append_Cons [OF q, of t]
    skip_ws_append_Cons [OF s3, of t] parse_string_body_append [OF k, of t]
  show ?case by (auto split: if_splits)
qed simp_all

lemma parse_fuel:
  "parse_value n s = Some x \<Longrightarrow> n \<le> m \<Longrightarrow> parse_value m s = Some x"
  "parse_elems n s = Some xs \<Longrightarrow> n \<le> m \<Longrightarrow> parse_elems m s = Some xs"
  "parse_members n s = Some ms \<Longrightarrow> n \<le> m \<Longrightarrow> parse_members m s = Some ms"
proof (induction n s and n s and n s arbitrary: m x and m xs and m ms
    rule: parse_value_parse_elems_parse_members.induct)
  case (2 n s)
  from "2.prems"(2) obtain m' where m: "m = Suc m'" "n \<le> m'" by (cases m) auto
  from "2.prems" obtain c u where c: "skip_ws s = c # u" by (auto split: list.splits)
  show ?case
  proof (cases "c = CHR ''['' \<or> c = CHR ''{''")
    case True
    with "2.prems" c obtain d w where d: "skip_ws u = d # w" by (auto split: list.splits)
    from True "2.prems" "2.IH"(1) [OF c _ _ d _ _ m(2)] "2.IH"(2) [OF c _ _ _ d _ _ m(2)] c d m
    show ?thesis by (auto split: if_splits)
  next
    case False
    then have "parse_value m s = parse_value (Suc n) s"
      by (simp only: m parse_value.simps c list.case de_Morgan_disj if_False simp_thms)
    with "2.prems"(1) show ?thesis by simp
  qed
next
  case (4 n s)
  from "4.prems"(2) obtain m' where m: "m = Suc m'" "n \<le> m'" by (cases m) auto
  from "4.prems" obtain v u where v: "parse_value n s = Some (v, u)" by (auto split: option.splits)
  with "4.prems" obtain d w where d: "skip_ws u = d # w" by (auto split: list.splits)
  note IH = "4.IH"(1) [OF v m(2)] "4.IH"(2) [OF v refl d _ _ m(2)]
  from "4.prems"(1) m(1) v d IH show ?case by (auto split: if_splits)
next
  case (6 n s)
  from "6.prems"(2) obtain m' where m: "m = Suc m'" "n \<le> m'" by (cases m) auto
  from "6.prems" obtain s1 k s2 s3 v u d w where q: "skip_ws s = CHR 0x22 # s1"
    and k: "parse_string_body s1 = Some (k, s2)" and s3: "skip_ws s2 = CHR '':'' # s3"
    and v: "parse_value n s3 = Some (v, u)" and d: "skip_ws u = d # w"
    by (blast elim: parse_members_parts)
  note IH = "6.IH"(1) [OF q _ k refl s3 _ v m(2)] "6.IH"(2) [OF q _ k refl s3 _ v refl d _ _ m(2)]
  from "6.prems"(1) m(1) q k s3 v d IH show ?case by (auto split: if_splits)
qed simp_all

lemma json_parse_prefix:
  assumes "json_wf (JObj kvs)" and "print_json (JObj kvs) = p @ q" and "q \<noteq> []"
  shows "json_parse p = None"
proof (rule ccontr)
  assume "json_parse p \<noteq> None"
  then obtain v r where p: "parse_value (2 * length p + 1) p = Some (v, r)"
    by (auto simp: json_parse_def split: option.splits)
  then have "p \<noteq> []" by (auto simp: skip_ws_def)
  with assms(2) have "\<exists>u. skip_ws p = CHR ''{'' # u" by (cases p) auto
  then have "parse_value (2 * length p + 1) (p @ q) = Some (v, r @ q)"
    using parse_append(1) [OF p] by blast
  then have "parse_value (2 * length (p @ q) + 1) (p @ q) = Some (v, r @ q)"
    by (rule parse_fuel(1)) simp
  moreover have "parse_value (2 * length (p @ q) + 1) (p @ q) = Some (JObj kvs, [])"
    using parse_print(1) [OF assms(1), of "[]" "2 * length (p @ q) + 1"] assms(2)
    by (simp add: num_stop_def del: parse_value.simps print_json.simps)
  ultimately show False using assms(3) by simp
qed

lemma json_parse_trailing:
  assumes "json_wf (JObj kvs)"
  shows "json_parse (print_json (JObj kvs) @ r) = (if skip_ws r = [] then Some (JObj kvs) else None)"
proof -
  let ?b = "print_json (JObj kvs)"
  have "parse_value (2 * length ?b + 1) ?b = Some (JObj kvs, [])"
    using parse_print(1) [OF assms, of "[]" "2 * length ?b + 1"]
    by (simp add: num_stop_def del: parse_value.simps print_json.simps)
  moreover have "\<exists>u. skip_ws ?b = CHR ''{'' # u" by simp
  ultimately have "parse_value (2 * length ?b + 1) (?b @ r) = Some (JObj kvs, r)"
    using parse_append(1) [of "2 * length ?b + 1" ?b "JObj kvs" "[]" r] by simp
  then have "parse_value (2 * length (?b @ r) + 1) (?b @ r) = Some (JObj kvs, r)"
    by (rule parse_fuel(1)) simp
  then show ?thesis by (simp add: json_parse_def del: print_json.simps)
qed

lemma skip_ws_Nil_iff: "skip_ws r = [] \<longleftrightarrow> (\<forall>c \<in> set r. is_ws c)"
  by (simp add: skip_ws_def)

end
