(* ===== verification/Transport.thy ===== *)
theory Transport
  imports JsonFraming Processor LeaderSelection "HOL-Library.Sublist"
begin

text \<open>
  \<open>network/libp2p_transport.go\<close>: the transport over libp2p. Sending keeps one stream per peer in a
  cache; every incoming stream has a read loop that decodes what one \<open>Read\<close> returned and puts it into
  the channel the server consumes; discovered peers go into a second channel.

  libp2p is outside the repository. Its text form of identities is the record \<open>peer_lib\<close>, the host is
  the record \<open>p2p_host\<close>, and what the network answers at the time of a call (which peers are connected,
  whether a stream opens, whether a write succeeds) is a record \<open>net\<close>, an argument of the call.
  A stream is a number. A buffered channel is the list of what it holds; \<open>fan_step\<close> are the steps of
  the read loops and \<open>consume_step\<close> those of the loop of \<open>ocr/server.go\<close> that consumes the message
  channel, interleaved in any order. One read returns at most \<open>read_buffer\<close> bytes: \<open>decode_chunk\<close> of a
  whole message speaks of a message that fits this buffer and that the network did not split.
\<close>

section \<open>Definitions\<close>

subsection \<open>State\<close>

record peer_lib =
  peer_Decode :: "string \<Rightarrow> string option"
  peer_String :: "string \<Rightarrow> string"

record p2p_host =
  host_ID :: string
  host_Addrs :: "string list"

record net =
  net_Peers :: "string list"
  net_NewStream :: "string \<Rightarrow> nat option"
  net_Write :: "nat \<Rightarrow> bytes \<Rightarrow> bool"

record LibP2pTransport =
  lt_host :: "p2p_host option"
  lt_peerCh :: "Peer list"
  lt_codec :: codec
  lt_streams :: "(string, nat) gomap"

datatype transport_error = InvalidPeerID | OpenStreamFailed | WriteFailed | ConnectFailed

definition peerCh_cap :: nat where "peerCh_cap = 100"
definition msgCh_cap :: nat where "msgCh_cap = 1024"
definition read_buffer :: nat where "read_buffer = 4096"

definition NewLibp2pTransport :: "codec \<Rightarrow> LibP2pTransport" where
  "NewLibp2pTransport c = \<lparr>lt_host = None, lt_peerCh = [], lt_codec = c, lt_streams = []\<rparr>"

text \<open>
  \<open>Start\<close>: the results of the resource manager, of \<open>libp2p.New\<close> and of the discovery service are
  arguments. \<open>log.Fatal\<close> ends the process; here it is a panic like the other two failures.
\<close>

definition DiscoverPeers :: "bool \<Rightarrow> LibP2pTransport \<Rightarrow> (transport_error, LibP2pTransport) res" where
  "DiscoverPeers mdns_ok lt = (if mdns_ok then Ok lt else Panicked (ExplicitPanic ''mdns''))"

definition Transport_Start ::
  "bool \<Rightarrow> p2p_host option \<Rightarrow> bool \<Rightarrow> LibP2pTransport \<Rightarrow> (transport_error, LibP2pTransport) res" where
  "Transport_Start rmgr_ok new_host mdns_ok lt =
     (if \<not> rmgr_ok then Panicked (ExplicitPanic ''log.Fatal'')
      else (case new_host of
              None \<Rightarrow> Panicked (ExplicitPanic ''libp2p.New'')
            | Some h \<Rightarrow> DiscoverPeers mdns_ok (lt\<lparr>lt_host := Some h\<rparr>)))"

definition Transport_ID :: "peer_lib \<Rightarrow> LibP2pTransport \<Rightarrow> ('e, string) res" where
  "Transport_ID lib lt =
     (case lt_host lt of None \<Rightarrow> Panicked NilDeref | Some h \<Rightarrow> Ok (peer_String lib (host_ID h)))"

definition Transport_Addr :: "LibP2pTransport \<Rightarrow> ('e, string) res" where
  "Transport_Addr lt =
     (case lt_host lt of
        None \<Rightarrow> Panicked NilDeref
      | Some h \<Rightarrow> (case host_Addrs h of [] \<Rightarrow> Panicked IndexOutOfRange | a # _ \<Rightarrow> Ok a))"

definition SetCodec :: "codec \<Rightarrow> LibP2pTransport \<Rightarrow> LibP2pTransport" where
  "SetCodec c lt = lt\<lparr>lt_codec := c\<rparr>"

text \<open>\<open>Stop\<close> tries to close every connection and ignores the errors: the peers it asked to close.\<close>

definition Transport_Stop :: "net \<Rightarrow> LibP2pTransport \<Rightarrow> (transport_error, string list) res" where
  "Transport_Stop net lt = (case lt_host lt of None \<Rightarrow> Panicked NilDeref | Some _ \<Rightarrow> Ok (net_Peers net))"

subsection \<open>Sending\<close>

text \<open>A call gives its result, the new state and what was written to which stream.\<close>

type_synonym sent = "(nat \<times> bytes) list"

definition write_stream ::
  "net \<Rightarrow> nat \<Rightarrow> bytes \<Rightarrow> LibP2pTransport \<Rightarrow> (transport_error, unit) res \<times> LibP2pTransport \<times> sent" where
  "write_stream net stream data lt =
     (if net_Write net stream data then (Ok (), lt, [(stream, data)]) else (Err WriteFailed, lt, []))"

definition Transport_SendMsg ::
  "peer_lib \<Rightarrow> net \<Rightarrow> string \<Rightarrow> bytes \<Rightarrow> LibP2pTransport \<Rightarrow>
   (transport_error, unit) res \<times> LibP2pTransport \<times> sent" where
  "Transport_SendMsg lib net i data lt =
     (case peer_Decode lib i of
        None \<Rightarrow> (Err InvalidPeerID, lt, [])
      | Some pID \<Rightarrow>
          (case map_of (lt_streams lt) pID of
             Some stream \<Rightarrow> write_stream net stream data lt
           | None \<Rightarrow>
               (case lt_host lt of
                  None \<Rightarrow> (Panicked NilDeref, lt, [])
                | Some _ \<Rightarrow>
                    (case net_NewStream net pID of
                       None \<Rightarrow> (Err OpenStreamFailed, lt, [])
                     | Some stream \<Rightarrow>
                         write_stream net stream data
                           (lt\<lparr>lt_streams := gm_put pID stream (lt_streams lt)\<rparr>)))))"

text \<open>\<open>Broadcast\<close> sends to every connected peer; an error skips the peer.\<close>

fun send_to_peers ::
  "peer_lib \<Rightarrow> net \<Rightarrow> string list \<Rightarrow> bytes \<Rightarrow> LibP2pTransport \<Rightarrow>
   (transport_error, unit) res \<times> LibP2pTransport \<times> sent" where
  "send_to_peers lib net [] data lt = (Ok (), lt, [])"
| "send_to_peers lib net (p # ps) data lt =
     (case Transport_SendMsg lib net (peer_String lib p) data lt of
        (Panicked e, lt', out) \<Rightarrow> (Panicked e, lt', out)
      | (Blocked, lt', out) \<Rightarrow> (Blocked, lt', out)
      | (_, lt', out) \<Rightarrow>
          (case send_to_peers lib net ps data lt' of (r, lt'', out') \<Rightarrow> (r, lt'', out @ out')))"

definition Transport_Broadcast ::
  "peer_lib \<Rightarrow> net \<Rightarrow> bytes \<Rightarrow> LibP2pTransport \<Rightarrow>
   (transport_error, unit) res \<times> LibP2pTransport \<times> sent" where
  "Transport_Broadcast lib net data lt =
     (case lt_host lt of
        None \<Rightarrow> (Panicked NilDeref, lt, [])
      | Some _ \<Rightarrow> send_to_peers lib net (net_Peers net) data lt)"

text \<open>A sequence of calls, each at its own state of the network: their results in order.\<close>

fun send_seq ::
  "peer_lib \<Rightarrow> (net \<times> string \<times> bytes) list \<Rightarrow> LibP2pTransport \<Rightarrow>
   (string \<times> (transport_error, unit) res \<times> sent) list" where
  "send_seq lib [] lt = []"
| "send_seq lib ((net, i, data) # calls) lt =
     (case Transport_SendMsg lib net i data lt of
        (r, lt', out) \<Rightarrow> (i, r, out) # send_seq lib calls lt')"

subsection \<open>Receiving\<close>

datatype read = Chunk bytes | ReadEOF | ReadError

text \<open>
  The messages a read loop puts into the channel for the results of its reads: a chunk that does not
  decode is skipped, the end of the stream or an error ends the loop.
\<close>

definition decode_chunk :: "codec \<Rightarrow> bytes \<Rightarrow> RPCMessage list" where
  "decode_chunk c data = (case Decode c TRPC data of Some (WRPC rpcMsg) \<Rightarrow> [rpcMsg] | _ \<Rightarrow> [])"

fun readLoop :: "codec \<Rightarrow> read list \<Rightarrow> RPCMessage list" where
  "readLoop c (Chunk data # rs) = decode_chunk c data @ readLoop c rs"
| "readLoop c _ = []"

text \<open>
  The channel \<open>msgCh\<close> between the read loops and the server. \<open>opened\<close> are the streams that have a loop,
  \<open>pending s\<close> is what the loop of stream \<open>s\<close> still has to put; the loop that holds the mutex may put its
  message when the buffer has room.

  The server takes a message from \<open>ConsumeMsgs\<close>, decodes and handles it in the same goroutine, and takes the
  next one only when the handler has returned; it ends when it is waiting and \<open>quitCh\<close> is closed. A
  handler may block for ever: \<open>rets k\<close> is whether the handling of the \<open>k\<close>-th message returns.
\<close>

datatype consumer = Waiting | Handling | Stopped

record fan =
  opened :: "nat set"
  pending :: "nat \<Rightarrow> RPCMessage list"
  holder :: "nat option"
  buffer :: "(nat \<times> RPCMessage) list"
  consumed :: "(nat \<times> RPCMessage) list"
  cn_state :: consumer
  cn_quit :: bool

inductive fan_step :: "fan \<Rightarrow> fan \<Rightarrow> bool" where
  lock: "holder st = None \<Longrightarrow> pending st s \<noteq> [] \<Longrightarrow> fan_step st (st\<lparr>holder := Some s\<rparr>)"
| put: "holder st = Some s \<Longrightarrow> pending st s = m # ms \<Longrightarrow> length (buffer st) < msgCh_cap \<Longrightarrow>
    fan_step st (st\<lparr>pending := (pending st)(s := ms), holder := None, buffer := buffer st @ [(s, m)]\<rparr>)"

inductive consume_step :: "(nat \<Rightarrow> bool) \<Rightarrow> fan \<Rightarrow> fan \<Rightarrow> bool" for rets where
  take: "cn_state st = Waiting \<Longrightarrow> buffer st = x # b \<Longrightarrow>
    consume_step rets st (st\<lparr>buffer := b, consumed := consumed st @ [x], cn_state := Handling\<rparr>)"
| finish: "cn_state st = Handling \<Longrightarrow> rets (length (consumed st)) \<Longrightarrow> consume_step rets st (st\<lparr>cn_state := Waiting\<rparr>)"
| leave: "cn_state st = Waiting \<Longrightarrow> cn_quit st \<Longrightarrow> consume_step rets st (st\<lparr>cn_state := Stopped\<rparr>)"

inductive_cases fan_stepE: "fan_step st st'"
inductive_cases consume_stepE: "consume_step rets st st'"

definition fan_start :: fan where
  "fan_start = \<lparr>opened = {}, pending = (\<lambda>_. []), holder = None, buffer = [], consumed = [],
     cn_state = Waiting, cn_quit = False\<rparr>"

text \<open>
  \<open>handleStream\<close>: libp2p calls it for a new stream, at any time; it starts the stream's read loop, whose
  reads give \<open>rs\<close>. The running node makes the steps of the loops and of the server, accepts new streams and
  may be told to stop.
\<close>

definition handleStream :: "codec \<Rightarrow> nat \<Rightarrow> read list \<Rightarrow> fan \<Rightarrow> fan" where
  "handleStream c s rs st = st\<lparr>opened := insert s (opened st), pending := (pending st)(s := readLoop c rs)\<rparr>"

inductive transport_step :: "codec \<Rightarrow> (nat \<Rightarrow> bool) \<Rightarrow> (nat \<Rightarrow> read list) \<Rightarrow> fan \<Rightarrow> fan \<Rightarrow> bool" for c rets reads where
  accept: "s \<notin> opened st \<Longrightarrow> transport_step c rets reads st (handleStream c s (reads s) st)"
| loop: "fan_step st st' \<Longrightarrow> transport_step c rets reads st st'"
| consume: "consume_step rets st st' \<Longrightarrow> transport_step c rets reads st st'"
| stop: "transport_step c rets reads st (st\<lparr>cn_quit := True\<rparr>)"

text \<open>The server has ended, or it is in a handler that does not return.\<close>

definition hung :: "(nat \<Rightarrow> bool) \<Rightarrow> fan \<Rightarrow> bool" where
  "hung rets st \<longleftrightarrow> cn_state st = Stopped \<or> cn_state st = Handling \<and> \<not> rets (length (consumed st))"

definition of_stream :: "nat \<Rightarrow> (nat \<times> RPCMessage) list \<Rightarrow> RPCMessage list" where
  "of_stream s xs = map snd (filter (\<lambda>x. fst x = s) xs)"

definition fan_inv :: "(nat \<Rightarrow> RPCMessage list) \<Rightarrow> fan \<Rightarrow> bool" where
  "fan_inv loops st \<longleftrightarrow>
     (\<forall>s. of_stream s (consumed st) @ of_stream s (buffer st) @ pending st s =
        (if s \<in> opened st then loops s else [])) \<and>
     length (buffer st) \<le> msgCh_cap \<and>
     (\<forall>s. holder st = Some s \<longrightarrow> pending st s \<noteq> [])"

subsection \<open>Discovery\<close>

text \<open>\<open>binary.BigEndian.Uint64\<close> of the first eight bytes; \<open>time.Duration\<close> counts nanoseconds.\<close>

definition BigEndian_Uint64 :: "bytes \<Rightarrow> u64" where
  "BigEndian_Uint64 bs = fold (\<lambda>b w. push_bit 8 w + of_nat (of_char b)) (take 8 bs) 0"

definition getPeerDelay :: "cprims \<Rightarrow> peer_lib \<Rightarrow> string \<Rightarrow> u64" where
  "getPeerDelay P lib peerID =
     (let delayMs = BigEndian_Uint64 (sha256 P (peer_String lib peerID)) mod 2000
      in delayMs * 1000000)"

text \<open>\<open>conn_ok\<close> is the result of \<open>Connect\<close>. A full channel blocks the callback until it is read.\<close>

definition HandlePeerFound ::
  "peer_lib \<Rightarrow> bool \<Rightarrow> string \<times> string list \<Rightarrow> LibP2pTransport \<Rightarrow> (transport_error, LibP2pTransport) res" where
  "HandlePeerFound lib conn_ok p lt =
     (case p of (pid, addrs) \<Rightarrow>
        if \<not> conn_ok then Err ConnectFailed
        else (case addrs of
                [] \<Rightarrow> Panicked IndexOutOfRange
              | a # _ \<Rightarrow>
                  if length (lt_peerCh lt) < peerCh_cap
                  then Ok (lt\<lparr>lt_peerCh := lt_peerCh lt @ [NewPeer (peer_String lib pid) a]\<rparr>)
                  else Blocked))"

section \<open>Lemmas\<close>

lemma SendMsg_keeps_streams:
  "Transport_SendMsg lib net i data lt = (r, lt', out) \<Longrightarrow> map_of (lt_streams lt) p = Some s \<Longrightarrow>
     map_of (lt_streams lt') p = Some s"
  by (auto simp: Transport_SendMsg_def write_stream_def split: option.splits if_splits)

lemma SendMsg_cached:
  "peer_Decode lib i = Some p \<Longrightarrow> map_of (lt_streams lt) p = Some s \<Longrightarrow>
     Transport_SendMsg lib net i data lt = write_stream net s data lt"
  by (simp add: Transport_SendMsg_def)

lemma decode_chunk_JSON:
  assumes "Encode (JSONCodec ff) (WRPC m) = Some b" and "ascii (rm_FromID m)"
  shows "decode_chunk (JSONCodec ff) b = [m]"
  using jc.decode_encode [of ff "WRPC m" b] assms by (simp add: decode_chunk_def)

lemma encoded_rpc:
  assumes "Encode (JSONCodec ff) (WRPC m) = Some b" and "ascii (rm_FromID m)"
  obtains kvs where "b = print_json (JObj kvs)" and "json_wf (JObj kvs)"
proof -
  from assms(1) obtain kvs where kvs: "wire_json ff (WRPC m) = Some (JObj kvs)" "b = print_json (JObj kvs)"
    by (auto simp: JSONCodec_def)
  moreover have "json_wf (JObj kvs)" using wire_wire [of ff "WRPC m"] assms(2) kvs(1) by auto
  ultimately show ?thesis using that by blast
qed

lemma decode_chunk_trailing:
  assumes "Encode (JSONCodec ff) (WRPC m) = Some b" and "ascii (rm_FromID m)"
  shows "decode_chunk (JSONCodec ff) (b @ r) = (if \<forall>c \<in> set r. is_ws c then [m] else [])"
proof -
  obtain kvs where b: "b = print_json (JObj kvs)" and wf: "json_wf (JObj kvs)"
    using encoded_rpc [OF assms] by blast
  have "json_parse (b @ r) = (if \<forall>c \<in> set r. is_ws c then json_parse b else None)"
    unfolding b json_parse_trailing [OF wf] json_parse_print [OF wf] skip_ws_Nil_iff ..
  then have "decode_chunk (JSONCodec ff) (b @ r) = (if \<forall>c \<in> set r. is_ws c then decode_chunk (JSONCodec ff) b else [])"
    by (simp add: decode_chunk_def JSONCodec_def)
  then show ?thesis using decode_chunk_JSON [OF assms] by simp
qed

lemma decode_chunk_no_json: "json_parse b = None \<Longrightarrow> decode_chunk (JSONCodec ff) b = []"
  by (simp add: decode_chunk_def JSONCodec_def)

lemma readLoop_chunks: "readLoop c (map Chunk bs @ [ReadEOF]) = concat (map (decode_chunk c) bs)"
  by (induction bs) simp_all

lemma of_stream_simps [simp]:
  "of_stream s [] = []" "of_stream s (xs @ ys) = of_stream s xs @ of_stream s ys"
  "of_stream s ((s', m) # xs) = (if s' = s then m # of_stream s xs else of_stream s xs)"
  by (simp_all add: of_stream_def)

text \<open>A step of the loops or the server moves messages of a stream along, and keeps the streams.\<close>

lemma fan_step_moves:
  assumes "fan_step st st' \<or> consume_step rets st st'"
  shows "of_stream s (consumed st') @ of_stream s (buffer st') @ pending st' s =
           of_stream s (consumed st) @ of_stream s (buffer st) @ pending st s"
    and "opened st' = opened st" and "length (buffer st) \<le> msgCh_cap \<Longrightarrow> length (buffer st') \<le> msgCh_cap"
    and "holder st' = Some h \<Longrightarrow> holder st = Some h \<or> pending st' h \<noteq> []"
    and "holder st' = Some h \<Longrightarrow> pending st' h = pending st h"
  using assms by (auto elim!: fan_stepE consume_stepE simp: of_stream_def)

lemma fan_inv_step:
  assumes "fan_step st st' \<or> consume_step rets st st'" and "fan_inv loops st"
  shows "fan_inv loops st'"
  using fan_step_moves [OF assms(1)] assms(2) unfolding fan_inv_def by metis

lemma fan_reach_inv:
  "(transport_step c rets reads)\<^sup>*\<^sup>* fan_start st \<Longrightarrow> fan_inv (\<lambda>s. readLoop c (reads s)) st"
proof (induction rule: rtranclp_induct)
  case base
  show ?case by (simp add: fan_start_def fan_inv_def)
next
  case (step st st')
  from step.hyps(2) show ?case
  proof cases
    case (accept s)
    with step.IH show ?thesis
      unfolding fan_inv_def handleStream_def by (auto dest: spec [of _ s] split: if_splits)
  next
    case stop
    with step.IH show ?thesis by (simp add: fan_inv_def)
  qed (use fan_inv_step step.IH in blast)+
qed

lemma fan_progress:
  assumes "fan_inv loops st" and "pending st s \<noteq> [] \<or> buffer st \<noteq> []" and "\<not> hung rets st"
  shows "\<exists>st'. fan_step st st' \<or> consume_step rets st st'"
proof (cases "cn_state st")
  case Handling
  with assms(3) show ?thesis by (auto simp: hung_def intro: consume_step.finish)
next
  case Waiting
  show ?thesis
  proof (cases "buffer st")
    case (Cons x b)
    with Waiting show ?thesis by (blast intro: consume_step.take)
  next
    case Nil
    then have room: "length (buffer st) < msgCh_cap" by (simp add: msgCh_cap_def)
    show ?thesis
    proof (cases "holder st")
      case None
      with assms(2) Nil show ?thesis by (blast intro: fan_step.lock)
    next
      case (Some h)
      with assms(1) obtain m ms where "pending st h = m # ms" by (auto simp: fan_inv_def neq_Nil_conv)
      with Some room show ?thesis by (blast intro: fan_step.put)
    qed
  qed
qed (use assms(3) in \<open>simp add: hung_def\<close>)

lemma hung_step:
  "transport_step c rets reads st st' \<Longrightarrow> hung rets st \<Longrightarrow> hung rets st' \<and> consumed st' = consumed st"
  by (auto elim!: transport_step.cases fan_stepE consume_stepE simp: hung_def handleStream_def)

lemma hung_for_ever:
  "(transport_step c rets reads)\<^sup>*\<^sup>* st st' \<Longrightarrow> hung rets st \<Longrightarrow> hung rets st' \<and> consumed st' = consumed st"
  by (induction rule: rtranclp_induct) (auto dest: hung_step)

text \<open>
  Every encoded message contains the object of its signature, which is a JSON text by itself. None of its
  keys is one of a message, so it decodes to a message without contents.
\<close>

lemma signature_fragment:
  assumes "Encode (JSONCodec ff) (WRPC m) = Some b"
  obtains b1 b2 where "b = b1 @ b2 @ ''}''" and "b1 \<noteq> []" and "decode_chunk (JSONCodec ff) b2 = [zero_rpc]"
proof -
  let ?sig = "sig_json (rm_Signature m)"
  let ?b1 = "''{'' @ print_string ''from_id'' @ '':'' @ print_json (JStr (rm_FromID m)) @ '','' @
    print_string ''payload'' @ '':'' @ print_json (JStr (b64encode (rm_Payload m))) @ '','' @ print_string ''signature'' @ '':''"
  from assms have "b = ?b1 @ print_json ?sig @ ''}''" by (auto simp: JSONCodec_def)
  moreover have "json_parse (print_json ?sig) = Some ?sig" by (rule json_parse_print) (rule sig_wire)
  then have "decode_chunk (JSONCodec ff) (print_json ?sig) = [zero_rpc]"
    by (simp add: decode_chunk_def JSONCodec_def sig_json_def decode_struct_def rpc_keys set_rpc_def
        del: list.map print_json.simps)
  ultimately show ?thesis using that [of ?b1 "print_json ?sig"] by simp
qed

lemma decode_chunk_part:
  assumes "Encode (JSONCodec ff) (WRPC m) = Some b" and "ascii (rm_FromID m)" and "k < length b"
  shows "decode_chunk (JSONCodec ff) (take k b) = []"
proof -
  obtain kvs where kvs: "b = print_json (JObj kvs)" "json_wf (JObj kvs)"
    using encoded_rpc [OF assms(1,2)] by blast
  have "json_parse (take k b) = None"
    by (rule json_parse_prefix [OF kvs(2), where q = "drop k b"]) (use kvs(1) assms(3) in simp_all)
  then show ?thesis by (rule decode_chunk_no_json)
qed

lemma decode_chunk_joined:
  assumes "Encode (JSONCodec ff) (WRPC m) = Some b" and "ascii (rm_FromID m)"
    and "Encode (JSONCodec ff) (WRPC m') = Some b'" and "ascii (rm_FromID m')" and "0 < k"
  shows "decode_chunk (JSONCodec ff) (b @ take k b' @ r) = []"
proof -
  obtain kvs where b': "b' = print_json (JObj kvs)" using encoded_rpc [OF assms(3,4)] by blast
  obtain j where k: "k = Suc j" using assms(5) by (cases k) simp_all
  have "CHR ''{'' \<in> set (take k b' @ r)" by (simp add: b' k)
  moreover have "\<not> is_ws (CHR ''{'')" by (simp add: is_ws_def)
  ultimately have "\<not> (\<forall>c \<in> set (take k b' @ r). is_ws c)" by blast
  with decode_chunk_trailing [OF assms(1,2), of "take k b' @ r"] show ?thesis by (simp only: if_False)
qed

lemma decode_chunk_split:
  assumes "Encode (JSONCodec ff) (WRPC m) = Some b" and "ascii (rm_FromID m)"
  shows "\<exists>b1 b2 b3. b = b1 @ b2 @ b3 \<and>
           readLoop (JSONCodec ff) [Chunk b1, Chunk b2, Chunk b3, ReadEOF] = [zero_rpc]"
proof -
  obtain b1 b2 where b: "b = b1 @ b2 @ ''}''" "decode_chunk (JSONCodec ff) b2 = [zero_rpc]"
    using signature_fragment [OF assms(1)] by blast
  have "decode_chunk (JSONCodec ff) b1 = []" using decode_chunk_part [OF assms, of "length b1"] b(1) by simp
  moreover have "decode_chunk (JSONCodec ff) ''}'' = []"
    by (rule decode_chunk_no_json) (simp add: json_parse_def eval_nat_numeral lex_number_def lex_unsigned_def lex_int_def is_digit_def)
  ultimately have "readLoop (JSONCodec ff) [Chunk b1, Chunk b2, Chunk ''}'', ReadEOF] = [zero_rpc]"
    using b(2) by simp
  with b(1) show ?thesis by blast
qed

section \<open>Properties\<close>

text \<open>
  C27: The transport keeps one stream per peer. Once a stream to a peer is in the cache, every later
  call of \<open>SendMsg\<close> for that peer, whatever other calls come between, writes to this same stream, in
  the order of the calls; a call fails exactly when the write fails, and since the cache entry is never
  removed no new stream replaces one that broke.
\<close>

theorem one_stream_per_peer:
  assumes "map_of (lt_streams lt) p = Some s"
  shows "filter (\<lambda>(i, _). peer_Decode lib i = Some p) (send_seq lib calls lt) =
         map (\<lambda>(net, i, data).
                (i, if net_Write net s data then (Ok (), [(s, data)]) else (Err WriteFailed, [])))
           (filter (\<lambda>(net, i, data). peer_Decode lib i = Some p) calls)"
  using assms
proof (induction lib calls lt rule: send_seq.induct)
  case (2 lib net i data calls lt)
  obtain r lt' out where call: "Transport_SendMsg lib net i data lt = (r, lt', out)" by (metis prod_cases3)
  from SendMsg_keeps_streams [OF call "2.prems"] "2.IH" [OF call [symmetric]]
  show ?case using call SendMsg_cached [OF _ "2.prems", of lib i net data]
    by (auto simp: write_stream_def)
qed simp

text \<open>
  C16: What a read delivers of encoded messages. Reads that each return one message deliver all of them in
  order. A read that returns a part of a message from its start, as every first read of a message
  longer than the buffer of 4096 bytes does, delivers nothing. A read that returns a message and more
  delivers it only when no more than white space follows: together with any part of the next
  message both are lost. The reads that follow a partial one are decoded as if a message began there:
  every message can be split so that its middle part, the signature, is delivered as a message without
  sender and payload.
\<close>

theorem read_framing:
  assumes "list_all2 (\<lambda>m b. Encode (JSONCodec ff) (WRPC m) = Some b \<and> ascii (rm_FromID m)) ms bs"
  shows "readLoop (JSONCodec ff) (map Chunk bs @ [ReadEOF]) = ms \<and>
         (\<forall>b \<in> set bs. \<forall>k < length b. decode_chunk (JSONCodec ff) (take k b) = []) \<and>
         (\<forall>b \<in> set bs. \<forall>k \<le> read_buffer. read_buffer < length b \<longrightarrow>
            readLoop (JSONCodec ff) (Chunk (take k b) # rs) = readLoop (JSONCodec ff) rs) \<and>
         (\<forall>(m, b) \<in> set (zip ms bs). \<forall>r.
            decode_chunk (JSONCodec ff) (b @ r) = (if \<forall>c \<in> set r. is_ws c then [m] else [])) \<and>
         (\<forall>b \<in> set bs. \<forall>b' \<in> set bs. \<forall>k > 0. \<forall>r. decode_chunk (JSONCodec ff) (b @ take k b' @ r) = []) \<and>
         (\<forall>b \<in> set bs. \<exists>b1 b2 b3. b = b1 @ b2 @ b3 \<and>
            readLoop (JSONCodec ff) [Chunk b1, Chunk b2, Chunk b3, ReadEOF] = [zero_rpc])"
proof (intro conjI ballI allI impI)
  let ?c = "JSONCodec ff"
  have enc: "\<exists>m. Encode ?c (WRPC m) = Some b \<and> ascii (rm_FromID m)" if "b \<in> set bs" for b
    using assms that by (auto simp: list_all2_conv_all_nth in_set_conv_nth)
  from assms have "concat (map (decode_chunk ?c) bs) = ms"
    by (induction rule: list_all2_induct) (simp_all add: decode_chunk_JSON)
  then show "readLoop ?c (map Chunk bs @ [ReadEOF]) = ms" by (simp add: readLoop_chunks)
  show "decode_chunk ?c (take k b) = []" if "b \<in> set bs" "k < length b" for b k
    using enc [OF that(1)] that(2) by (auto intro: decode_chunk_part)
  then show "readLoop ?c (Chunk (take k b) # rs) = readLoop ?c rs"
    if "b \<in> set bs" "k \<le> read_buffer" "read_buffer < length b" for b k
    using that by simp
  show "case mb of (m, b) \<Rightarrow> \<forall>r. decode_chunk ?c (b @ r) = (if \<forall>c \<in> set r. is_ws c then [m] else [])"
    if "mb \<in> set (zip ms bs)" for mb
    using assms that decode_chunk_trailing [of ff "fst mb" "snd mb"] by (auto simp: list_all2_iff split_beta)
  show "decode_chunk ?c (b @ take k b' @ r) = []" if "b \<in> set bs" "b' \<in> set bs" "0 < k" for b b' k r
    using enc [OF that(1)] enc [OF that(2)] that(3) by (auto intro: decode_chunk_joined)
  show "\<exists>b1 b2 b3. b = b1 @ b2 @ b3 \<and> readLoop ?c [Chunk b1, Chunk b2, Chunk b3, ReadEOF] = [zero_rpc]"
    if "b \<in> set bs" for b
    using enc [OF that] decode_chunk_split by blast
qed

text \<open>
  C22: The message channel loses and reorders nothing. In every interleaving of streams being opened, of
  their read loops, of the server's loop and of its stopping, what the server has taken of a stream is
  a prefix of what the stream's loop decoded, and the buffer never exceeds its capacity. As long as
  the server has not ended and is not in a handler that never returns, loops and server stand still
  only when every message of every opened stream has been taken: the mutex around the blocking send does
  not deadlock by itself. Once the server has ended or hangs in a handler, nothing is taken any more.
\<close>

theorem message_channel_order:
  assumes "(transport_step c rets reads)\<^sup>*\<^sup>* fan_start st"
  shows "prefix (of_stream s (consumed st)) (readLoop c (reads s)) \<and> length (buffer st) \<le> msgCh_cap \<and>
         (\<not> hung rets st \<longrightarrow> (\<nexists>st'. fan_step st st' \<or> consume_step rets st st') \<longrightarrow> s \<in> opened st \<longrightarrow>
            of_stream s (consumed st) = readLoop c (reads s)) \<and>
         (hung rets st \<longrightarrow> (transport_step c rets reads)\<^sup>*\<^sup>* st st'' \<longrightarrow> consumed st'' = consumed st)"
proof -
  note inv = fan_reach_inv [OF assms]
  then have split: "of_stream s (consumed st) @ of_stream s (buffer st) @ pending st s =
      (if s \<in> opened st then readLoop c (reads s) else [])"
    and cap: "length (buffer st) \<le> msgCh_cap"
    by (simp_all add: fan_inv_def)
  have "prefix (of_stream s (consumed st)) (readLoop c (reads s))"
    using split by (metis append_is_Nil_conv Nil_prefix prefixI)
  moreover have "pending st s = [] \<and> buffer st = []"
    if "\<not> hung rets st" "\<nexists>st'. fan_step st st' \<or> consume_step rets st st'"
    using that fan_progress [OF inv, of s rets] by blast
  ultimately show ?thesis using split cap hung_for_ever [of c rets reads st st''] by auto
qed

text \<open>
  The delay before connecting to a discovered peer is a whole number of milliseconds below two
  seconds, whatever the hash of its identity is: the multiplication does not wrap around and the
  duration is not negative.
\<close>

theorem peer_delay_bound:
  "\<exists>ms < 2000. unat (getPeerDelay P lib peerID) = ms * 1000000 \<and>
     sint (getPeerDelay P lib peerID) = int (ms * 1000000)"
proof -
  define ms where "ms = unat (BigEndian_Uint64 (sha256 P (peer_String lib peerID))) mod 2000"
  have ms: "ms < 2000" by (simp add: ms_def)
  have delay: "getPeerDelay P lib peerID = of_nat (ms * 1000000)"
    unfolding getPeerDelay_def Let_def ms_def by (simp add: word_arith_nat_mod)
  from ms have small: "ms * 1000000 < 2 ^ 63" by simp
  then have "unat (getPeerDelay P lib peerID) = ms * 1000000"
    unfolding delay by (subst unat_of_nat) simp
  moreover have "sint (getPeerDelay P lib peerID) = int (ms * 1000000)"
    unfolding delay by (rule sint_of_nat [OF small])
  ultimately show ?thesis using ms by blast
qed

section \<open>Witnesses\<close>

definition plain_lib :: peer_lib where
  "plain_lib = \<lparr>peer_Decode = (\<lambda>i. if i = [] then None else Some i), peer_String = (\<lambda>p. p)\<rparr>"

definition demo_net :: "bool \<Rightarrow> net" where
  "demo_net up = \<lparr>net_Peers = [''p'', ''q''], net_NewStream = (\<lambda>p. Some (length p)), net_Write = (\<lambda>s d. up)\<rparr>"

definition demo_transport :: LibP2pTransport where
  "demo_transport =
     \<lparr>lt_host = Some \<lparr>host_ID = ''h'', host_Addrs = [''addr'']\<rparr>, lt_peerCh = [],
      lt_codec = JSONCodec (\<lambda>_. ''0''), lt_streams = [(''p'', 7)]\<rparr>"

theorem one_stream_per_peer_witness:
  "map_of (lt_streams demo_transport) ''p'' = Some 7 \<and>
   filter (\<lambda>(i, _). peer_Decode plain_lib i = Some ''p'')
     (send_seq plain_lib
        [(demo_net True, ''p'', ''a''), (demo_net True, ''qq'', ''b''), (demo_net False, ''p'', ''c''),
         (demo_net False, ''p'', ''d'')] demo_transport) =
   [(''p'', Ok (), [(7, ''a'')]), (''p'', Err WriteFailed, []), (''p'', Err WriteFailed, [])]"
  using one_stream_per_peer [of demo_transport "''p''" 7 plain_lib
      "[(demo_net True, ''p'', ''a''), (demo_net True, ''qq'', ''b''), (demo_net False, ''p'', ''c''),
        (demo_net False, ''p'', ''d'')]"]
  by (simp add: demo_transport_def plain_lib_def demo_net_def)

theorem read_framing_witness:
  "\<exists>b b1 b2 b3. Encode (JSONCodec (\<lambda>_. ''0'')) (WRPC zero_rpc) = Some b \<and>
     readLoop (JSONCodec (\<lambda>_. ''0'')) [Chunk b, Chunk b, ReadEOF] = [zero_rpc, zero_rpc] \<and>
     decode_chunk (JSONCodec (\<lambda>_. ''0'')) (b @ take 1 b @ []) = [] \<and>
     decode_chunk (JSONCodec (\<lambda>_. ''0'')) (take (length b - 1) b) = [] \<and> b = b1 @ b2 @ b3 \<and>
     readLoop (JSONCodec (\<lambda>_. ''0'')) [Chunk b1, Chunk b2, Chunk b3, ReadEOF] = [zero_rpc]"
proof -
  let ?c = "JSONCodec (\<lambda>_. ''0'')"
  obtain b where b: "Encode ?c (WRPC zero_rpc) = Some b" "0 < length b"
    by (auto simp: JSONCodec_def)
  have "list_all2 (\<lambda>m b. Encode ?c (WRPC m) = Some b \<and> ascii (rm_FromID m)) [zero_rpc, zero_rpc] [b, b]"
    using b(1) by (simp add: zero_rpc_def ascii_def)
  from read_framing [OF this, of "[]"]
  have framing: "readLoop ?c (map Chunk [b, b] @ [ReadEOF]) = [zero_rpc, zero_rpc]"
      "\<And>k. k < length b \<Longrightarrow> decode_chunk ?c (take k b) = []"
      "\<And>k r. 0 < k \<Longrightarrow> decode_chunk ?c (b @ take k b @ r) = []"
      "\<exists>b1 b2 b3. b = b1 @ b2 @ b3 \<and> readLoop ?c [Chunk b1, Chunk b2, Chunk b3, ReadEOF] = [zero_rpc]"
    by (meson list.set_intros(1))+
  from framing(1) have "readLoop ?c [Chunk b, Chunk b, ReadEOF] = [zero_rpc, zero_rpc]"
    by (simp del: readLoop.simps)
  moreover have "decode_chunk ?c (take (length b - 1) b) = []" by (rule framing(2)) (use b(2) in simp)
  ultimately show ?thesis using b(1) framing(3) [OF zero_less_one, of "[]"] framing(4) by blast
qed

theorem message_channel_order_witness:
  "\<exists>b st. Encode (JSONCodec (\<lambda>_. ''0'')) (WRPC zero_rpc) = Some b \<and>
     (transport_step (JSONCodec (\<lambda>_. ''0'')) (\<lambda>_. False) (\<lambda>s. [Chunk b]))\<^sup>*\<^sup>* fan_start st \<and> consumed st = [(1, zero_rpc)] \<and>
     prefix (of_stream 1 (consumed st)) (readLoop (JSONCodec (\<lambda>_. ''0'')) [Chunk b])"
proof -
  let ?c = "JSONCodec (\<lambda>_. ''0'')"
  obtain b where b: "Encode ?c (WRPC zero_rpc) = Some b" by (auto simp: JSONCodec_def)
  have rl: "decode_chunk ?c b = [zero_rpc]"
    using decode_chunk_JSON [OF b] by (simp add: zero_rpc_def)
  let ?st1 = "handleStream ?c 1 [Chunk b] fan_start"
  let ?st2 = "?st1\<lparr>holder := Some 1\<rparr>"
  let ?st3 = "?st2\<lparr>pending := (pending ?st2)(1 := []), holder := None, buffer := buffer ?st2 @ [(1, zero_rpc)]\<rparr>"
  let ?st4 = "?st3\<lparr>buffer := [], consumed := consumed ?st3 @ [(1, zero_rpc)], cn_state := Handling\<rparr>"
  have "transport_step ?c (\<lambda>_. False) (\<lambda>s. [Chunk b]) fan_start ?st1"
    by (rule transport_step.accept [where reads = "\<lambda>s. [Chunk b]"]) (simp add: fan_start_def)
  moreover have "fan_step ?st1 ?st2" by (rule fan_step.lock) (simp_all add: fan_start_def handleStream_def rl)
  moreover have "fan_step ?st2 ?st3"
    by (rule fan_step.put) (simp_all add: fan_start_def handleStream_def rl msgCh_cap_def)
  moreover have "consume_step (\<lambda>_. False) ?st3 ?st4" by (rule consume_step.take) (simp_all add: fan_start_def handleStream_def)
  ultimately have reach: "(transport_step ?c (\<lambda>_. False) (\<lambda>s. [Chunk b]))\<^sup>*\<^sup>* fan_start ?st4"
    by (meson converse_rtranclp_into_rtranclp rtranclp.rtrancl_refl transport_step.loop transport_step.consume)
  moreover have "consumed ?st4 = [(1, zero_rpc)]" by (simp add: fan_start_def handleStream_def)
  ultimately show ?thesis using b message_channel_order [OF reach, of 1 ?st4] by blast
qed

end
