(* ===== verification/Server.thy ===== *)
theory Server
  imports Transport Engine
begin

text \<open>
  \<open>ocr/server.go\<close>: the node's server. It keeps the discovered peers in a search tree under their
  network identities, learns their server identities from handshakes, and implements the interface
  \<open>MessagingLayer\<close> of \<open>ocr/messaging_layer.go\<close> for the pacemaker and the reporting engine.

  \<open>sv_peerLock\<close> is whether the write lock is held; a reader blocks while it is. \<open>peerCountChan\<close> is what
  the buffered channel holds. The goroutines of \<open>Start\<close> are the steps of \<open>server_step\<close>: a discovered
  peer, its handler going on after it had to wait for room in the counter channel, an information
  message from the RPC processor, an incoming RPC message, and the calls of the components that send.
  What the network answers differs from step to step. \<open>node_step\<close> adds the receive on the counter channel,
  which \<open>OCR.Start\<close> makes once.
\<close>

section \<open>Definitions\<close>

subsection \<open>State\<close>

definition JsonCodecType :: u8 where "JsonCodecType = 0x1"

record ServerOpts =
  so_ListenAddr :: string
  so_CodecType :: u8
  so_BootStrapNodes :: "string list"
  so_PrivateKey :: PrivateKey

text \<open>
  The lock is free, held, or held by the handler of a discovered peer that waits for room in the
  counter channel.
\<close>

datatype peer_lock = LockFree | LockHeld | LockSending Peer

record 't Server =
  sv_opts :: ServerOpts
  sv_id :: PublicKey
  sv_Transporter :: LibP2pTransport
  sv_RPCProcessor :: ServerRPCProcessor
  sv_lock :: peer_lock
  sv_Codec :: codec
  sv_quitCh :: chan
  sv_peers :: 't
  sv_appIdToPeerId :: "(string, string) gomap"
  sv_peerCountChan :: "nat list"

abbreviation sv_peerLock :: "'t Server \<Rightarrow> bool" where
  "sv_peerLock s \<equiv> sv_lock s \<noteq> LockFree"

datatype server_error = PeerNotFound | TransportFailed transport_error | BuildFailed build_error

definition peerCountChan_cap :: nat where "peerCountChan_cap = 1000"

text \<open>\<open>ff\<close> is the decimal form of doubles the JSON codec writes.\<close>

definition NewServer ::
  "(float64 \<Rightarrow> string) \<Rightarrow> 't avl_lib \<Rightarrow> ServerOpts \<Rightarrow> (server_error, 't Server) res" where
  "NewServer ff avl opts =
     (if so_CodecType opts = JsonCodecType then
        Ok \<lparr>sv_opts = opts, sv_id = PrivateKey_PublicKey (so_PrivateKey opts),
            sv_Transporter = SetCodec (JSONCodec ff) (NewLibp2pTransport (JSONCodec ff)),
            sv_RPCProcessor = \<lparr>handlers = [], commsChWithServer = []\<rparr>,
            sv_lock = LockFree, sv_Codec = JSONCodec ff, sv_quitCh = OpenChan, sv_peers = avl_New avl,
            sv_appIdToPeerId = [], sv_peerCountChan = []\<rparr>
      else Panicked (ExplicitPanic ''unsupported Codec type given in server opts''))"

definition Server_ID :: "'t Server \<Rightarrow> PublicKey" where
  "Server_ID s = sv_id s"

subsection \<open>The messaging layer\<close>

definition Server_SendMsg ::
  "peer_lib \<Rightarrow> net \<Rightarrow> string \<Rightarrow> bytes \<Rightarrow> 't Server \<Rightarrow> (server_error, unit) res \<times> 't Server \<times> sent" where
  "Server_SendMsg lib net i rpcMsg s =
     (let pID = gm_get0 [] (sv_appIdToPeerId s) i in
      if pID = [] then (Err PeerNotFound, s, [])
      else (case Transport_SendMsg lib net pID rpcMsg (sv_Transporter s) of
              (r, lt, out) \<Rightarrow> (map_err TransportFailed r, s\<lparr>sv_Transporter := lt\<rparr>, out)))"

definition Server_BroadcastMsg ::
  "peer_lib \<Rightarrow> net \<Rightarrow> bytes \<Rightarrow> 't Server \<Rightarrow> (server_error, unit) res \<times> 't Server \<times> sent" where
  "Server_BroadcastMsg lib net rpcMsg s =
     (case Transport_Broadcast lib net rpcMsg (sv_Transporter s) of
        (r, lt, out) \<Rightarrow>
          (case r of Panicked p \<Rightarrow> Panicked p | Blocked \<Rightarrow> Blocked | _ \<Rightarrow> Ok (),
           s\<lparr>sv_Transporter := lt\<rparr>, out))"

definition GetCodec :: "'t Server \<Rightarrow> codec" where
  "GetCodec s = sv_Codec s"

definition IsPeer :: "string \<Rightarrow> 't Server \<Rightarrow> ('e, bool) res" where
  "IsPeer i s = (if sv_peerLock s then Blocked else Ok (map_of (sv_appIdToPeerId s) i \<noteq> None))"

definition GetPeerCount :: "'t avl_lib \<Rightarrow> 't Server \<Rightarrow> nat" where
  "GetPeerCount avl s = avl_Size avl (sv_peers s)"

definition Server_Stop :: "'t Server \<Rightarrow> (server_error, 't Server) res" where
  "Server_Stop s = res_bind (close_chan (sv_quitCh s)) (\<lambda>q. Ok (s\<lparr>sv_quitCh := q\<rparr>))"

subsection \<open>Handshake and registration\<close>

definition sendHandshakeMsgToPeerNode ::
  "cprims \<Rightarrow> peer_lib \<Rightarrow> net \<Rightarrow> string \<Rightarrow> 't Server \<Rightarrow> (server_error, unit) res \<times> 't Server \<times> sent" where
  "sendHandshakeMsgToPeerNode P lib net i s =
     (case res_bind (Transport_ID lib (sv_Transporter s)) (\<lambda>nid.
             res_bind (Transport_Addr (sv_Transporter s)) (\<lambda>addr.
               map_err BuildFailed
                 (RPCMessageBuilder_Bytes
                    (SetPayload (PStatus \<lparr>st_Id = PublicKey_String (Server_ID s),
                                          st_NetworkId = nid, st_ListenAddr = addr\<rparr>)
                      (SetTopic TopicServer
                        (SetHeaders MessageStatus
                          (NewRPCMessageBuilder (so_ListenAddr (sv_opts s)) (sv_Codec s)
                             (PublicKey_String (Server_ID s))))))))) of
        Ok rpcMsg \<Rightarrow>
          (case Transport_SendMsg lib net i rpcMsg (sv_Transporter s) of
             (r, lt, out) \<Rightarrow> (map_err TransportFailed r, s\<lparr>sv_Transporter := lt\<rparr>, out))
      | Err e \<Rightarrow> (Err e, s, [])
      | Panicked p \<Rightarrow> (Panicked p, s, [])
      | Blocked \<Rightarrow> (Blocked, s, []))"

text \<open>
  \<open>handleNewPeer\<close> takes the lock, adds the peer, and then sends the number of peers and the handshake; the
  error of the handshake is ignored. A full counter channel blocks it with the lock held: \<open>announce_peer\<close>,
  its second half, is entered again when there is room.
\<close>

definition announce_peer ::
  "cprims \<Rightarrow> 't avl_lib \<Rightarrow> peer_lib \<Rightarrow> net \<Rightarrow> Peer \<Rightarrow> 't Server \<Rightarrow>
   (server_error, unit) res \<times> 't Server \<times> sent" where
  "announce_peer P avl lib net peer s =
     (if peerCountChan_cap \<le> length (sv_peerCountChan s) then (Blocked, s\<lparr>sv_lock := LockSending peer\<rparr>, [])
      else
        (case sendHandshakeMsgToPeerNode P lib net (peer_ID peer)
                (s\<lparr>sv_lock := LockHeld, sv_peerCountChan := sv_peerCountChan s @ [avl_Size avl (sv_peers s)]\<rparr>) of
           (Panicked p, s2, out) \<Rightarrow> (Panicked p, s2, out)
         | (Blocked, s2, out) \<Rightarrow> (Blocked, s2, out)
         | (_, s2, out) \<Rightarrow> (Ok (), s2\<lparr>sv_lock := LockFree\<rparr>, out)))"

definition handleNewPeer ::
  "cprims \<Rightarrow> 't avl_lib \<Rightarrow> peer_lib \<Rightarrow> net \<Rightarrow> Peer \<Rightarrow> 't Server \<Rightarrow>
   (server_error, unit) res \<times> 't Server \<times> sent" where
  "handleNewPeer P avl lib net peer s =
     (if sv_peerLock s then (Blocked, s, [])
      else announce_peer P avl lib net peer
             (s\<lparr>sv_lock := LockHeld,
                sv_peers := avl_Put avl (peer_ID peer) \<lparr>pp_ServerID = [], pp_Peer = Some peer\<rparr> (sv_peers s)\<rparr>))"

text \<open>
  One turn of the loop over \<open>commsChWithServer\<close>. An unknown network identity continues the loop
  without releasing the lock. The peer is shared by pointer: setting its server identity changes the
  entry of the tree.
\<close>

definition server_info ::
  "'t avl_lib \<Rightarrow> InternalPeerServerInfoMsg \<Rightarrow> 't Server \<Rightarrow> (server_error, unit) res \<times> 't Server" where
  "server_info avl infoMsg s =
     (if sv_peerLock s then (Blocked, s)
      else (case avl_Get avl (sv_peers s) (im_NetworkId infoMsg) of
              None \<Rightarrow> (Ok (), s\<lparr>sv_lock := LockHeld\<rparr>)
            | Some peer \<Rightarrow>
                (Ok (), s\<lparr>sv_appIdToPeerId :=
                            gm_put (im_ServerId infoMsg) (im_NetworkId infoMsg) (sv_appIdToPeerId s),
                          sv_peers := avl_Put avl (im_NetworkId infoMsg)
                            (peer\<lparr>pp_ServerID := im_ServerId infoMsg\<rparr>) (sv_peers s)\<rparr>)))"

text \<open>The main loop's branch for an incoming message: decoding errors are logged and dropped.\<close>

definition server_receive ::
  "RPCMessage \<Rightarrow> 't Server \<Rightarrow> 't Server \<times> (DecodedMsg \<times> handler) option" where
  "server_receive rpcMsg s =
     (case DefaultRPCDecoder (sv_Codec s) rpcMsg of
        Ok msg \<Rightarrow>
          (case Processor_ProcessMessage msg (sv_RPCProcessor s) of
             (p, r) \<Rightarrow> (s\<lparr>sv_RPCProcessor := p\<rparr>, case r of RouteTo h \<Rightarrow> Some (msg, h) | _ \<Rightarrow> None))
      | _ \<Rightarrow> (s, None))"

subsection \<open>Steps of the running server\<close>

inductive server_step :: "cprims \<Rightarrow> 't avl_lib \<Rightarrow> peer_lib \<Rightarrow> 't Server \<Rightarrow> 't Server \<Rightarrow> bool"
  for P avl lib where
  start: "Transport_Start rm h md (sv_Transporter s) = Ok lt \<Longrightarrow>
            server_step P avl lib s (s\<lparr>sv_Transporter := lt\<rparr>)"
| peer: "handleNewPeer P avl lib net p s = (r, s', out) \<Longrightarrow> server_step P avl lib s s'"
| resume: "sv_lock s = LockSending p \<Longrightarrow> length (sv_peerCountChan s) < peerCountChan_cap \<Longrightarrow>
             announce_peer P avl lib net p s = (r, s', out) \<Longrightarrow> server_step P avl lib s s'"
| info: "commsChWithServer (sv_RPCProcessor s) = m # ms \<Longrightarrow>
           server_info avl m (s\<lparr>sv_RPCProcessor := (sv_RPCProcessor s)\<lparr>commsChWithServer := ms\<rparr>\<rparr>) = (Ok (), s') \<Longrightarrow>
           server_step P avl lib s s'"
| receive: "server_receive rpcMsg s = (s', h) \<Longrightarrow> server_step P avl lib s s'"
| register: "server_step P avl lib s
               (s\<lparr>sv_RPCProcessor := RegisterHandler t h (sv_RPCProcessor s)\<rparr>)"
| send: "Server_SendMsg lib net i m s = (r, s', out) \<Longrightarrow> server_step P avl lib s s'"
| broadcast: "Server_BroadcastMsg lib net m s = (r, s', out) \<Longrightarrow> server_step P avl lib s s'"
| stop: "Server_Stop s = Ok s' \<Longrightarrow> server_step P avl lib s s'"

inductive_cases server_stepE: "server_step P avl lib s s'"

text \<open>
  The server inside its node. The second component is the number \<open>OCR.Start\<close> has received from the
  counter channel, nothing before the receive; there is one receive.
\<close>

inductive node_step ::
  "cprims \<Rightarrow> 't avl_lib \<Rightarrow> peer_lib \<Rightarrow> 't Server \<times> nat option \<Rightarrow> 't Server \<times> nat option \<Rightarrow> bool"
  for P avl lib where
  own: "server_step P avl lib s s' \<Longrightarrow> node_step P avl lib (s, got) (s', got)"
| count: "sv_peerCountChan s = n # ns \<Longrightarrow> node_step P avl lib (s, None) (s\<lparr>sv_peerCountChan := ns\<rparr>, Some n)"

text \<open>
  The registry: a registered server identity belongs to a known peer; a peer of the tree is filed
  under its own network identity, and its server identity, once set, is registered. The numbers in
  the counter channel ascend up to the number of peers. Before the receive the first of them is 1, and
  there is one as soon as there is a peer; after the receive the number received was 1.
\<close>

definition registry_ok :: "'t avl_lib \<Rightarrow> ('t \<Rightarrow> bool) \<Rightarrow> 't \<Rightarrow> (string, string) gomap \<Rightarrow> bool" where
  "registry_ok avl tinv peers reg \<longleftrightarrow>
     tinv peers \<and> gm_wf reg \<and>
     (\<forall>(i, n) \<in> set reg. avl_Get avl peers n \<noteq> None) \<and>
     (\<forall>(n, p) \<in> set (avl_Each avl peers).
        (\<exists>q. pp_Peer p = Some q \<and> peer_ID q = n) \<and>
        (pp_ServerID p = [] \<or> map_of reg (pp_ServerID p) \<noteq> None))"

definition counts_ok :: "'t avl_lib \<Rightarrow> 't \<Rightarrow> nat list \<Rightarrow> nat option \<Rightarrow> bool" where
  "counts_ok avl peers counts got \<longleftrightarrow>
     length counts \<le> peerCountChan_cap \<and> sorted counts \<and> (\<forall>n \<in> set counts. n \<le> avl_Size avl peers) \<and>
     (case got of
        None \<Rightarrow> if counts = [] then avl_Each avl peers = [] else hd counts = 1
      | Some n \<Rightarrow> n = 1)"

definition server_inv :: "'t avl_lib \<Rightarrow> ('t \<Rightarrow> bool) \<Rightarrow> nat option \<Rightarrow> 't Server \<Rightarrow> bool" where
  "server_inv avl tinv got s \<longleftrightarrow>
     registry_ok avl tinv (sv_peers s) (sv_appIdToPeerId s) \<and>
     counts_ok avl (sv_peers s) (sv_peerCountChan s) got \<and>
     (\<forall>p. got = None \<longrightarrow> sv_lock s = LockSending p \<longrightarrow> length (sv_peerCountChan s) = peerCountChan_cap)"

text \<open>What the engine asked its messaging layer to do, in order; the results are ignored.\<close>

fun perform ::
  "(string \<Rightarrow> bytes \<Rightarrow> 's \<Rightarrow> (server_error, unit) res \<times> 's \<times> sent) \<Rightarrow>
   (bytes \<Rightarrow> 's \<Rightarrow> (server_error, unit) res \<times> 's \<times> sent) \<Rightarrow> effect list \<Rightarrow> 's \<Rightarrow> 's \<times> sent" where
  "perform send bcast [] s = (s, [])"
| "perform send bcast (e # es) s =
     (case (case e of EBroadcast m \<Rightarrow> bcast m s | ESend i m \<Rightarrow> send i m s | _ \<Rightarrow> (Ok (), s, [])) of
        (_, s', out) \<Rightarrow> (case perform send bcast es s' of (s'', out') \<Rightarrow> (s'', out @ out')))"

section \<open>The interface of a messaging layer\<close>

text \<open>
  What the clients of \<open>MessagingLayer\<close> rely on: sending to a node that is not a peer fails and sends
  nothing, broadcasting reports no error, and neither changes who is a peer.
\<close>

locale messaging_layer =
  fixes send :: "string \<Rightarrow> bytes \<Rightarrow> 's \<Rightarrow> (server_error, unit) res \<times> 's \<times> sent"
    and bcast :: "bytes \<Rightarrow> 's \<Rightarrow> (server_error, unit) res \<times> 's \<times> sent"
    and is_peer :: "string \<Rightarrow> 's \<Rightarrow> (engine_error, bool) res"
  assumes send_unknown: "is_peer i s = Ok False \<Longrightarrow> send i m s = (Err PeerNotFound, s, [])"
    and send_is_peer: "send i m s = (r, s', out) \<Longrightarrow> is_peer j s' = is_peer j s"
    and bcast_ok: "bcast m s = (r, s', out) \<Longrightarrow> r \<noteq> Err e"
    and bcast_is_peer: "bcast m s = (r, s', out) \<Longrightarrow> is_peer j s' = is_peer j s"
begin

lemma perform_is_peer: "perform send bcast es s = (s', out) \<Longrightarrow> is_peer j s' = is_peer j s"
proof (induction es arbitrary: s s' out)
  case (Cons e es)
  then obtain r s1 out1 where e:
      "(case e of EBroadcast m \<Rightarrow> bcast m s | ESend i m \<Rightarrow> send i m s | _ \<Rightarrow> (Ok (), s, [])) = (r, s1, out1)"
    by (metis prod_cases3)
  then have "is_peer j s1 = is_peer j s"
    by (cases e) (auto simp: bcast_is_peer send_is_peer)
  with Cons e show ?case by (auto split: prod.splits)
qed simp

end

section \<open>Lemmas\<close>

subsection \<open>What the operations keep\<close>

lemma SendMsg_server:
  "Server_SendMsg lib net i m s = (r, s', out) \<Longrightarrow> \<exists>lt. s' = s\<lparr>sv_Transporter := lt\<rparr>"
  by (auto simp: Server_SendMsg_def Let_def split: if_splits prod.splits intro: exI [of _ "sv_Transporter s"])

lemma BroadcastMsg_server:
  "Server_BroadcastMsg lib net m s = (r, s', out) \<Longrightarrow> \<exists>lt. s' = s\<lparr>sv_Transporter := lt\<rparr>"
  by (auto simp: Server_BroadcastMsg_def split: prod.splits)

lemma handshake_server:
  "sendHandshakeMsgToPeerNode P lib net i s = (r, s', out) \<Longrightarrow> \<exists>lt. s' = s\<lparr>sv_Transporter := lt\<rparr>"
  by (auto simp: sendHandshakeMsgToPeerNode_def split: res.splits prod.splits
      intro: exI [of _ "sv_Transporter s"])

lemma server_receive_server:
  "server_receive m s = (s', h) \<Longrightarrow> \<exists>p. s' = s\<lparr>sv_RPCProcessor := p\<rparr>"
  by (auto simp: server_receive_def split: res.splits prod.splits intro: exI [of _ "sv_RPCProcessor s"])

lemma IsPeer_Transporter [simp]: "IsPeer i (s\<lparr>sv_Transporter := lt\<rparr>) = IsPeer i s"
  by (simp add: IsPeer_def)

interpretation srv: messaging_layer "Server_SendMsg lib net" "Server_BroadcastMsg lib net" IsPeer
  for lib net
proof
  fix i j m r out e and s s' :: "'a Server"
  show "Server_SendMsg lib net i m s = (Err PeerNotFound, s, [])" if "IsPeer i s = (Ok False :: (engine_error, bool) res)"
    using that by (simp add: IsPeer_def Server_SendMsg_def gm_get0_def split: if_splits option.splits)
  show "IsPeer j s' = (IsPeer j s :: (engine_error, bool) res)" if "Server_SendMsg lib net i m s = (r, s', out)"
    using SendMsg_server [OF that] by auto
  show "IsPeer j s' = (IsPeer j s :: (engine_error, bool) res)" if "Server_BroadcastMsg lib net m s = (r, s', out)"
    using BroadcastMsg_server [OF that] by auto
  show "r \<noteq> Err e" if "Server_BroadcastMsg lib net m s = (r, s', out)"
    using that by (auto simp: Server_BroadcastMsg_def split: prod.splits res.splits)
qed

lemma server_inv_frame [simp]:
  "server_inv avl tinv got (s\<lparr>sv_Transporter := lt\<rparr>) = server_inv avl tinv got s"
  "server_inv avl tinv got (s\<lparr>sv_RPCProcessor := p\<rparr>) = server_inv avl tinv got s"
  "server_inv avl tinv got (s\<lparr>sv_quitCh := c\<rparr>) = server_inv avl tinv got s"
  by (simp_all add: server_inv_def)

lemma server_inv_lock:
  "server_inv avl tinv got s \<Longrightarrow> l = LockFree \<or> l = LockHeld \<Longrightarrow> server_inv avl tinv got (s\<lparr>sv_lock := l\<rparr>)"
  by (auto simp: server_inv_def)

subsection \<open>The registry\<close>

context avl_tree
begin

lemma registry_put:
  assumes ok: "registry_ok lib inv peers reg"
    and peer: "pp_Peer p = Some q" "peer_ID q = n"
    and known: "pp_ServerID p = [] \<or> map_of reg' (pp_ServerID p) \<noteq> None"
    and wf: "gm_wf reg'"
    and mono: "\<And>i. map_of reg i \<noteq> None \<Longrightarrow> map_of reg' i \<noteq> None"
    and new: "\<And>i m. (i, m) \<in> set reg' \<Longrightarrow> m = n \<or> (i, m) \<in> set reg"
  shows "registry_ok lib inv (avl_Put lib n p peers) reg'"
proof -
  from ok have t: "inv peers" by (simp add: registry_ok_def)
  have get: "avl_Get lib (avl_Put lib n p peers) m = (if m = n then Some p else avl_Get lib peers m)" for m
    using t inv_Put [OF t] by (simp add: Get_Each Each_Put)
  have "avl_Get lib (avl_Put lib n p peers) m \<noteq> None" if "(i, m) \<in> set reg'" for i m
    using new [OF that] ok get by (auto simp: registry_ok_def)
  moreover have "(\<exists>q. pp_Peer p' = Some q \<and> peer_ID q = m) \<and>
      (pp_ServerID p' = [] \<or> map_of reg' (pp_ServerID p') \<noteq> None)"
    if "(m, p') \<in> set (avl_Each lib (avl_Put lib n p peers))" for m p'
  proof (cases "m = n")
    case True
    with that Each_Put_set [OF t, of m p' n p] peer known show ?thesis by simp
  next
    case False
    with that Each_Put_set [OF t, of m p' n p] have "(m, p') \<in> set (avl_Each lib peers)" by simp
    with ok mono show ?thesis by (auto simp: registry_ok_def)
  qed
  ultimately show ?thesis using inv_Put [OF t] wf by (auto simp: registry_ok_def)
qed

lemma Size_Put_mono: "inv t \<Longrightarrow> avl_Size lib t \<le> avl_Size lib (avl_Put lib k v t)"
  by (simp add: Size_Put)

lemma counts_put:
  assumes "inv peers" and "counts_ok lib peers counts got" and "length counts < peerCountChan_cap"
  shows "counts_ok lib (avl_Put lib n p peers) (counts @ [avl_Size lib (avl_Put lib n p peers)]) got"
proof -
  have le: "m \<le> avl_Size lib (avl_Put lib n p peers)" if "m \<in> set counts" for m
    using assms(2) that Size_Put_mono [OF assms(1), of n p] by (fastforce simp: counts_ok_def)
  have "avl_Size lib (avl_Put lib n p peers) = 1" if "counts = []" "got = None"
    using that assms(1,2) Size_Put [OF assms(1), of n p] by (simp add: counts_ok_def Size_Each Get_Each)
  with assms(2,3) le show ?thesis
    by (cases counts) (auto simp: counts_ok_def sorted_append split: option.splits)
qed

lemma counts_full:
  assumes "inv peers" and "counts_ok lib peers counts got" and "peerCountChan_cap \<le> length counts"
  shows "counts_ok lib (avl_Put lib n p peers) counts got"
proof -
  have "counts \<noteq> []" using assms(3) by (auto simp: peerCountChan_cap_def)
  then show ?thesis using assms(2) Size_Put_mono [OF assms(1), of n p]
    by (fastforce simp: counts_ok_def split: option.splits)
qed

lemma counts_again:
  assumes "counts_ok lib peers counts (Some m)" and "length counts < peerCountChan_cap"
  shows "counts_ok lib peers (counts @ [avl_Size lib peers]) (Some m)"
  using assms by (simp add: counts_ok_def sorted_append)

lemma counts_replace:
  assumes "inv peers" and "avl_Get lib peers n = Some p" and "counts_ok lib peers counts got"
  shows "counts_ok lib (avl_Put lib n p' peers) counts got"
  using assms Size_Put [OF assms(1), of n p'] by (auto simp: counts_ok_def Get_Each split: option.splits)

lemma counts_receive:
  "counts_ok lib peers (n # ns) None \<Longrightarrow> counts_ok lib peers ns (Some n)"
  by (simp add: counts_ok_def)

lemma announce_peer_inv:
  assumes reg: "registry_ok lib inv (sv_peers s) (sv_appIdToPeerId s)"
    and full: "peerCountChan_cap \<le> length (sv_peerCountChan s) \<Longrightarrow> counts_ok lib (sv_peers s) (sv_peerCountChan s) got"
    and room: "length (sv_peerCountChan s) < peerCountChan_cap \<Longrightarrow>
      counts_ok lib (sv_peers s) (sv_peerCountChan s @ [avl_Size lib (sv_peers s)]) got"
    and call: "announce_peer P lib plib net peer s = (r, s', out)"
  shows "server_inv lib inv got s'"
proof (cases "peerCountChan_cap \<le> length (sv_peerCountChan s)")
  case True
  with call have "s' = s\<lparr>sv_lock := LockSending peer\<rparr>" by (simp add: announce_peer_def)
  with reg full [OF True] True show ?thesis by (simp add: server_inv_def counts_ok_def)
next
  case False
  let ?s = "s\<lparr>sv_lock := LockHeld, sv_peerCountChan := sv_peerCountChan s @ [avl_Size lib (sv_peers s)]\<rparr>"
  obtain r' s2 out' where hs: "sendHandshakeMsgToPeerNode P plib net (peer_ID peer) ?s = (r', s2, out')"
    by (metis prod_cases3)
  obtain lt where lt: "s2 = ?s\<lparr>sv_Transporter := lt\<rparr>" using handshake_server [OF hs] by blast
  have "server_inv lib inv got ?s" using reg room False by (simp add: server_inv_def)
  then have "server_inv lib inv got s2" by (simp add: lt)
  moreover have "s' = s2 \<or> s' = s2\<lparr>sv_lock := LockFree\<rparr>"
    using call False hs by (cases r') (simp_all add: announce_peer_def)
  ultimately show ?thesis using server_inv_lock by blast
qed

lemma handleNewPeer_inv:
  assumes inv: "server_inv lib inv got s" and call: "handleNewPeer P lib plib net peer s = (r, s', out)"
  shows "server_inv lib inv got s'"
proof (cases "sv_peerLock s")
  case True
  with assms show ?thesis by (simp add: handleNewPeer_def)
next
  case False
  from inv have t: "inv (sv_peers s)" and c: "counts_ok lib (sv_peers s) (sv_peerCountChan s) got"
    by (simp_all add: server_inv_def registry_ok_def)
  let ?t = "avl_Put lib (peer_ID peer) \<lparr>pp_ServerID = [], pp_Peer = Some peer\<rparr> (sv_peers s)"
  have "registry_ok lib inv ?t (sv_appIdToPeerId s)"
    using inv by (intro registry_put) (auto simp: server_inv_def registry_ok_def)
  moreover from False call have
    "announce_peer P lib plib net peer (s\<lparr>sv_lock := LockHeld, sv_peers := ?t\<rparr>) = (r, s', out)"
    by (simp add: handleNewPeer_def)
  ultimately show ?thesis
    using counts_full [OF t c] counts_put [OF t c]
    by (intro announce_peer_inv [where s = "s\<lparr>sv_lock := LockHeld, sv_peers := ?t\<rparr>"]) simp_all
qed

lemma resume_inv:
  assumes inv: "server_inv lib inv got s" and "sv_lock s = LockSending p"
    and room: "length (sv_peerCountChan s) < peerCountChan_cap"
    and call: "announce_peer P lib plib net p s = (r, s', out)"
  shows "server_inv lib inv got s'"
proof (cases got)
  case None
  with assms show ?thesis by (simp add: server_inv_def)
next
  case (Some m)
  then show ?thesis using inv room counts_again
    by (intro announce_peer_inv [OF _ _ _ call]) (auto simp: server_inv_def)
qed

lemma server_info_inv:
  assumes inv: "server_inv lib inv got s" and call: "server_info lib m s = (r, s')"
  shows "server_inv lib inv got s'"
proof (cases "avl_Get lib (sv_peers s) (im_NetworkId m)")
  case None
  with assms show ?thesis by (auto simp: server_info_def server_inv_lock split: if_splits)
next
  case (Some p)
  let ?p = "p\<lparr>pp_ServerID := im_ServerId m\<rparr>"
  let ?reg = "gm_put (im_ServerId m) (im_NetworkId m) (sv_appIdToPeerId s)"
  from inv have ok: "registry_ok lib inv (sv_peers s) (sv_appIdToPeerId s)" and t: "inv (sv_peers s)"
    by (auto simp: server_inv_def registry_ok_def)
  from Some t have "(im_NetworkId m, p) \<in> set (avl_Each lib (sv_peers s))"
    by (simp add: Get_Each map_of_SomeD)
  with ok obtain q where q: "pp_Peer ?p = Some q" "peer_ID q = im_NetworkId m"
    by (auto simp: registry_ok_def)
  have "registry_ok lib inv (avl_Put lib (im_NetworkId m) ?p (sv_peers s)) ?reg"
  proof (rule registry_put [OF ok q])
    show "gm_wf ?reg" using ok by (auto simp: registry_ok_def)
    show "map_of ?reg i \<noteq> None" if "map_of (sv_appIdToPeerId s) i \<noteq> None" for i using that by simp
    show "n = im_NetworkId m \<or> (i, n) \<in> set (sv_appIdToPeerId s)" if "(i, n) \<in> set ?reg" for i n
      using set_gm_put_subset [THEN subsetD, OF that] by auto
  qed simp
  moreover have "counts_ok lib (avl_Put lib (im_NetworkId m) ?p (sv_peers s)) (sv_peerCountChan s) got"
    using counts_replace [OF t Some] inv by (simp add: server_inv_def)
  ultimately have "sv_lock s = LockFree \<Longrightarrow> server_inv lib inv got (s\<lparr>sv_appIdToPeerId := ?reg,
      sv_peers := avl_Put lib (im_NetworkId m) ?p (sv_peers s)\<rparr>)"
    by (simp add: server_inv_def)
  with call inv Some show ?thesis by (auto simp: server_info_def split: if_splits)
qed

lemma server_step_inv:
  assumes "server_step P lib plib s s'" and "server_inv lib inv got s"
  shows "server_inv lib inv got s'"
  using assms(1)
proof (cases rule: server_step.cases)
  case (peer net p r out)
  with assms(2) show ?thesis by (blast intro: handleNewPeer_inv)
next
  case (resume p net r out)
  with assms(2) show ?thesis by (blast intro: resume_inv)
next
  case (info m ms)
  show ?thesis by (rule server_info_inv [OF _ info(2)]) (simp add: assms(2))
next
  case (receive rpcMsg h)
  with assms(2) server_receive_server show ?thesis by fastforce
next
  case (send net i m r out)
  with assms(2) SendMsg_server show ?thesis by fastforce
next
  case (broadcast net m r out)
  with assms(2) BroadcastMsg_server show ?thesis by fastforce
qed (use assms(2) in \<open>auto simp: Server_Stop_def go_simps\<close>)

end

context avl_tree
begin

lemma node_reach_inv:
  assumes "NewServer ff lib opts = Ok s0" and "(node_step P lib plib)\<^sup>*\<^sup>* (s0, None) (s, got)"
  shows "server_inv lib inv got s"
  using assms(2)
proof (induction "(s, got)" arbitrary: s got rule: rtranclp_induct)
  case base
  from assms(1) show ?case
    by (auto simp: NewServer_def server_inv_def registry_ok_def counts_ok_def inv_New Each_New split: if_splits)
next
  case (step y)
  from step.hyps(2) show ?case
  proof cases
    case (own s1)
    with step.hyps(3) server_step_inv show ?thesis by blast
  next
    case (count s1 n ns)
    with step.hyps(3) [of s1 None] show ?thesis by (auto simp: server_inv_def dest: counts_receive)
  qed
qed

end

lemma own_steps: "(server_step P avl lib)\<^sup>*\<^sup>* s s' \<Longrightarrow> (node_step P avl lib)\<^sup>*\<^sup>* (s, got) (s', got)"
  by (induction rule: rtranclp_induct) (auto intro: rtranclp.rtrancl_into_rtrancl node_step.own)

lemma handleNewPeer_Ok:
  assumes "handleNewPeer P avl lib net peer s = (Ok (), s', out)"
  shows "sv_peers s' = avl_Put avl (peer_ID peer) \<lparr>pp_ServerID = [], pp_Peer = Some peer\<rparr> (sv_peers s) \<and>
         \<not> sv_peerLock s'"
  using assms
  by (auto simp: handleNewPeer_def announce_peer_def split: if_splits prod.splits res.splits dest!: handshake_server)

lemma handleNewPeer_count:
  assumes "handleNewPeer P avl lib net peer s = (r, s', out)" and "\<not> sv_peerLock s"
    and "length (sv_peerCountChan s) < peerCountChan_cap"
  shows "\<exists>n. sv_peerCountChan s' = sv_peerCountChan s @ [n]"
proof -
  let ?t = "avl_Put avl (peer_ID peer) \<lparr>pp_ServerID = [], pp_Peer = Some peer\<rparr> (sv_peers s)"
  let ?s = "s\<lparr>sv_peers := ?t, sv_lock := LockHeld, sv_peerCountChan := sv_peerCountChan s @ [avl_Size avl ?t]\<rparr>"
  obtain r' s2 out' where hs: "sendHandshakeMsgToPeerNode P lib net (peer_ID peer) ?s = (r', s2, out')"
    by (metis prod_cases3)
  from handshake_server [OF hs] have "sv_peerCountChan s2 = sv_peerCountChan ?s" by auto
  with assms hs show ?thesis by (cases r') (auto simp: handleNewPeer_def announce_peer_def)
qed

text \<open>A lock that was left held, with no handler waiting to go on, stays held.\<close>

lemma locked_step:
  assumes "server_step P avl lib s s'" and "sv_lock s = LockHeld"
  shows "sv_lock s' = LockHeld \<and> sv_peers s' = sv_peers s \<and> sv_appIdToPeerId s' = sv_appIdToPeerId s"
  using assms(1)
proof (cases rule: server_step.cases)
  case (send net i m r out)
  with assms(2) SendMsg_server show ?thesis by fastforce
next
  case (broadcast net m r out)
  with assms(2) BroadcastMsg_server show ?thesis by fastforce
next
  case (receive rpcMsg h)
  with assms(2) server_receive_server show ?thesis by fastforce
qed (use assms(2) in \<open>auto simp: handleNewPeer_def server_info_def Server_Stop_def go_simps\<close>)

lemma locked_for_ever:
  assumes "(node_step P avl lib)\<^sup>*\<^sup>* (s, got) (s', got')" and "sv_lock s = LockHeld"
  shows "sv_lock s' = LockHeld \<and> sv_peers s' = sv_peers s \<and> sv_appIdToPeerId s' = sv_appIdToPeerId s"
  using assms(1)
proof (induction "(s', got')" arbitrary: s' got' rule: rtranclp_induct)
  case (step y)
  from step.hyps(2) show ?case
  proof cases
    case (own s1)
    with step.hyps(3) locked_step show ?thesis by metis
  next
    case (count s1 n ns)
    with step.hyps(3) [of s1 None] show ?thesis by simp
  qed
qed (use assms(2) in simp)

section \<open>Properties\<close>

text \<open>
  C14: The server's registry is consistent in every state of the running node, before and after
  \<open>OCR.Start\<close> has received the peer count: each registered server identity leads to a known peer, each
  known peer is filed under its own network identity, and a server identity once learnt is registered. The
  counter channel stays within its capacity, and the numbers in it ascend up to the number of peers.
  Until the receive the first of them is 1, so the number received is 1; no handler waits for room in
  the channel unless it is full or was full before the receive.
\<close>

theorem server_registry:
  assumes "avl_tree avl tinv" and "NewServer ff avl opts = Ok s0"
    and "(node_step P avl lib)\<^sup>*\<^sup>* (s0, None) (s, got)"
  shows "server_inv avl tinv got s"
  using assms by (rule avl_tree.node_reach_inv)

text \<open>
  C26: A handshake registers a peer. After a discovered peer has been added and its status message has
  been handled, its server identity is a peer, the tree holds the peer with that identity, and a
  message for the identity is handed to the transport for the peer's network identity. The identity
  is taken from the message unchecked: a second node that claims it gets its messages from then on.
\<close>

theorem handshake_registers:
  assumes "avl_tree avl tinv" and "tinv (sv_peers s)"
    and "handleNewPeer P avl lib net peer s = (Ok (), s1, out)"
    and "peer_ID peer \<noteq> []"
    and "server_info avl \<lparr>im_NetworkId = peer_ID peer, im_ListenAddr = a, im_ServerId = i\<rparr> s1 = (Ok (), s2)"
  shows "IsPeer i s2 = (Ok True :: (unit, bool) res) \<and>
         avl_Get avl (sv_peers s2) (peer_ID peer) = Some \<lparr>pp_ServerID = i, pp_Peer = Some peer\<rparr> \<and>
         (case Transport_SendMsg lib net' (peer_ID peer) m (sv_Transporter s2) of
            (r, lt, sent) \<Rightarrow>
              Server_SendMsg lib net' i m s2 = (map_err TransportFailed r, s2\<lparr>sv_Transporter := lt\<rparr>, sent)) \<and>
         (\<forall>n. n \<noteq> [] \<longrightarrow> avl_Get avl (sv_peers s2) n \<noteq> None \<longrightarrow>
            (case server_info avl \<lparr>im_NetworkId = n, im_ListenAddr = a, im_ServerId = i\<rparr> s2 of
               (_, s3) \<Rightarrow> gm_get0 [] (sv_appIdToPeerId s3) i = n))"
proof -
  let ?p = "\<lparr>pp_ServerID = [], pp_Peer = Some peer\<rparr>"
  have s1: "sv_peers s1 = avl_Put avl (peer_ID peer) ?p (sv_peers s) \<and> \<not> sv_peerLock s1"
    by (rule handleNewPeer_Ok [OF assms(3)])
  have get: "avl_Get avl (avl_Put avl k v t) n = (if n = k then Some v else avl_Get avl t n)"
    if "tinv t" for k v t n
    using that assms(1) by (simp add: avl_tree.Get_Each avl_tree.Each_Put avl_tree.inv_Put)
  have t1: "tinv (sv_peers s1)" using s1 assms(1,2) by (simp add: avl_tree.inv_Put)
  have "s2 = s1\<lparr>sv_appIdToPeerId := gm_put i (peer_ID peer) (sv_appIdToPeerId s1),
      sv_peers := avl_Put avl (peer_ID peer) \<lparr>pp_ServerID = i, pp_Peer = Some peer\<rparr> (sv_peers s1)\<rparr>"
    using assms(5) s1 get [OF assms(2)] by (simp add: server_info_def)
  then show ?thesis
    using s1 assms(4) get [OF t1]
    by (auto simp: IsPeer_def Server_SendMsg_def Let_def server_info_def split: prod.splits option.splits)
qed

text \<open>
  C37: A status message that names a network identity the server does not know, as one that arrives
  before the sender was discovered does, leaves the peer lock held. From then on no peer is ever
  added or registered, and every question whether a node is a peer blocks its caller.
\<close>

theorem unknown_peer_deadlock:
  assumes "commsChWithServer (sv_RPCProcessor s) = m # ms"
    and "avl_Get avl (sv_peers s) (im_NetworkId m) = None" and "\<not> sv_peerLock s"
  shows "\<exists>s1. server_step P avl lib s s1 \<and>
           (\<forall>s2 got got' i net p m'. (node_step P avl lib)\<^sup>*\<^sup>* (s1, got) (s2, got') \<longrightarrow>
              IsPeer i s2 = (Blocked :: (engine_error, bool) res) \<and>
              handleNewPeer P avl lib net p s2 = (Blocked, s2, []) \<and>
              server_info avl m' s2 = (Blocked, s2) \<and>
              sv_peers s2 = sv_peers s \<and> sv_appIdToPeerId s2 = sv_appIdToPeerId s)"
proof -
  let ?s = "s\<lparr>sv_RPCProcessor := (sv_RPCProcessor s)\<lparr>commsChWithServer := ms\<rparr>, sv_lock := LockHeld\<rparr>"
  have step: "server_step P avl lib s ?s"
    by (rule server_step.info [OF assms(1)]) (simp add: server_info_def assms)
  have "IsPeer i s2 = (Blocked :: (engine_error, bool) res) \<and>
      handleNewPeer P avl lib net p s2 = (Blocked, s2, []) \<and> server_info avl m' s2 = (Blocked, s2) \<and>
      sv_peers s2 = sv_peers s \<and> sv_appIdToPeerId s2 = sv_appIdToPeerId s"
    if "(node_step P avl lib)\<^sup>*\<^sup>* (?s, got) (s2, got')" for s2 got got' i net p m'
    using locked_for_ever [OF that] by (simp add: IsPeer_def handleNewPeer_def server_info_def)
  with step show ?thesis by blast
qed

section \<open>Witnesses\<close>

definition demo_opts :: ServerOpts where
  "demo_opts = \<lparr>so_ListenAddr = ''127.0.0.1'', so_CodecType = JsonCodecType, so_BootStrapNodes = [],
     so_PrivateKey = \<lparr>priv_D = 5, priv_pub = witness_key\<rparr>\<rparr>"

definition demo_server :: "(string, ProtcolPeer) rbt Server" where
  "demo_server =
     \<lparr>sv_opts = demo_opts, sv_id = witness_key, sv_Transporter = demo_transport,
      sv_RPCProcessor = \<lparr>handlers = [], commsChWithServer =
        [\<lparr>im_NetworkId = ''p'', im_ListenAddr = ''a'', im_ServerId = ''srv''\<rparr>]\<rparr>,
      sv_lock = LockFree, sv_Codec = JSONCodec (\<lambda>_. ''0''), sv_quitCh = OpenChan,
      sv_peers = avl_New rbt_lib, sv_appIdToPeerId = [], sv_peerCountChan = []\<rparr>"

lemma demo_handshake:
  "\<exists>s1 out. handleNewPeer witness_prims rbt_lib plain_lib (demo_net True) (NewPeer ''p'' ''a'') demo_server =
     (Ok (), s1, out)"
  by (simp add: handleNewPeer_def announce_peer_def demo_server_def peerCountChan_cap_def sendHandshakeMsgToPeerNode_def Let_def
      Transport_ID_def Transport_Addr_def demo_transport_def plain_lib_def demo_net_def NewPeer_def
      Transport_SendMsg_def write_stream_def builder_defs payload_Bytes_def Message_Bytes_def
      RPCMessage_Bytes_def JSONCodec_def)

theorem server_registry_witness:
  "\<exists>s0 s ns n. NewServer (\<lambda>_. ''0'') rbt_lib demo_opts = Ok s0 \<and>
     s = fst (snd (handleNewPeer witness_prims rbt_lib plain_lib (demo_net True) (NewPeer ''p'' ''a'') s0)) \<and>
     sv_peerCountChan s = n # ns \<and> server_inv rbt_lib (\<lambda>_. True) (Some n) (s\<lparr>sv_peerCountChan := ns\<rparr>)"
proof -
  obtain s0 where s0: "NewServer (\<lambda>_. ''0'') rbt_lib demo_opts = Ok s0"
      and free: "sv_lock s0 = LockFree" "sv_peerCountChan s0 = []"
    by (simp add: NewServer_def demo_opts_def)
  let ?r = "handleNewPeer witness_prims rbt_lib plain_lib (demo_net True) (NewPeer ''p'' ''a'') s0"
  let ?s = "fst (snd ?r)"
  obtain n where n: "sv_peerCountChan ?s = [n]"
    using handleNewPeer_count [of witness_prims rbt_lib plain_lib "demo_net True" "NewPeer ''p'' ''a''" s0 "fst ?r"
        ?s "snd (snd ?r)"] free by (auto simp: peerCountChan_cap_def)
  have "server_step witness_prims rbt_lib plain_lib s0 ?s"
    by (rule server_step.peer [where r = "fst ?r" and out = "snd (snd ?r)"]) simp
  then have "(node_step witness_prims rbt_lib plain_lib)\<^sup>*\<^sup>* (s0, None) (?s\<lparr>sv_peerCountChan := []\<rparr>, Some n)"
    using node_step.own node_step.count [OF n] by (meson converse_rtranclp_into_rtranclp r_into_rtranclp)
  from server_registry [OF rbt.avl_tree_axioms s0 this] s0 n show ?thesis by blast
qed

theorem handshake_registers_witness:
  "\<exists>s1 s2 out. handleNewPeer witness_prims rbt_lib plain_lib (demo_net True) (NewPeer ''p'' ''a'') demo_server =
       (Ok (), s1, out) \<and>
     server_info rbt_lib \<lparr>im_NetworkId = ''p'', im_ListenAddr = ''a'', im_ServerId = ''srv''\<rparr> s1 = (Ok (), s2) \<and>
     IsPeer ''srv'' s2 = (Ok True :: (unit, bool) res)"
proof -
  obtain s1 out where s1: "handleNewPeer witness_prims rbt_lib plain_lib (demo_net True) (NewPeer ''p'' ''a'')
      demo_server = (Ok (), s1, out)" using demo_handshake by blast
  let ?im = "\<lparr>im_NetworkId = peer_ID (NewPeer ''p'' ''a''), im_ListenAddr = ''a'', im_ServerId = ''srv''\<rparr>"
  obtain s2 where s2: "server_info rbt_lib ?im s1 = (Ok (), s2)"
    using handleNewPeer_Ok [OF s1] by (simp add: server_info_def rbt.Get_Each rbt.Each_Put)
  have "peer_ID (NewPeer ''p'' ''a'') \<noteq> []" by (simp add: NewPeer_def)
  from handshake_registers [OF rbt.avl_tree_axioms TrueI s1 this s2] s1 s2 show ?thesis
    by (auto simp: NewPeer_def)
qed

theorem unknown_peer_deadlock_witness:
  "\<exists>s1. server_step witness_prims rbt_lib plain_lib demo_server s1 \<and>
     IsPeer ''srv'' s1 = (Blocked :: (engine_error, bool) res)"
proof -
  have "commsChWithServer (sv_RPCProcessor demo_server) =
      [\<lparr>im_NetworkId = ''p'', im_ListenAddr = ''a'', im_ServerId = ''srv''\<rparr>]" "\<not> sv_peerLock demo_server"
    by (simp_all add: demo_server_def)
  moreover have "avl_Get rbt_lib (sv_peers demo_server) ''p'' = None"
    by (simp add: demo_server_def rbt.Get_Each rbt.Each_New)
  ultimately obtain s1 where "server_step witness_prims rbt_lib plain_lib demo_server s1"
      "IsPeer ''srv'' s1 = (Blocked :: (engine_error, bool) res)"
    using unknown_peer_deadlock [of demo_server _ "[]" rbt_lib witness_prims plain_lib]
    by (metis InternalPeerServerInfoMsg.select_convs(1) rtranclp.rtrancl_refl)
  then show ?thesis by blast
qed

end
