(* ===== verification/Schedule.thy ===== *)
theory Schedule
  imports Reporter
begin

text \<open>
  The job schedule that \<open>ReportingEngine.Start\<close> makes from the pacemaker's queue. The queue is a
  library outside the repository; the locale \<open>fifo_queue\<close> states what it documents: first in, first
  out. A queue of two lists satisfies it. The reference \<open>jobs_of_round\<close> says which jobs a round gets.
\<close>

section \<open>Definitions\<close>

definition per_round :: "nat \<Rightarrow> nat" where
  "per_round n = n div MAX_ROUNDS - 1"

text \<open>The schedule the loops make: round \<open>i\<close>, counted from 0, gets the \<open>i\<close>-th slice of the jobs.\<close>

definition jobs_of_round :: "DirectRequest list \<Rightarrow> nat \<Rightarrow> DirectRequest list" where
  "jobs_of_round js i =
     (if i < MAX_ROUNDS then take (per_round (length js)) (drop (i * per_round (length js)) js) else [])"

section \<open>The interface of the queue\<close>

locale fifo_queue =
  fixes lib :: "'q fifo_lib"
    and contents :: "'q \<Rightarrow> queue_item list"
  assumes contents_New: "contents (fifo_New lib) = []"
    and Len_contents: "fifo_Len lib q = length (contents q)"
    and contents_Add: "contents (fifo_Add lib x q) = contents q @ [x]"
    and Next_Nil: "contents q = [] \<Longrightarrow> fifo_Next lib q = (None, q)"
    and Next_Cons: "contents q = x # xs \<Longrightarrow> \<exists>q'. fifo_Next lib q = (Some x, q') \<and> contents q' = xs"
begin

lemma schedule_one_job:
  "contents q = QJob j # xs \<Longrightarrow>
     \<exists>q'. schedule_one lib i n (q, sched) = Ok (q', gm_put i (gm_get0 [] sched i @ [j]) sched) \<and> contents q' = xs"
  using Next_Cons [of q "QJob j" xs] by (auto simp: schedule_one_def)

lemma schedule_one_other:
  "(\<And>j xs. contents q \<noteq> QJob j # xs) \<Longrightarrow> schedule_one lib i n (q, sched) = Panicked TypeAssertion"
proof (cases "contents q")
  case (Cons x xs)
  assume "\<And>j xs. contents q \<noteq> QJob j # xs"
  with Cons obtain e where "x = QEvent e" by (cases x) auto
  with Next_Cons [OF Cons] show ?thesis by (auto simp: schedule_one_def)
qed (simp add: schedule_one_def Next_Nil)

text \<open>One inner loop: the next jobs of the queue, in order, for one round.\<close>

lemma schedule_round:
  assumes "contents q = map QJob js @ rest" and "length ns = length js"
  shows "\<exists>q' sched'. foldM (schedule_one lib i) ns (q, sched) = Ok (q', sched') \<and> contents q' = rest \<and>
           (\<forall>k. gm_get0 [] sched' k = (if k = i then gm_get0 [] sched i @ js else gm_get0 [] sched k))"
  using assms
proof (induction ns arbitrary: js q sched)
  case (Cons n ns)
  then obtain j js' where js: "js = j # js'" by (cases js) auto
  with Cons.prems(1) have c: "contents q = QJob j # map QJob js' @ rest" by simp
  from schedule_one_job [OF c, of i n sched] obtain q' where
    one: "schedule_one lib i n (q, sched) = Ok (q', gm_put i (gm_get0 [] sched i @ [j]) sched)"
    and q': "contents q' = map QJob js' @ rest" by blast
  from Cons.prems(2) js have "length ns = length js'" by simp
  from Cons.IH [OF q' this, of "gm_put i (gm_get0 [] sched i @ [j]) sched"] one js
  show ?case by auto
qed simp

lemma schedule_rounds:
  assumes "contents q = map QJob js @ rest" and "length js = length is * m"
    and "distinct (map word_of_nat is :: u64 list)"
  shows "\<exists>q' sched'. foldM (\<lambda>i. foldM (schedule_one lib (word_of_nat i)) [1..<Suc m]) is (q, sched) = Ok (q', sched') \<and>
           contents q' = rest \<and>
           (\<forall>l < length is. gm_get0 [] sched' (word_of_nat (is ! l)) =
              gm_get0 [] sched (word_of_nat (is ! l)) @ take m (drop (l * m) js)) \<and>
           (\<forall>k. k \<notin> word_of_nat ` set is \<longrightarrow> gm_get0 [] sched' k = gm_get0 [] sched k)"
  using assms
proof (induction "is" arbitrary: js q sched)
  case (Cons i "is")
  have "contents q = map QJob (take m js) @ map QJob (drop m js) @ rest"
    using Cons.prems(1) by (simp flip: map_append append.assoc)
  moreover have "length [1..<Suc m] = length (take m js)" using Cons.prems(2) by simp
  ultimately obtain q1 sched1 where r:
      "foldM (schedule_one lib (word_of_nat i)) [1..<Suc m] (q, sched) = Ok (q1, sched1)"
      "contents q1 = map QJob (drop m js) @ rest"
      "\<And>k. gm_get0 [] sched1 k =
         (if k = word_of_nat i then gm_get0 [] sched (word_of_nat i) @ take m js else gm_get0 [] sched k)"
    using schedule_round by blast
  have "length (drop m js) = length is * m" "distinct (map word_of_nat is :: u64 list)"
    using Cons.prems(2,3) by simp_all
  from Cons.IH [OF r(2) this, of sched1] obtain q2 sched2 where s:
      "foldM (\<lambda>i. foldM (schedule_one lib (word_of_nat i)) [1..<Suc m]) is (q1, sched1) = Ok (q2, sched2)"
      "contents q2 = rest"
      "\<And>l. l < length is \<Longrightarrow> gm_get0 [] sched2 (word_of_nat (is ! l)) =
         gm_get0 [] sched1 (word_of_nat (is ! l)) @ take m (drop (l * m) (drop m js))"
      "\<And>k. k \<notin> word_of_nat ` set is \<Longrightarrow> gm_get0 [] sched2 k = gm_get0 [] sched1 k"
    by blast
  have "gm_get0 [] sched2 (word_of_nat ((i # is) ! l)) =
      gm_get0 [] sched (word_of_nat ((i # is) ! l)) @ take m (drop (l * m) js)" if "l < length (i # is)" for l
  proof (cases l)
    case 0
    with s(4) [of "word_of_nat i"] Cons.prems(3) r(3) show ?thesis by simp
  next
    case (Suc l')
    with that have l': "l' < length is" by simp
    then have "word_of_nat (is ! l') \<in> (word_of_nat ` set is :: u64 set)" by simp
    with Cons.prems(3) have "word_of_nat (is ! l') \<noteq> (word_of_nat i :: u64)" by (metis distinct.simps(2) image_set list.map(2))
    with s(3) [OF l'] r(3) Suc show ?thesis by (simp add: add.commute)
  qed
  moreover have "gm_get0 [] sched2 k = gm_get0 [] sched k" if "k \<notin> word_of_nat ` set (i # is)" for k
    using that s(4) [of k] r(3) by auto
  ultimately show ?case using r(1) s(1,2) by auto
qed simp

lemma schedule_jobs_few:
  "length (contents q) < 2 * MAX_ROUNDS \<Longrightarrow> schedule_jobs lib q sched = Ok (q, sched)"
proof -
  assume "length (contents q) < 2 * MAX_ROUNDS"
  then have "length (contents q) div MAX_ROUNDS < 2" by (simp add: MAX_ROUNDS_def)
  then have empty: "[1..<length (contents q) div MAX_ROUNDS] = []" by simp
  have "foldM (\<lambda>i. foldM (schedule_one lib (word_of_nat i)) []) is st = Ok st" for "is" st
    by (induction "is") simp_all
  then show ?thesis unfolding schedule_jobs_def Let_def Len_contents empty .
qed

lemma schedule_jobs_events:
  assumes "contents q = QEvent e # xs" and "2 * MAX_ROUNDS \<le> length (contents q)"
  shows "schedule_jobs lib q sched = Panicked TypeAssertion"
proof -
  from assms(2) have "2 \<le> length (contents q) div MAX_ROUNDS" by (simp add: MAX_ROUNDS_def)
  then have inner: "[1..<length (contents q) div MAX_ROUNDS] = 1 # [2..<length (contents q) div MAX_ROUNDS]"
    by (simp add: upt_conv_Cons numeral_2_eq_2)
  have outer: "[0..<MAX_ROUNDS] = 0 # [1..<MAX_ROUNDS]" by (simp add: MAX_ROUNDS_def upt_conv_Cons)
  have "schedule_one lib (word_of_nat 0) 1 (q, sched) = Panicked TypeAssertion"
    using assms(1) by (intro schedule_one_other) simp
  then show ?thesis unfolding schedule_jobs_def Let_def Len_contents inner outer by simp
qed

end

definition two_list_lib :: "(queue_item list \<times> queue_item list) fifo_lib" where
  "two_list_lib =
     \<lparr>fifo_New = ([], []),
      fifo_Len = (\<lambda>(f, b). length f + length b),
      fifo_Add = (\<lambda>x (f, b). (f, x # b)),
      fifo_Next = (\<lambda>(f, b).
        case f of
          x # f' \<Rightarrow> (Some x, (f', b))
        | [] \<Rightarrow> (case rev b of [] \<Rightarrow> (None, (f, b)) | x # f' \<Rightarrow> (Some x, (f', []))))\<rparr>"

definition two_list_contents :: "queue_item list \<times> queue_item list \<Rightarrow> queue_item list" where
  "two_list_contents = (\<lambda>(f, b). f @ rev b)"

interpretation tlq: fifo_queue two_list_lib two_list_contents
  by unfold_locales
    (auto simp: two_list_lib_def two_list_contents_def split: list.splits)

section \<open>Properties\<close>

text \<open>
  C19: What the schedule of a queue of jobs is: with \<open>n\<close> jobs, each of the ten rounds numbered 0 to 9
  gets the next \<open>n / 10 - 1\<close> jobs in the order of the queue, every other round none, and the jobs that
  are left stay in the queue. So the loop that counts from one loses a job per round and fewer than
  twenty jobs are not scheduled at all.
\<close>

theorem schedule_refines:
  assumes "fifo_queue lib contents" and "contents q = map QJob js"
  shows "\<exists>q' sched. schedule_jobs lib q [] = Ok (q', sched) \<and>
           (\<forall>i < 2 ^ 64. gm_get0 [] sched (word_of_nat i) = jobs_of_round js i) \<and>
           contents q' = map QJob (drop (MAX_ROUNDS * per_round (length js)) js)"
proof (cases "length js < 2 * MAX_ROUNDS")
  case True
  then have "per_round (length js) = 0" by (simp add: per_round_def MAX_ROUNDS_def)
  with True fifo_queue.schedule_jobs_few [OF assms(1), of q "[]"] assms(2) show ?thesis
    by (simp add: jobs_of_round_def)
next
  case False
  let ?m = "per_round (length js)"
  let ?n = "MAX_ROUNDS * ?m"
  from False have m: "Suc ?m = length js div MAX_ROUNDS" by (simp add: per_round_def MAX_ROUNDS_def)
  then have le: "?n \<le> length js" by (simp add: per_round_def MAX_ROUNDS_def)
  have "contents q = map QJob (take ?n js) @ map QJob (drop ?n js)"
    using assms(2) by (simp flip: map_append)
  moreover have "length (take ?n js) = length [0..<MAX_ROUNDS] * ?m" using le by simp
  moreover have "distinct (map word_of_nat [0..<MAX_ROUNDS] :: u64 list)"
    by (simp add: distinct_map inj_on_def MAX_ROUNDS_def word_of_nat_eq_iff take_bit_nat_eq_self)
  ultimately obtain q' sched where s:
      "foldM (\<lambda>i. foldM (schedule_one lib (word_of_nat i)) [1..<Suc ?m]) [0..<MAX_ROUNDS] (q, []) = Ok (q', sched)"
      "contents q' = map QJob (drop ?n js)"
      "\<And>l. l < MAX_ROUNDS \<Longrightarrow> gm_get0 [] sched (word_of_nat l) = take ?m (drop (l * ?m) (take ?n js))"
      "\<And>k. k \<notin> word_of_nat ` {0..<MAX_ROUNDS} \<Longrightarrow> gm_get0 [] sched k = []"
    using fifo_queue.schedule_rounds [OF assms(1), of q "take ?n js" "map QJob (drop ?n js)" "[0..<MAX_ROUNDS]" ?m "[]"]
    by auto
  have "gm_get0 [] sched (word_of_nat i) = jobs_of_round js i" if "i < 2 ^ 64" for i
  proof (cases "i < MAX_ROUNDS")
    case True
    then have "i * ?m + ?m \<le> ?n" by (metis Suc_leI add.commute mult_Suc mult_le_mono1)
    with True s(3) [OF True] show ?thesis
      by (simp add: jobs_of_round_def take_drop min_def)
  next
    case False
    then have "word_of_nat i \<notin> (word_of_nat ` {0..<MAX_ROUNDS} :: u64 set)"
      using that by (auto simp: word_of_nat_eq_iff take_bit_nat_eq_self MAX_ROUNDS_def)
    with False s(4) show ?thesis by (simp add: jobs_of_round_def)
  qed
  with s(1,2) show ?thesis
    using assms(2) by (auto simp: schedule_jobs_def m fifo_queue.Len_contents [OF assms(1)])
qed

theorem schedule_refines_witness:
  "\<exists>j q' sched. schedule_jobs two_list_lib (map QJob (replicate 20 j), []) [] = Ok (q', sched) \<and>
     gm_get0 [] sched 3 = [j] \<and> gm_get0 [] sched 10 = [] \<and> length (two_list_contents q') = 10"
proof -
  fix j
  have "two_list_contents (map QJob (replicate 20 j), []) = map QJob (replicate 20 j)"
    by (simp add: two_list_contents_def)
  from schedule_refines [OF tlq.fifo_queue_axioms this] obtain q' sched where
    s: "schedule_jobs two_list_lib (map QJob (replicate 20 j), []) [] = Ok (q', sched)"
      "\<And>i. i < 2 ^ 64 \<Longrightarrow> gm_get0 [] sched (word_of_nat i) = jobs_of_round (replicate 20 j) i"
      "two_list_contents q' = map QJob (drop (MAX_ROUNDS * per_round 20) (replicate 20 j))"
    by auto
  from s(2) [of 3] s(2) [of 10] s(3) have "gm_get0 [] sched 3 = [j]" "gm_get0 [] sched 10 = []"
      "length (two_list_contents q') = 10"
    by (simp_all add: jobs_of_round_def per_round_def MAX_ROUNDS_def)
  with s(1) show ?thesis by blast
qed

end
