(* ===== verification/Pacemaker.thy ===== *)
theory Pacemaker
  imports Server Schedule
begin

text \<open>
  \<open>ocr/pacemaker.go\<close>: epochs. The pacemaker elects the leader of an epoch, starts the reporting engine
  for it, launches the job listeners on the leader, and counts the NEWEPOCH messages of its peers.

  What a method does to the outside is a list of \<open>pm_effect\<close>s: broadcasts, messages, state messages to
  the OCR object, goroutines started, and the effects of the engine. The FIFO queue of the received
  events is a library outside the repository, the record \<open>fifo_lib\<close>. The clock, the peers known at each
  attempt to elect a leader and the events queued at each poll are arguments.
\<close>

section \<open>Definitions\<close>

subsection \<open>State\<close>

record OCRCtx =
  oc_PeerCount :: u64
  oc_FaultyCount :: u64
  oc_ID :: string

record EpochStats =
  es_f :: u64
  es_n :: u64
  es_ne :: u64
  es_e :: u64
  es_n_e0 :: u64
  es_new_e :: u64

definition zero_EpochStats :: EpochStats where
  "zero_EpochStats = \<lparr>es_f = 0, es_n = 0, es_ne = 0, es_e = 0, es_n_e0 = 0, es_new_e = 0\<rparr>"

text \<open>
  \<open>pm_server\<close> says what the pacemaker reads of its server: address, codec and identity;
  \<open>pm_msgService\<close> whether the messaging layer has been attached.
\<close>

record 'q Pacemaker =
  pm_leader :: "PublicKey option"
  pm_msgService :: bool
  pm_TimerResend :: Timer
  pm_TimerProgress :: Timer
  pm_quitCh :: chan
  pm_ocrCtx :: "OCRCtx option"
  pm_currEpochStat :: EpochStats
  pm_Reporter :: "ReportingEngine option"
  pm_server :: ServerInfo
  pm_signer :: PrivateKey
  pm_recEvents :: 'q
  pm_jobRegistry :: "(string, DirectRequest) gomap"

datatype pm_effect =
    PBroadcast bytes
  | PSend string bytes
  | PState OCRState
  | PSpawnNewEpoch
  | PSpawnListen DirectRequest
  | PEngine effect

definition secretKey :: bytes where "secretKey = ''secretvalue''"

definition NewPaceMaker :: "'q fifo_lib \<Rightarrow> ServerInfo \<Rightarrow> PrivateKey \<Rightarrow> 'q Pacemaker" where
  "NewPaceMaker lib s signer =
     \<lparr>pm_leader = None, pm_msgService = False, pm_TimerResend = zero_Timer, pm_TimerProgress = zero_Timer,
      pm_quitCh = OpenChan, pm_ocrCtx = None, pm_currEpochStat = zero_EpochStats,
      pm_Reporter = Some zero_engine, pm_server = s, pm_signer = signer,
      pm_recEvents = fifo_New lib, pm_jobRegistry = []\<rparr>"

definition SetOCRContext :: "OCRCtx \<Rightarrow> 'q Pacemaker \<Rightarrow> 'q Pacemaker" where
  "SetOCRContext ctx p =
     p\<lparr>pm_ocrCtx := Some ctx,
       pm_currEpochStat := (pm_currEpochStat p)\<lparr>es_f := oc_FaultyCount ctx, es_n := oc_PeerCount ctx\<rparr>\<rparr>"

definition pm_AttachMsgLayer :: "'q Pacemaker \<Rightarrow> 'q Pacemaker" where
  "pm_AttachMsgLayer p = p\<lparr>pm_msgService := True\<rparr>"

text \<open>A method of the messaging layer, when it is attached.\<close>

definition msg_layer :: "'q Pacemaker \<Rightarrow> 'a \<Rightarrow> (engine_error, 'a) res" where
  "msg_layer p a = (if pm_msgService p then Ok a else Panicked NilDeref)"

definition Pacemaker_SendMsg ::
  "SendingSchme \<Rightarrow> bytes \<Rightarrow> string \<Rightarrow> 'q Pacemaker \<Rightarrow> (engine_error, pm_effect list) res" where
  "Pacemaker_SendMsg s msg i p =
     (case s of
        BROADCAST \<Rightarrow> msg_layer p [PBroadcast msg]
      | LEADER \<Rightarrow> (case pm_leader p of
                    None \<Rightarrow> Panicked NilDeref
                  | Some l \<Rightarrow> msg_layer p [PSend (PublicKey_String l) msg])
      | PEER \<Rightarrow> msg_layer p [PSend i msg])"

subsection \<open>NEWEPOCH\<close>

text \<open>The bytes both senders of NEWEPOCH build: a \<open>Message\<close>, not wrapped into an \<open>RPCMessage\<close>.\<close>

definition newepoch_bytes :: "codec \<Rightarrow> u64 \<Rightarrow> (build_error, bytes) res" where
  "newepoch_bytes c e =
     res_bind (mb_SetData (PNewEpoch \<lparr>ne_EpochID = e\<rparr>)
                (mb_SetTopic TopicPacemaker (mb_SetHeaders MessageNewEpoch (NewMessageBuilder c))))
       MessageBuilder_Bytes"

definition SendNewEpochMsg :: "'q Pacemaker \<Rightarrow> (engine_error, pm_effect list) res" where
  "SendNewEpochMsg p =
     res_bind (msg_layer p (si_Codec (pm_server p))) (\<lambda>c.
     res_bind (must (newepoch_bytes c (es_e (pm_currEpochStat p)))) (\<lambda>msg. Ok [PBroadcast msg]))"

definition upateOCRState :: "OCRState \<Rightarrow> 'q Pacemaker \<Rightarrow> (engine_error, pm_effect list) res" where
  "upateOCRState s p = (case pm_ocrCtx p of None \<Rightarrow> Panicked NilDeref | Some _ \<Rightarrow> Ok [PState s])"

definition globals_of :: "'q Pacemaker \<Rightarrow> PacemakerGlobals" where
  "globals_of p = \<lparr>pg_n = es_n (pm_currEpochStat p), pg_f = es_f (pm_currEpochStat p)\<rparr>"

text \<open>
  \<open>switchToNewEpoch\<close>. \<open>leader.ID\<close> is a field of the embedded network peer, which is nil when the node
  elected itself. A nil reporter is dereferenced for its options before it could be initialised.
\<close>

definition start_engine ::
  "'q fifo_lib \<Rightarrow> 'q \<Rightarrow> 'q Pacemaker \<Rightarrow> ReportingEngine \<Rightarrow>
   (engine_error, unit) res \<times> 'q Pacemaker \<times> pm_effect list" where
  "start_engine lib q p re =
     (case ReportingEngine_Start lib q (pm_jobRegistry p) re of
        ((r, re', es), _) \<Rightarrow> (r, p\<lparr>pm_Reporter := Some re'\<rparr>, map PEngine es))"

definition switchToNewEpoch ::
  "cprims \<Rightarrow> 't avl_lib \<Rightarrow> 'q fifo_lib \<Rightarrow> (nat \<Rightarrow> 't) \<Rightarrow> 'q Pacemaker \<Rightarrow>
   (engine_error, unit) res \<times> 'q Pacemaker \<times> pm_effect list" where
  "switchToNewEpoch P avl lib peers_at p =
     (let st = pm_currEpochStat p;
          st' = st\<lparr>es_e := (2 * es_f st + 1) - es_ne st, es_n_e0 := 0, es_new_e := 0\<rparr>;
          p1 = p\<lparr>pm_currEpochStat := st'\<rparr>
      in case pm_ocrCtx p of
           None \<Rightarrow> (Panicked NilDeref, p1, [])
         | Some ctx \<Rightarrow>
             (case exponentialBackoff P avl initTickerTime max_Backoff (es_e st') secretKey peers_at (oc_ID ctx) of
                None \<Rightarrow> (Blocked, p1, [])
              | Some (leader, _) \<Rightarrow>
                  (case pp_Peer leader of
                     None \<Rightarrow> (Panicked NilDeref, p1, [])
                   | Some peer \<Rightarrow>
                       (case pm_Reporter p of
                          None \<Rightarrow> (Panicked NilDeref, p1, [])
                        | Some re \<Rightarrow>
                            (case ReportingEngine_Stop re of
                               Ok re' \<Rightarrow>
                                 start_engine lib (if peer_ID peer = oc_ID ctx then pm_recEvents p else fifo_New lib)
                                   (p1\<lparr>pm_Reporter := Some re'\<rparr>) re'
                             | Err e \<Rightarrow> (Err e, p1, [])
                             | Panicked x \<Rightarrow> (Panicked x, p1, [])
                             | Blocked \<Rightarrow> (Blocked, p1, []))))))"

definition processNewEpochMsg ::
  "cprims \<Rightarrow> 't avl_lib \<Rightarrow> 'q fifo_lib \<Rightarrow> (nat \<Rightarrow> 't) \<Rightarrow> NewEpochMesage \<Rightarrow> 'q Pacemaker \<Rightarrow>
   (engine_error, unit) res \<times> 'q Pacemaker \<times> pm_effect list" where
  "processNewEpochMsg P avl lib peers_at m p =
     (let e0 = ne_EpochID m; st = pm_currEpochStat p; f = es_f st in
      if es_e st < e0 then
        let st1 = st\<lparr>es_ne := e0, es_n_e0 := es_n_e0 st + 1\<rparr> in
        if f < es_n_e0 st1 then
          (Ok (), p\<lparr>pm_currEpochStat := st1\<lparr>es_new_e := f + 1 - es_ne st1\<rparr>\<rparr>, [PSpawnNewEpoch])
        else if 2 * f < es_n_e0 st1 then
          switchToNewEpoch P avl lib peers_at (p\<lparr>pm_currEpochStat := st1\<rparr>)
        else (Ok (), p\<lparr>pm_currEpochStat := st1\<rparr>, [])
      else (Ok (), p, []))"

text \<open>
  The type switch has a case for a pointer to a NEWEPOCH and one for a CHANGE-LEADER value; the first
  reads the context for its log lines. Its errors are the engine's \<open>UnknownType\<close>.
\<close>

definition Pacemaker_ProcessMessage ::
  "cprims \<Rightarrow> 't avl_lib \<Rightarrow> 'q fifo_lib \<Rightarrow> (nat \<Rightarrow> 't) \<Rightarrow> DecodedMsg \<Rightarrow> 'q Pacemaker \<Rightarrow>
   (engine_error, unit) res \<times> 'q Pacemaker \<times> pm_effect list" where
  "Pacemaker_ProcessMessage P avl lib peers_at msg p =
     (case dm_Data msg of
        Ptr (PNewEpoch m) \<Rightarrow>
          (case pm_ocrCtx p of
             None \<Rightarrow> (Panicked NilDeref, p, [])
           | Some _ \<Rightarrow> processNewEpochMsg P avl lib peers_at m p)
      | Val PChangeLeader \<Rightarrow> (Ok (), p, [])
      | _ \<Rightarrow> (Err (PrecheckFailed UnknownType), p, []))"

subsection \<open>Jobs and events\<close>

fun launch_jobs ::
  "toml_lib \<Rightarrow> bytes list \<Rightarrow> (string, DirectRequest) gomap \<Rightarrow>
   (engine_error, (string, DirectRequest) gomap \<times> DirectRequest list) res" where
  "launch_jobs toml [] reg = Ok (reg, [])"
| "launch_jobs toml (r # rs) reg =
     (case JobReaderFactory_Read toml (Some r) JobFormatTOML of
        Ok (Some job) \<Rightarrow>
          res_bind (launch_jobs toml rs (gm_put (dr_JobID job) job reg)) (\<lambda>(reg', js). Ok (reg', job # js))
      | Ok None \<Rightarrow> Panicked NilDeref
      | Err _ \<Rightarrow> launch_jobs toml rs reg
      | Panicked p \<Rightarrow> Panicked p
      | Blocked \<Rightarrow> Blocked)"

definition launchJobListeners ::
  "toml_lib \<Rightarrow> dir_entry list option \<Rightarrow> 'q Pacemaker \<Rightarrow>
   (engine_error, unit) res \<times> 'q Pacemaker \<times> pm_effect list" where
  "launchJobListeners toml dir p =
     (case ReadJobsFromDir dir of
        Ok readers \<Rightarrow>
          (case launch_jobs toml readers (pm_jobRegistry p) of
             Ok (reg, js) \<Rightarrow> (Ok (), p\<lparr>pm_jobRegistry := reg\<rparr>, map PSpawnListen js)
           | Err e \<Rightarrow> (Err e, p, [])
           | Panicked x \<Rightarrow> (Panicked x, p, [])
           | Blocked \<Rightarrow> (Blocked, p, []))
      | Err _ \<Rightarrow> (Ok (), p, [])
      | Panicked x \<Rightarrow> (Panicked x, p, [])
      | Blocked \<Rightarrow> (Blocked, p, []))"

text \<open>
  The goroutine's \<open>select\<close>: what it does for each of its cases. A case is possible only when its
  channel is not nil, so a timer that was never made never fires.
\<close>

datatype pm_event = GotEvent JobEventResponse | ResendTick | ProgressTick | PmQuit

definition pm_ready :: "pm_event \<Rightarrow> 'q Pacemaker \<Rightarrow> bool" where
  "pm_ready ev p =
     (case ev of
        GotEvent _ \<Rightarrow> True
      | ResendTick \<Rightarrow> Subscribe (pm_TimerResend p) \<noteq> NilChan
      | ProgressTick \<Rightarrow> Subscribe (pm_TimerProgress p) \<noteq> NilChan
      | PmQuit \<Rightarrow> pm_quitCh p = ClosedChan)"

definition pm_select ::
  "'q fifo_lib \<Rightarrow> pm_event \<Rightarrow> 'q Pacemaker \<Rightarrow> (engine_error, unit) res \<times> 'q Pacemaker \<times> pm_effect list" where
  "pm_select lib ev p =
     (case ev of
        GotEvent e \<Rightarrow> (Ok (), p\<lparr>pm_recEvents := fifo_Add lib (QEvent e) (pm_recEvents p)\<rparr>, [])
      | ResendTick \<Rightarrow>
          (case SendNewEpochMsg p of
             Ok es \<Rightarrow> (Ok (), p, es) | Err e \<Rightarrow> (Err e, p, []) | Panicked x \<Rightarrow> (Panicked x, p, [])
           | Blocked \<Rightarrow> (Blocked, p, []))
      | _ \<Rightarrow> (Ok (), p, []))"

text \<open>
  The polling loop: \<open>now i\<close> is the clock and \<open>len i\<close> the length of the queue at poll \<open>i\<close>. The result is
  the answer and the number of polls; \<open>None\<close> is a loop that never returns.
\<close>

definition poll_interval :: int where "poll_interval = 500000000"
definition event_timeout :: int where "event_timeout = 10000000000"

partial_function (option) wait_loop ::
  "(nat \<Rightarrow> int) \<Rightarrow> (nat \<Rightarrow> nat) \<Rightarrow> int \<Rightarrow> nat \<Rightarrow> (bool \<times> nat) option" where
  "wait_loop now len deadline i =
     (if now i < deadline
      then if 0 < len i then Some (True, i) else wait_loop now len deadline (Suc i)
      else Some (False, i))"

definition waitForEvents :: "(nat \<Rightarrow> int) \<Rightarrow> (nat \<Rightarrow> nat) \<Rightarrow> int \<Rightarrow> int \<Rightarrow> (bool \<times> nat) option" where
  "waitForEvents now len start timeout = wait_loop now len (start + timeout) 0"

subsection \<open>Start\<close>

text \<open>
  \<open>Start\<close> up to and including the start of the engine. Its arguments are the peers at each attempt, the
  job directory, the clock and the queue at each poll of \<open>waitForEvents\<close>, and the queue that the
  event goroutine has filled when the engine takes it over.
\<close>

record ('t, 'q) start_run =
  sr_peers_at :: "nat \<Rightarrow> 't"
  sr_toml :: toml_lib
  sr_dir :: "dir_entry list option"
  sr_begin :: int
  sr_now :: "nat \<Rightarrow> int"
  sr_len :: "nat \<Rightarrow> nat"
  sr_queue :: 'q

definition leader_events ::
  "('t, 'q) start_run \<Rightarrow> 'q Pacemaker \<Rightarrow> (engine_error, unit) res \<times> 'q Pacemaker \<times> pm_effect list" where
  "leader_events run p =
     (case launchJobListeners (sr_toml run) (sr_dir run) p of
        (Ok _, p1, es1) \<Rightarrow>
          (case waitForEvents (sr_now run) (sr_len run) (sr_begin run) event_timeout of
             None \<Rightarrow> (Blocked, p1, es1)
           | Some (True, _) \<Rightarrow> (Ok (), p1, es1)
           | Some (False, _) \<Rightarrow>
               (case SendNewEpochMsg p1 of
                  Ok es2 \<Rightarrow> (Ok (), p1, es1 @ es2)
                | Err e \<Rightarrow> (Err e, p1, es1)
                | Panicked x \<Rightarrow> (Panicked x, p1, es1)
                | Blocked \<Rightarrow> (Blocked, p1, es1)))
      | r \<Rightarrow> r)"

definition Pacemaker_Start ::
  "cprims \<Rightarrow> 't avl_lib \<Rightarrow> 'q fifo_lib \<Rightarrow> ('t, 'q) start_run \<Rightarrow> 'q Pacemaker \<Rightarrow>
   (engine_error, unit) res \<times> 'q Pacemaker \<times> pm_effect list" where
  "Pacemaker_Start P avl lib run p =
     (case pm_ocrCtx p of
        None \<Rightarrow> (Panicked NilDeref, p, [])
      | Some ctx \<Rightarrow>
          (case exponentialBackoff P avl initTickerTime max_Backoff (es_e (pm_currEpochStat p)) secretKey
                  (sr_peers_at run) (oc_ID ctx) of
             None \<Rightarrow> (Blocked, p, [])
           | Some (leader, _) \<Rightarrow>
               (let isLeader = (pp_ServerID leader = oc_ID ctx);
                    st = [PState (if isLeader then LEADING else FOLLOWING)]
                in case (if isLeader then leader_events run p else (Ok (), p, [])) of
                     (Ok _, p1, es1) \<Rightarrow>
                       (case pm_Reporter p1 of
                          None \<Rightarrow> (Panicked NilDeref, p1, st @ es1)
                        | Some re \<Rightarrow>
                            (case initReporter isLeader (es_e (pm_currEpochStat p1)) (pp_ServerID leader)
                                    (pm_server p1) (globals_of p1) (pm_signer p1) re of
                               Ok re' \<Rightarrow>
                                 (case start_engine lib (sr_queue run) (p1\<lparr>pm_recEvents := sr_queue run\<rparr>) re' of
                                    (r, p2, es2) \<Rightarrow> (r, p2, st @ es1 @ es2))
                             | Err e \<Rightarrow> (Err e, p1, st @ es1)
                             | Panicked x \<Rightarrow> (Panicked x, p1, st @ es1)
                             | Blocked \<Rightarrow> (Blocked, p1, st @ es1)))
                   | (r, p1, es1) \<Rightarrow> (r, p1, st @ es1))))"

text \<open>A sequence of NEWEPOCH messages: the final state and all effects.\<close>

fun epoch_run ::
  "cprims \<Rightarrow> 't avl_lib \<Rightarrow> 'q fifo_lib \<Rightarrow> (nat \<Rightarrow> 't) \<Rightarrow> NewEpochMesage list \<Rightarrow> 'q Pacemaker \<Rightarrow>
   'q Pacemaker \<times> pm_effect list" where
  "epoch_run P avl lib peers_at [] p = (p, [])"
| "epoch_run P avl lib peers_at (m # ms) p =
     (case processNewEpochMsg P avl lib peers_at m p of
        (r, p', es) \<Rightarrow>
          (case epoch_run P avl lib peers_at ms p' of (p'', es') \<Rightarrow> (p'', es @ es')))"

section \<open>Lemmas\<close>

subsection \<open>NEWEPOCH\<close>

text \<open>With \<open>2 * f\<close> below the word size the second threshold cannot be met without the first.\<close>

lemma threshold_order:
  assumes "unat (f :: u64) < 2 ^ 63" and "\<not> f < n" shows "\<not> 2 * f < n"
proof -
  have "unat (2 * f) = 2 * unat f" using assms(1) by (simp add: unat_word_ariths)
  with assms(2) show ?thesis by (simp add: word_less_nat_alt)
qed

lemma processNewEpochMsg_step:
  assumes "unat (es_f (pm_currEpochStat p)) < 2 ^ 63" and "unat (es_n_e0 (pm_currEpochStat p)) + 1 < 2 ^ 64"
    and "processNewEpochMsg P avl lib peers_at m p = (r, p', es)"
  shows "r = Ok () \<and> pm_Reporter p' = pm_Reporter p \<and>
         es_e (pm_currEpochStat p') = es_e (pm_currEpochStat p) \<and>
         es_f (pm_currEpochStat p') = es_f (pm_currEpochStat p) \<and>
         (let new = es_e (pm_currEpochStat p) < ne_EpochID m;
              n = unat (es_n_e0 (pm_currEpochStat p)) + (if new then 1 else 0)
          in unat (es_n_e0 (pm_currEpochStat p')) = n \<and>
             es = (if new \<and> unat (es_f (pm_currEpochStat p)) < n then [PSpawnNewEpoch] else []))"
proof -
  let ?st = "pm_currEpochStat p"
  have n: "unat (es_n_e0 ?st + 1) = unat (es_n_e0 ?st) + 1"
    using assms(2) by (simp add: unat_word_ariths)
  show ?thesis
    using assms(3) threshold_order [OF assms(1), of "es_n_e0 ?st + 1"] n
    by (auto simp: processNewEpochMsg_def Let_def word_less_nat_alt split: if_splits)
qed

subsection \<open>Waiting\<close>

text \<open>The loop returns at the first poll that is late or sees an event.\<close>

lemma wait_loop_first:
  assumes "i \<le> k" and "\<And>j. i \<le> j \<Longrightarrow> j < k \<Longrightarrow> now j < deadline \<and> len j = 0"
    and "deadline \<le> now k \<or> 0 < len k"
  shows "wait_loop now len deadline i = Some (now k < deadline, k)"
  using assms
proof (induction "k - i" arbitrary: i)
  case 0
  then have "i = k" by simp
  with 0 show ?case by (subst wait_loop.simps) auto
next
  case (Suc d)
  then have "i < k" by simp
  with Suc.prems(2) [of i] have "wait_loop now len deadline i = wait_loop now len deadline (Suc i)"
    by (subst wait_loop.simps) simp
  also have "\<dots> = Some (now k < deadline, k)"
    using Suc.hyps(2) \<open>i < k\<close> Suc.prems by (intro Suc.hyps(1)) auto
  finally show ?case .
qed

subsection \<open>Starting the engine\<close>

text \<open>The engine as \<open>initReporter\<close> leaves it.\<close>

lemma initReporter_Ok:
  assumes "\<not> re_mu re"
  obtains re' where "initReporter l e i s g k re = Ok re'" and "re_isLeader re' = l" and "re_epoch re' = e"
    and "re_leader re' = i" and "re_pacemakerGlobals re' = g" and "re_curRound re' = INIT_ROUND"
    and "re_jobSchedule re' = Some []" and "\<not> re_mu re'" and "re_serverOpts re' = s"
    and "snd (ls_phaseCh (re_LeaderState re')) = OpenChan"
  using assms that by (simp add: initReporter_def fresh_LeaderState_def)

lemma Start_follower:
  assumes "\<not> re_isLeader re" and "\<not> re_mu re"
  shows "ReportingEngine_Start lib q reg re =
           ((Ok (), re\<lparr>re_jobRegistry := Some reg, re_ready := True\<rparr>, [ESpawn HFollowing]), q)"
  using assms by (simp add: ReportingEngine_Start_def Let_def thenA_def seqA_def emit_def)

lemma Start_leader:
  assumes "re_isLeader re" and "\<not> re_mu re" and "re_jobSchedule re = Some sched"
    and "snd (ls_phaseCh (re_LeaderState re)) = OpenChan" and "schedule_jobs lib q sched = Ok (q', sched')"
  shows "ReportingEngine_Start lib q reg re =
           ((Ok (), re\<lparr>re_jobRegistry := Some reg, re_recEvents := True, re_jobSchedule := Some sched',
                      re_orch := Some (fst (ls_phaseCh (re_LeaderState re))), re_ready := True\<rparr>,
             [ESpawn HObserve]), q')"
  using assms
  by (cases "ls_phaseCh (re_LeaderState re)")
    (simp add: ReportingEngine_Start_def Let_def thenA_def seqA_def upd_def send_phase_def phase_task_def)

lemma Start_leader_panics:
  assumes "re_isLeader re" and "re_jobSchedule re = Some sched" and "schedule_jobs lib q sched = Panicked x"
  shows "fst (fst (ReportingEngine_Start lib q reg re)) = Panicked x"
  using assms by (simp add: ReportingEngine_Start_def Let_def)

lemma Pacemaker_Start_follower:
  assumes "pm_ocrCtx p = Some ctx"
    and "exponentialBackoff P avl initTickerTime max_Backoff (es_e (pm_currEpochStat p)) secretKey
           (sr_peers_at run) (oc_ID ctx) = Some (leader, slept)"
    and "pp_ServerID leader \<noteq> oc_ID ctx" and "pm_Reporter p = Some re" and "\<not> re_mu re"
  shows "\<exists>p' re'. Pacemaker_Start P avl lib run p = (Ok (), p', [PState FOLLOWING, PEngine (ESpawn HFollowing)]) \<and>
           pm_Reporter p' = Some re' \<and> re_ready re' \<and> \<not> re_isLeader re' \<and>
           re_leader re' = pp_ServerID leader \<and> re_epoch re' = es_e (pm_currEpochStat p) \<and>
           re_curRound re' = INIT_ROUND \<and> re_jobRegistry re' = Some (pm_jobRegistry p) \<and>
           re_pacemakerGlobals re' = \<lparr>pg_n = es_n (pm_currEpochStat p), pg_f = es_f (pm_currEpochStat p)\<rparr>"
proof -
  obtain re1 where re1: "initReporter False (es_e (pm_currEpochStat p)) (pp_ServerID leader) (pm_server p)
        (globals_of p) (pm_signer p) re = Ok re1" "\<not> re_isLeader re1" "re_epoch re1 = es_e (pm_currEpochStat p)"
      "re_leader re1 = pp_ServerID leader" "re_pacemakerGlobals re1 = globals_of p" "re_curRound re1 = INIT_ROUND"
      "\<not> re_mu re1"
    using initReporter_Ok [OF assms(5)] by (metis (full_types))
  from assms re1 Start_follower [OF re1(2,7), of lib "sr_queue run" "pm_jobRegistry p"] show ?thesis
    by (simp add: Pacemaker_Start_def Let_def start_engine_def globals_of_def)
qed

lemma leader_events_Reporter:
  "leader_events run p = (r, p1, es) \<Longrightarrow> pm_Reporter p1 = pm_Reporter p"
  by (auto simp: leader_events_def launchJobListeners_def split: prod.splits res.splits option.splits bool.splits)

section \<open>Properties\<close>

text \<open>
  C20: NEWEPOCH messages are counted but never change the epoch. After any sequence of them the epoch
  and the reporting engine are as before, the counter has grown by the number of messages with a later
  epoch, and one NEWEPOCH goroutine was started for each of those beyond the first \<open>f\<close>. The branch
  that switches to the new epoch above \<open>2f\<close> is never taken, since the branch above \<open>f\<close> is tested first.
\<close>

theorem new_epoch_count:
  assumes "unat (es_f (pm_currEpochStat p)) < 2 ^ 63"
    and "unat (es_n_e0 (pm_currEpochStat p)) + length ms < 2 ^ 64"
  shows "case epoch_run P avl lib peers_at ms p of
           (p', es) \<Rightarrow>
             let st = pm_currEpochStat p; st' = pm_currEpochStat p';
                 n = unat (es_n_e0 st) + length (filter (\<lambda>m. es_e st < ne_EpochID m) ms)
             in es_e st' = es_e st \<and> pm_Reporter p' = pm_Reporter p \<and> unat (es_n_e0 st') = n \<and>
                es = replicate ((n - unat (es_f st)) - (unat (es_n_e0 st) - unat (es_f st))) PSpawnNewEpoch"
  using assms
proof (induction ms arbitrary: p)
  case (Cons m ms)
  obtain r p1 es1 where one: "processNewEpochMsg P avl lib peers_at m p = (r, p1, es1)" by (metis prod_cases3)
  obtain p2 es2 where rest: "epoch_run P avl lib peers_at ms p1 = (p2, es2)" by fastforce
  from Cons.prems(2) have "unat (es_n_e0 (pm_currEpochStat p)) + 1 < 2 ^ 64" by simp
  note step = processNewEpochMsg_step [OF Cons.prems(1) this one]
  with Cons.prems have "unat (es_f (pm_currEpochStat p1)) < 2 ^ 63"
      "unat (es_n_e0 (pm_currEpochStat p1)) + length ms < 2 ^ 64"
    by (auto simp: Let_def split: if_splits)
  from Cons.IH [OF this] rest step one show ?case
    by (auto simp: Let_def Suc_diff_le simp flip: replicate_Suc split: if_splits)
qed simp

text \<open>
  A NEWEPOCH announces the sender's current epoch, not the one it wants to move to: the bytes it
  broadcasts decode to a NEWEPOCH with the current epoch number, and every node whose own epoch is at
  least that ignores it. So nodes of one epoch cannot start an epoch change among themselves.
\<close>

theorem new_epoch_announces_current:
  assumes "pm_msgService p" and "si_Codec (pm_server p) = JSONCodec ff"
  shows "\<exists>b d. SendNewEpochMsg p = Ok [PBroadcast b] \<and>
           Decode (JSONCodec ff) TMessage b =
             Some (WMessage \<lparr>m_Headers = MessageNewEpoch, m_Topic = TopicPacemaker, m_Data = d\<rparr>) \<and>
           Decode (JSONCodec ff) TNewEpoch d =
             Some (WPayload (PNewEpoch \<lparr>ne_EpochID = es_e (pm_currEpochStat p)\<rparr>)) \<and>
           (\<forall>q. es_e (pm_currEpochStat p) \<le> es_e (pm_currEpochStat q) \<longrightarrow>
              processNewEpochMsg P avl lib peers_at \<lparr>ne_EpochID = es_e (pm_currEpochStat p)\<rparr> q = (Ok (), q, []))"
proof -
  let ?pl = "PNewEpoch \<lparr>ne_EpochID = es_e (pm_currEpochStat p)\<rparr>"
  obtain d where d: "Encode (JSONCodec ff) (WPayload ?pl) = Some d"
    using jc.encode_wf [of ff "WPayload ?pl"] by auto
  let ?m = "\<lparr>m_Headers = MessageNewEpoch, m_Topic = TopicPacemaker, m_Data = d\<rparr>"
  obtain b where b: "Encode (JSONCodec ff) (WMessage ?m) = Some b"
    using jc.encode_wf [of ff "WMessage ?m"] by auto
  have "newepoch_bytes (JSONCodec ff) (es_e (pm_currEpochStat p)) = Ok b"
    by (simp add: newepoch_bytes_def message_builder_defs payload_Bytes_def Message_Bytes_def d b)
  then have "SendNewEpochMsg p = Ok [PBroadcast b]"
    using assms by (simp add: SendNewEpochMsg_def msg_layer_def must_def)
  moreover have "Decode (JSONCodec ff) TMessage b = Some (WMessage ?m)"
    using jc.decode_encode [of ff "WMessage ?m" b] b by simp
  moreover have "Decode (JSONCodec ff) TNewEpoch d = Some (WPayload ?pl)"
    using jc.decode_encode [of ff "WPayload ?pl" d] d by simp
  ultimately show ?thesis by (auto simp: processNewEpochMsg_def Let_def)
qed

text \<open>
  C29: Waiting for events ends. When each sleep takes at least the polling interval, \<open>waitForEvents\<close>
  returns within twenty polls: true at the first poll before the deadline that sees an event,
  false when there was none.
\<close>

theorem wait_for_events:
  assumes "start \<le> now 0" and "\<And>i. now i + poll_interval \<le> now (Suc i)"
  shows "\<exists>b k. waitForEvents now len start event_timeout = Some (b, k) \<and> k \<le> 20 \<and>
           (\<forall>i < k. now i < start + event_timeout \<and> len i = 0) \<and>
           (b \<longleftrightarrow> now k < start + event_timeout \<and> 0 < len k) \<and>
           (\<not> b \<longrightarrow> start + event_timeout \<le> now k)"
proof -
  let ?stop = "\<lambda>i. start + event_timeout \<le> now i \<or> 0 < len i"
  have late: "start + int i * poll_interval \<le> now i" for i
  proof (induction i)
    case (Suc i)
    with assms(2) [of i] show ?case by (simp add: algebra_simps)
  qed (simp add: assms(1))
  then have "?stop 20" using late [of 20] by (simp add: poll_interval_def event_timeout_def)
  define k where "k = (LEAST i. ?stop i)"
  have k: "?stop k" "k \<le> 20" unfolding k_def
    using LeastI [of ?stop 20, OF \<open>?stop 20\<close>] Least_le [of ?stop 20, OF \<open>?stop 20\<close>] by auto
  have before: "now i < start + event_timeout \<and> len i = 0" if "i < k" for i
    using not_less_Least [of i ?stop] that unfolding k_def by auto
  have "waitForEvents now len start event_timeout = Some (now k < start + event_timeout, k)"
    unfolding waitForEvents_def by (rule wait_loop_first) (use before k(1) in auto)
  then show ?thesis using k before by (intro exI [of _ "now k < start + event_timeout"] exI [of _ k]) auto
qed

text \<open>
  Starting a follower always succeeds. When the elected leader is another node and the engine's
  mutex is free, \<open>Start\<close> tells the OCR object that the node is following and starts an engine that is
  ready, in its first round, with the pacemaker's epoch, the leader's identity and the pacemaker's \<open>n\<close>
  and \<open>f\<close>.
\<close>

theorem start_follower:
  assumes "pm_ocrCtx p = Some ctx"
    and "exponentialBackoff P avl initTickerTime max_Backoff (es_e (pm_currEpochStat p)) secretKey
           (sr_peers_at run) (oc_ID ctx) = Some (leader, slept)"
    and "pp_ServerID leader \<noteq> oc_ID ctx" and "pm_Reporter p = Some re" and "\<not> re_mu re"
  shows "\<exists>p' re'. Pacemaker_Start P avl lib run p = (Ok (), p', [PState FOLLOWING, PEngine (ESpawn HFollowing)]) \<and>
           pm_Reporter p' = Some re' \<and> re_ready re' \<and> \<not> re_isLeader re' \<and>
           re_leader re' = pp_ServerID leader \<and> re_epoch re' = es_e (pm_currEpochStat p) \<and>
           re_curRound re' = INIT_ROUND \<and> re_jobRegistry re' = Some (pm_jobRegistry p) \<and>
           re_pacemakerGlobals re' = \<lparr>pg_n = es_n (pm_currEpochStat p), pg_f = es_f (pm_currEpochStat p)\<rparr>"
  using assms by (rule Pacemaker_Start_follower)

text \<open>
  C35: An elected leader never has a job. The queue only ever holds the events of the job listeners:
  with fewer than twenty of them the engine starts with an empty schedule, so its first OBSERVE-REQ
  names no job; with twenty or more the start panics, since an event is not a job.
\<close>

theorem leader_without_jobs:
  assumes "fifo_queue lib contents" and "sr_queue run = fold (\<lambda>e. fifo_Add lib (QEvent e)) evs (fifo_New lib)"
    and "pm_ocrCtx p = Some ctx"
    and "exponentialBackoff P avl initTickerTime max_Backoff (es_e (pm_currEpochStat p)) secretKey
           (sr_peers_at run) (oc_ID ctx) = Some (leader, slept)"
    and "pp_ServerID leader = oc_ID ctx" and "pm_Reporter p = Some re" and "\<not> re_mu re"
    and "leader_events run p = (Ok (), p1, es1)"
  shows "case Pacemaker_Start P avl lib run p of
           (r, p', es) \<Rightarrow>
             if length evs < 20
             then r = Ok () \<and> es = PState LEADING # es1 @ [PEngine (ESpawn HObserve)] \<and>
                  (\<exists>re'. pm_Reporter p' = Some re' \<and> re_ready re' \<and> re_isLeader re' \<and>
                     re_jobSchedule re' = Some [] \<and> GetJobInfosForCurrRound re' = [])
             else r = Panicked TypeAssertion"
proof -
  have queue: "contents (sr_queue run) = map QEvent evs"
    unfolding assms(2)
    by (induction evs rule: rev_induct)
      (simp_all add: fifo_queue.contents_New [OF assms(1)] fifo_queue.contents_Add [OF assms(1)])
  have p1: "pm_Reporter p1 = Some re"
    using assms(6,8) leader_events_Reporter by metis
  obtain re1 where re1: "initReporter True (es_e (pm_currEpochStat p1)) (pp_ServerID leader) (pm_server p1)
        (globals_of p1) (pm_signer p1) re = Ok re1" "re_isLeader re1" "re_jobSchedule re1 = Some []"
      "\<not> re_mu re1" "snd (ls_phaseCh (re_LeaderState re1)) = OpenChan"
    using initReporter_Ok [OF assms(7)] by metis
  show ?thesis
  proof (cases "length evs < 20")
    case True
    then have "schedule_jobs lib (sr_queue run) [] = Ok (sr_queue run, [])"
      by (intro fifo_queue.schedule_jobs_few [OF assms(1)]) (simp add: queue MAX_ROUNDS_def)
    from Start_leader [OF re1(2,4,3,5) this] True assms(3,4,5,8) p1 re1 show ?thesis
      by (simp add: Pacemaker_Start_def Let_def start_engine_def GetJobInfosForCurrRound_def)
  next
    case False
    then obtain e es where "evs = e # es" by (cases evs) auto
    with queue False have "schedule_jobs lib (sr_queue run) [] = Panicked TypeAssertion"
      by (intro fifo_queue.schedule_jobs_events [OF assms(1)]) (simp_all add: MAX_ROUNDS_def)
    from Start_leader_panics [OF re1(2,3) this, of "pm_jobRegistry p1"] False assms(3,4,5,8) p1 re1 show ?thesis
      by (auto simp: Pacemaker_Start_def Let_def start_engine_def split: prod.splits)
  qed
qed

section \<open>Witnesses\<close>

definition demo_pacemaker :: "string \<Rightarrow> (queue_item list \<times> queue_item list) Pacemaker" where
  "demo_pacemaker i =
     pm_AttachMsgLayer
       (SetOCRContext \<lparr>oc_PeerCount = 4, oc_FaultyCount = 1, oc_ID = i\<rparr>
          (NewPaceMaker two_list_lib \<lparr>si_Addr = [], si_Codec = JSONCodec (\<lambda>_. ''0''), si_ID = i\<rparr>
             \<lparr>priv_D = 5, priv_pub = witness_key\<rparr>))"

definition demo_run :: "nat \<Rightarrow> string \<Rightarrow> ((string, ProtcolPeer) rbt, queue_item list \<times> queue_item list) start_run" where
  "demo_run n i =
     \<lparr>sr_peers_at = (\<lambda>_. peer_tree [i]),
      sr_toml = \<lparr>toml_type = (\<lambda>_. None), toml_params = (\<lambda>_. None)\<rparr>, sr_dir = Some [],
      sr_begin = 0, sr_now = (\<lambda>k. int k * poll_interval), sr_len = (\<lambda>k. n),
      sr_queue = fold (\<lambda>e. fifo_Add two_list_lib (QEvent e))
        (replicate n \<lparr>ev_id = ''j'', ev_event = ''dummy_event'', ev_result = []\<rparr>) (fifo_New two_list_lib)\<rparr>"

theorem new_epoch_count_witness:
  "snd (epoch_run witness_prims rbt_lib two_list_lib (\<lambda>_. peer_tree [''a''])
     [\<lparr>ne_EpochID = 1\<rparr>, \<lparr>ne_EpochID = 0\<rparr>, \<lparr>ne_EpochID = 7\<rparr>, \<lparr>ne_EpochID = 2\<rparr>] (demo_pacemaker ''b'')) =
   replicate 2 PSpawnNewEpoch"
proof -
  let ?ms = "[\<lparr>ne_EpochID = 1\<rparr>, \<lparr>ne_EpochID = 0\<rparr>, \<lparr>ne_EpochID = 7\<rparr>, \<lparr>ne_EpochID = 2\<rparr>] :: NewEpochMesage list"
  have st: "pm_currEpochStat (demo_pacemaker ''b'') = zero_EpochStats\<lparr>es_f := 1, es_n := 4\<rparr>"
    by (simp add: demo_pacemaker_def NewPaceMaker_def SetOCRContext_def pm_AttachMsgLayer_def)
  obtain p' es where run: "epoch_run witness_prims rbt_lib two_list_lib (\<lambda>_. peer_tree [''a'']) ?ms
      (demo_pacemaker ''b'') = (p', es)" by fastforce
  show ?thesis
    using new_epoch_count [of "demo_pacemaker ''b''" ?ms witness_prims rbt_lib two_list_lib "\<lambda>_. peer_tree [''a'']"]
    unfolding run by (simp add: st zero_EpochStats_def Let_def) (simp add: numeral_2_eq_2)
qed

theorem new_epoch_announces_current_witness:
  "\<exists>b. SendNewEpochMsg (demo_pacemaker ''a'') = Ok [PBroadcast b] \<and>
     processNewEpochMsg witness_prims rbt_lib two_list_lib (\<lambda>_. peer_tree [''a''])
       \<lparr>ne_EpochID = 0\<rparr> (demo_pacemaker ''b'') = (Ok (), demo_pacemaker ''b'', [])"
  using new_epoch_announces_current [of "demo_pacemaker ''a''" "\<lambda>_. ''0''" witness_prims rbt_lib two_list_lib
      "\<lambda>_. peer_tree [''a'']"]
  by (auto simp: demo_pacemaker_def NewPaceMaker_def SetOCRContext_def pm_AttachMsgLayer_def zero_EpochStats_def)

theorem wait_for_events_witness:
  "\<exists>b k. waitForEvents (\<lambda>i. int i * poll_interval) (\<lambda>i. if i < 4 then 0 else 1) 0 event_timeout = Some (b, k) \<and>
     k \<le> 20"
  using wait_for_events [of 0 "\<lambda>i. int i * poll_interval" "\<lambda>i. if i < 4 then 0 else 1"]
  by (auto simp: algebra_simps)

lemma demo_leader:
  "\<exists>l slept. exponentialBackoff witness_prims rbt_lib initTickerTime max_Backoff 0 secretKey
       (\<lambda>_. peer_tree [''b'']) ''a'' = Some (l, slept) \<and> pp_ServerID l = ''a''"
  "\<exists>l slept. exponentialBackoff witness_prims rbt_lib initTickerTime max_Backoff 0 secretKey
       (\<lambda>_. peer_tree [''a'']) ''b'' = Some (l, slept) \<and> pp_ServerID l = ''a''"
proof -
  have ab: "hashPeer witness_prims 0 key ''a'' < hashPeer witness_prims 0 key ''b''" for key
    unfolding witness_hash by code_simp
  have leader: "\<exists>l slept. exponentialBackoff witness_prims rbt_lib initTickerTime max_Backoff 0 secretKey
       (\<lambda>_. peer_tree [j]) i = Some (l, slept) \<and> pp_ServerID l = ''a''"
    if "{i, j} = {''a'', ''b''}" for i j
  proof -
    obtain l where l: "findLeader witness_prims rbt_lib i 0 secretKey (peer_tree [j]) = Some l"
      using rbt.findLeader_None [of witness_prims i 0 secretKey "peer_tree [j]"] by (fastforce simp: Each_peer_tree)
    from rbt.findLeader_minimum [OF TrueI l] that ab [of secretKey] have "pp_ServerID l = ''a''"
      by (auto simp: server_ids_peer_tree doubleton_eq_iff)
    moreover have "initTickerTime = backoff_at 0" by (simp add: initTickerTime_def backoff_at_def)
    ultimately show ?thesis
      using backoff_loop_first [of "\<lambda>_. findLeader witness_prims rbt_lib i 0 secretKey (peer_tree [j])" 0 l 0 "[]"] l
      by (simp add: exponentialBackoff_def)
  qed
  show "\<exists>l slept. exponentialBackoff witness_prims rbt_lib initTickerTime max_Backoff 0 secretKey
       (\<lambda>_. peer_tree [''b'']) ''a'' = Some (l, slept) \<and> pp_ServerID l = ''a''"
    by (rule leader) simp
  show "\<exists>l slept. exponentialBackoff witness_prims rbt_lib initTickerTime max_Backoff 0 secretKey
       (\<lambda>_. peer_tree [''a'']) ''b'' = Some (l, slept) \<and> pp_ServerID l = ''a''"
    by (rule leader) blast
qed

lemma demo_pacemaker_simps:
  "pm_ocrCtx (demo_pacemaker i) = Some \<lparr>oc_PeerCount = 4, oc_FaultyCount = 1, oc_ID = i\<rparr>"
  "es_e (pm_currEpochStat (demo_pacemaker i)) = 0" "pm_Reporter (demo_pacemaker i) = Some zero_engine"
  "\<not> re_mu zero_engine" "sr_peers_at (demo_run n j) = (\<lambda>_. peer_tree [j])"
  by (simp_all add: demo_pacemaker_def NewPaceMaker_def SetOCRContext_def pm_AttachMsgLayer_def
      zero_EpochStats_def zero_engine_def demo_run_def)

lemma demo_follower_start:
  "\<exists>p' es. Pacemaker_Start witness_prims rbt_lib two_list_lib (demo_run 0 ''a'') (demo_pacemaker ''b'') = (Ok (), p', es)"
proof -
  obtain l slept where "exponentialBackoff witness_prims rbt_lib initTickerTime max_Backoff 0 secretKey
       (\<lambda>_. peer_tree [''a'']) ''b'' = Some (l, slept)" "pp_ServerID l = ''a''" using demo_leader(2) by blast
  then show ?thesis
    using Pacemaker_Start_follower [of "demo_pacemaker ''b''" _ witness_prims rbt_lib "demo_run 0 ''a''" l slept
        zero_engine two_list_lib]
    by (auto simp: demo_pacemaker_simps)
qed

theorem start_follower_witness:
  "\<exists>p' re'. Pacemaker_Start witness_prims rbt_lib two_list_lib (demo_run 0 ''a'') (demo_pacemaker ''b'') =
     (Ok (), p', [PState FOLLOWING, PEngine (ESpawn HFollowing)]) \<and> pm_Reporter p' = Some re' \<and>
     re_leader re' = ''a'' \<and> re_ready re'"
proof -
  obtain l slept where l: "exponentialBackoff witness_prims rbt_lib initTickerTime max_Backoff 0 secretKey
       (\<lambda>_. peer_tree [''a'']) ''b'' = Some (l, slept)" "pp_ServerID l = ''a''" using demo_leader(2) by blast
  then show ?thesis
    using start_follower [of "demo_pacemaker ''b''" _ witness_prims rbt_lib "demo_run 0 ''a''" l slept zero_engine two_list_lib]
    by (auto simp: demo_pacemaker_simps)
qed

theorem leader_without_jobs_witness:
  "fst (Pacemaker_Start witness_prims rbt_lib two_list_lib (demo_run 1 ''b'') (demo_pacemaker ''a'')) = Ok () \<and>
   fst (Pacemaker_Start witness_prims rbt_lib two_list_lib (demo_run 25 ''b'') (demo_pacemaker ''a'')) =
     Panicked TypeAssertion"
proof -
  obtain l slept where l: "exponentialBackoff witness_prims rbt_lib initTickerTime max_Backoff 0 secretKey
       (\<lambda>_. peer_tree [''b'']) ''a'' = Some (l, slept)" "pp_ServerID l = ''a''" using demo_leader(1) by blast
  have run: "sr_queue (demo_run n ''b'') = fold (\<lambda>e. fifo_Add two_list_lib (QEvent e))
      (replicate n \<lparr>ev_id = ''j'', ev_event = ''dummy_event'', ev_result = []\<rparr>) (fifo_New two_list_lib)" for n
    by (simp add: demo_run_def)
  have events: "leader_events (demo_run n ''b'') (demo_pacemaker ''a'') = (Ok (), demo_pacemaker ''a'', [])"
    if "0 < n" for n
  proof -
    have "waitForEvents (\<lambda>k. int k * poll_interval) (\<lambda>k. n) 0 event_timeout = Some (True, 0)"
      using that wait_loop_first [of 0 0 "\<lambda>k. int k * poll_interval" event_timeout "\<lambda>k. n"]
      by (simp add: waitForEvents_def event_timeout_def)
    then show ?thesis
      by (simp add: leader_events_def launchJobListeners_def demo_run_def ReadJobsFromDir_def)
  qed
  have start: "fst (Pacemaker_Start witness_prims rbt_lib two_list_lib (demo_run n ''b'') (demo_pacemaker ''a'')) =
      (if n < 20 then Ok () else Panicked TypeAssertion)" if "0 < n" for n
    using leader_without_jobs [OF tlq.fifo_queue_axioms run demo_pacemaker_simps(1), where P = witness_prims
        and avl = rbt_lib and leader = l and slept = slept, OF _ _ demo_pacemaker_simps(3,4) events [OF that]] l
    by (auto simp: demo_pacemaker_simps split: prod.splits if_splits)
  from start [of 1] start [of 25] show ?thesis by simp
qed

end
