(* ===== verification/Ocr.thy ===== *)
theory Ocr
  imports Pacemaker
begin

text \<open>
  \<open>ocr/ocr.go\<close>: the OCR object that owns the server and the pacemaker, with \<open>ocr/ocr_builder.go\<close>.

  \<open>Start\<close> registers the handlers, then waits for the first number in the server's counter channel. What
  the server does in between is an argument, a function on its state; the properties let it be any
  sequence of steps of the server.
\<close>

section \<open>Definitions\<close>

subsection \<open>State\<close>

record ('t, 'q) OCR =
  o_ctx :: "OCRCtx option"
  o_Codec :: "codec option"
  o_Pacemaker :: "'q Pacemaker option"
  o_Server :: "'t Server option"
  o_peerCountInit :: chan
  o_quitCh :: chan
  o_state :: OCRState

datatype ocr_error = MissingComponents | ServerError server_error

text \<open>
  What the pacemaker reads of its server. The hash has 32 bytes, so the address always exists.
\<close>

definition server_view :: "cprims \<Rightarrow> 't Server \<Rightarrow> ServerInfo" where
  "server_view P s =
     \<lparr>si_Addr = (case PublicKey_Address P (Server_ID s) :: (unit, Address) res of Ok a \<Rightarrow> Address_String a | _ \<Rightarrow> []),
      si_Codec = sv_Codec s, si_ID = PublicKey_String (Server_ID s)\<rparr>"

definition NewOCR :: "cprims \<Rightarrow> 'q fifo_lib \<Rightarrow> 't Server \<Rightarrow> ('t, 'q) OCR" where
  "NewOCR P lib s =
     \<lparr>o_ctx = Some \<lparr>oc_PeerCount = 0, oc_FaultyCount = 0, oc_ID = []\<rparr>, o_Codec = None,
      o_Pacemaker = Some (NewPaceMaker lib (server_view P s) (so_PrivateKey (sv_opts s))),
      o_Server = Some s, o_peerCountInit = OpenChan, o_quitCh = OpenChan, o_state = PREPARE\<rparr>"

text \<open>The builder makes an object with a codec and nothing else.\<close>

record OCRBuilder =
  ob_codec :: "codec option"

definition WithCodec :: "codec \<Rightarrow> OCRBuilder \<Rightarrow> OCRBuilder" where
  "WithCodec c b = b\<lparr>ob_codec := Some c\<rparr>"

definition OCRBuilder_Build :: "OCRBuilder \<Rightarrow> (ocr_error, ('t, 'q) OCR) res" where
  "OCRBuilder_Build b =
     (case ob_codec b of
        None \<Rightarrow> Err MissingComponents
      | Some c \<Rightarrow> Ok \<lparr>o_ctx = None, o_Codec = Some c, o_Pacemaker = None, o_Server = None,
                     o_peerCountInit = NilChan, o_quitCh = NilChan, o_state = PREPARE\<rparr>)"

subsection \<open>The number of faulty nodes\<close>

text \<open>
  \<open>float32(x)\<close> of a natural number, as a natural number: exact up to 24 bits, rounded to the nearest
  number with 24 significant bits above, ties to even. \<open>math.Ceil\<close> leaves it as it is.
\<close>

definition float32_nat :: "nat \<Rightarrow> nat" where
  "float32_nat n =
     (if n < 2 ^ 24 then n
      else let s = ilog2 n - 23; q = n div 2 ^ s; r = n mod 2 ^ s in
        (if 2 ^ s < 2 * r \<or> (2 * r = 2 ^ s \<and> odd q) then q + 1 else q) * 2 ^ s)"

definition faulty_count :: "nat \<Rightarrow> nat" where
  "faulty_count peerCount = float32_nat ((peerCount - 1) div 3)"

subsection \<open>Start\<close>

definition register_handlers :: "'t Server \<Rightarrow> 't Server" where
  "register_handlers s =
     s\<lparr>sv_RPCProcessor :=
         RegisterHandler TopicReporter HReporter (RegisterHandler TopicPacemaker HPacemaker (sv_RPCProcessor s))\<rparr>"

text \<open>The goroutine that takes the first number from the counter channel.\<close>

definition read_peer_count :: "('t, 'q) OCR \<Rightarrow> (ocr_error, ('t, 'q) OCR) res" where
  "read_peer_count o1 =
     (case (o_Server o1, o_ctx o1) of
        (Some s, Some ctx) \<Rightarrow>
          (case sv_peerCountChan s of
             [] \<Rightarrow> Blocked
           | peerCount # rest \<Rightarrow>
               res_bind (close_chan (o_peerCountInit o1)) (\<lambda>c.
                 Ok (o1\<lparr>o_ctx := Some (ctx\<lparr>oc_PeerCount := of_nat peerCount,
                                            oc_FaultyCount := of_nat (faulty_count peerCount)\<rparr>),
                       o_Server := Some (s\<lparr>sv_peerCountChan := rest\<rparr>),
                       o_peerCountInit := c\<rparr>)))
      | _ \<Rightarrow> Panicked NilDeref)"

text \<open>\<open>OCR.Start\<close> up to the start of the pacemaker and of the read loop.\<close>

definition OCR_Start :: "('t Server \<Rightarrow> 't Server) \<Rightarrow> ('t, 'q) OCR \<Rightarrow> (ocr_error, ('t, 'q) OCR) res" where
  "OCR_Start running o1 =
     (case o_Server o1 of
        None \<Rightarrow> Err MissingComponents
      | Some s \<Rightarrow>
          (case (o_ctx o1, o_Pacemaker o1) of
             (Some ctx, Some p) \<Rightarrow>
               res_bind (read_peer_count
                   (o1\<lparr>o_ctx := Some (ctx\<lparr>oc_ID := PublicKey_String (Server_ID s)\<rparr>),
                      o_Pacemaker := Some (pm_AttachMsgLayer p),
                      o_Server := Some (running (register_handlers s))\<rparr>)) (\<lambda>o2.
                 case (o_ctx o2, o_Pacemaker o2) of
                   (Some ctx2, Some p2) \<Rightarrow> Ok (o2\<lparr>o_Pacemaker := Some (SetOCRContext ctx2 p2)\<rparr>)
                 | _ \<Rightarrow> Panicked NilDeref)
           | _ \<Rightarrow> Panicked NilDeref))"

subsection \<open>The read loop\<close>

text \<open>The messages of the pacemaker, in order; the loop also ends when the quit channel is closed.\<close>

datatype pacemaker_data = StateData OCRState | OtherData

fun OCR_readLoop :: "pacemaker_data list \<Rightarrow> ('t, 'q) OCR \<Rightarrow> ('t, 'q) OCR" where
  "OCR_readLoop [] o1 = o1"
| "OCR_readLoop (StateData s # ms) o1 = OCR_readLoop ms (o1\<lparr>o_state := s\<rparr>)"
| "OCR_readLoop (OtherData # ms) o1 = OCR_readLoop ms o1"

definition state_messages :: "pm_effect list \<Rightarrow> pacemaker_data list" where
  "state_messages es = List.map_filter (\<lambda>e. case e of PState s \<Rightarrow> Some (StateData s) | _ \<Rightarrow> None) es"

definition OCR_Stop :: "('t, 'q) OCR \<Rightarrow> (ocr_error, ('t, 'q) OCR) res" where
  "OCR_Stop o1 =
     (case o_Server o1 of
        None \<Rightarrow> Panicked NilDeref
      | Some s \<Rightarrow> res_bind (map_err ServerError (Server_Stop s)) (\<lambda>s'. Ok (o1\<lparr>o_Server := Some s'\<rparr>)))"

section \<open>Lemmas\<close>

lemma float32_nat_small: "n < 2 ^ 24 \<Longrightarrow> float32_nat n = n"
  by (simp add: float32_nat_def)

lemma register_handlers_step: "(server_step P avl lib)\<^sup>*\<^sup>* s (register_handlers s)"
proof -
  let ?s = "s\<lparr>sv_RPCProcessor := RegisterHandler TopicPacemaker HPacemaker (sv_RPCProcessor s)\<rparr>"
  have "server_step P avl lib s ?s" by (rule server_step.register)
  moreover have "server_step P avl lib ?s (register_handlers s)"
    using server_step.register [of P avl lib ?s TopicReporter HReporter] by (simp add: register_handlers_def)
  ultimately show ?thesis by simp
qed

lemma leader_events_keeps:
  "leader_events run p = (r, p1, es) \<Longrightarrow>
     pm_currEpochStat p1 = pm_currEpochStat p \<and> pm_server p1 = pm_server p \<and> state_messages es = []"
  by (auto simp: leader_events_def launchJobListeners_def SendNewEpochMsg_def msg_layer_def state_messages_def
      map_filter_def go_simps split: prod.splits res.splits option.splits bool.splits if_splits)

lemma engine_Start_keeps:
  "ReportingEngine_Start lib q reg re = ((r, re', es), q') \<Longrightarrow>
     re_pacemakerGlobals re' = re_pacemakerGlobals re \<and> re_isLeader re' = re_isLeader re"
  by (auto simp: ReportingEngine_Start_def Let_def thenA_def seqA_def upd_def emit_def send_phase_def
      split: if_splits res.splits prod.splits option.splits chan.splits list.splits)

lemma state_messages_engine: "state_messages (map PEngine es) = []"
  by (induction es) (simp_all add: state_messages_def map_filter_def)

lemma state_messages_append: "state_messages (xs @ ys) = state_messages xs @ state_messages ys"
  by (simp add: state_messages_def map_filter_def)

lemma initReporter_keeps:
  "initReporter l e i s g k re = Ok re' \<Longrightarrow> re_pacemakerGlobals re' = g \<and> re_isLeader re' = l"
  by (auto simp: initReporter_def split: if_splits)

lemma start_engine_keeps:
  assumes "start_engine lib q p re = (r, p', es)"
  shows "\<exists>re'. pm_Reporter p' = Some re' \<and> re_pacemakerGlobals re' = re_pacemakerGlobals re \<and>
           re_isLeader re' = re_isLeader re \<and> state_messages es = []"
proof -
  obtain r' re' es' q' where st: "ReportingEngine_Start lib q (pm_jobRegistry p) re = ((r', re', es'), q')"
    by (metis prod_cases4 prod.collapse)
  with assms engine_Start_keeps [OF st] show ?thesis
    by (auto simp: start_engine_def state_messages_engine)
qed

lemma Pacemaker_Start_engine:
  assumes "Pacemaker_Start P avl lib run p = (Ok (), p', es)"
  shows "\<exists>re'. pm_Reporter p' = Some re' \<and> re_pacemakerGlobals re' = globals_of p \<and>
           state_messages es = [StateData (if re_isLeader re' then LEADING else FOLLOWING)]"
proof -
  obtain ctx leader slept where ctx: "pm_ocrCtx p = Some ctx"
    and l: "exponentialBackoff P avl initTickerTime max_Backoff (es_e (pm_currEpochStat p)) secretKey
              (sr_peers_at run) (oc_ID ctx) = Some (leader, slept)"
    using assms by (auto simp: Pacemaker_Start_def split: option.splits)
  let ?l = "pp_ServerID leader = oc_ID ctx"
  obtain r p1 es1 where ev: "(if ?l then leader_events run p else (Ok (), p, [])) = (r, p1, es1)"
    by (metis prod_cases3)
  then have p1: "pm_currEpochStat p1 = pm_currEpochStat p" "state_messages es1 = []"
    using leader_events_keeps [of run p r p1 es1] by (auto simp: state_messages_def map_filter_def split: if_splits)
  obtain re re1 where re: "pm_Reporter p1 = Some re"
    "initReporter ?l (es_e (pm_currEpochStat p1)) (pp_ServerID leader) (pm_server p1) (globals_of p1)
       (pm_signer p1) re = Ok re1"
    using assms by (auto simp: Pacemaker_Start_def ctx l ev Let_def split: option.splits res.splits)
  obtain r2 p2 es2 where st: "start_engine lib (sr_queue run) (p1\<lparr>pm_recEvents := sr_queue run\<rparr>) re1 = (r2, p2, es2)"
    by (metis prod_cases3)
  have res: "p' = p2" "es = PState (if ?l then LEADING else FOLLOWING) # es1 @ es2"
    using assms by (auto simp: Pacemaker_Start_def ctx l ev Let_def re st split: res.splits)
  have "state_messages (PState s # xs) = StateData s # state_messages xs" for s xs
    by (simp add: state_messages_def map_filter_def)
  then show ?thesis
    using start_engine_keeps [OF st] initReporter_keeps [OF re(2)] p1
    by (auto simp: res globals_of_def state_messages_append)
qed

section \<open>Properties\<close>

text \<open>
  C30: For every realistic number of peers \<open>n > 0\<close> (up to \<open>3 * 2^24\<close>, where the conversion to a 32-bit
  float is exact) the number of faulty nodes the node computes is the largest \<open>f\<close> with \<open>n \<ge> 3f + 1\<close>.
\<close>

theorem faulty_count_bound:
  assumes "0 < n" and "n \<le> 3 * 2 ^ 24"
  shows "3 * faulty_count n + 1 \<le> n \<and> (\<forall>f. 3 * f + 1 \<le> n \<longrightarrow> f \<le> faulty_count n)"
proof -
  have "(n - 1) div 3 < 2 ^ 24" using assms by simp
  then have "faulty_count n = (n - 1) div 3" by (simp add: faulty_count_def float32_nat_small)
  with assms(1) show ?thesis by auto
qed

text \<open>
  C12: The running node tolerates no fault. Whatever the server does between its creation and the
  moment \<open>OCR.Start\<close> reads the peer count, the count it reads is 1, the number of the first discovered
  peer: the node continues with \<open>n = 1\<close> and \<open>f = 0\<close>, and so does every engine its pacemaker starts.
\<close>

theorem no_fault_tolerance:
  assumes "avl_tree avl tinv" and "NewServer ff avl opts = Ok s0"
    and "(server_step P avl lib)\<^sup>*\<^sup>* (register_handlers s0) (running (register_handlers s0))"
    and "OCR_Start running (NewOCR P fifo s0) = Ok o1"
  shows "\<exists>ctx p. o_ctx o1 = Some ctx \<and> oc_PeerCount ctx = 1 \<and> oc_FaultyCount ctx = 0 \<and>
           o_Pacemaker o1 = Some p \<and> es_n (pm_currEpochStat p) = 1 \<and> es_f (pm_currEpochStat p) = 0 \<and>
           (\<forall>run p' es. Pacemaker_Start P avl fifo run p = (Ok (), p', es) \<longrightarrow>
              (\<exists>re. pm_Reporter p' = Some re \<and> re_pacemakerGlobals re = \<lparr>pg_n = 1, pg_f = 0\<rparr>))"
proof -
  let ?s = "running (register_handlers s0)"
  have "(server_step P avl lib)\<^sup>*\<^sup>* s0 ?s"
    using register_handlers_step assms(3) by (rule rtranclp_trans)
  then have "server_inv avl tinv None ?s" by (intro avl_tree.node_reach_inv [OF assms(1,2)] own_steps)
  then have hd: "n = 1" if "sv_peerCountChan ?s = n # ns" for n ns
    using that by (simp add: server_inv_def counts_ok_def)
  have f: "faulty_count (Suc 0) = 0" by (simp add: faulty_count_def float32_nat_def)
  obtain n ns where n: "sv_peerCountChan ?s = n # ns"
    using assms(4) by (auto simp: OCR_Start_def NewOCR_def read_peer_count_def split: list.splits)
  with hd have n1: "sv_peerCountChan ?s = 1 # ns" by blast
  from assms(4) have "o_ctx o1 = Some \<lparr>oc_PeerCount = 1, oc_FaultyCount = 0, oc_ID = PublicKey_String (Server_ID s0)\<rparr>"
      "\<exists>p. o_Pacemaker o1 = Some p \<and> es_n (pm_currEpochStat p) = 1 \<and> es_f (pm_currEpochStat p) = 0"
    by (auto simp: OCR_Start_def NewOCR_def read_peer_count_def n1 f SetOCRContext_def)
  moreover have "\<exists>re. pm_Reporter p' = Some re \<and> re_pacemakerGlobals re = \<lparr>pg_n = 1, pg_f = 0\<rparr>"
    if "es_n (pm_currEpochStat p) = 1" "es_f (pm_currEpochStat p) = 0"
      "Pacemaker_Start P avl fifo run p = (Ok (), p', es)" for p run p' es
    using Pacemaker_Start_engine [OF that(3)] that(1,2) by (auto simp: globals_of_def)
  ultimately show ?thesis by auto
qed

text \<open>
  The state the OCR object shows agrees with the engine: after a successful start of the
  pacemaker and the messages it sent, the object's state is LEADING when the engine is the leader's
  and FOLLOWING when it is a follower's.
\<close>

theorem ocr_role:
  assumes "Pacemaker_Start P avl lib run p = (Ok (), p', es)"
  shows "\<exists>re. pm_Reporter p' = Some re \<and>
           o_state (OCR_readLoop (state_messages es) o1) = (if re_isLeader re then LEADING else FOLLOWING)"
  using Pacemaker_Start_engine [OF assms] by auto

section \<open>Witnesses\<close>

theorem faulty_count_bound_witness:
  "3 * faulty_count 10 + 1 \<le> 10 \<and> 3 \<le> faulty_count 10"
  using faulty_count_bound [of 10] by simp

definition demo_running :: "(string, ProtcolPeer) rbt Server \<Rightarrow> (string, ProtcolPeer) rbt Server" where
  "demo_running s =
     fst (snd (handleNewPeer witness_prims rbt_lib plain_lib (demo_net True) (NewPeer ''p'' ''a'') s))"

theorem no_fault_tolerance_witness:
  "\<exists>s0 o1 ctx. NewServer (\<lambda>_. ''0'') rbt_lib demo_opts = Ok s0 \<and>
     OCR_Start demo_running (NewOCR witness_prims two_list_lib s0) = Ok o1 \<and>
     o_ctx o1 = Some ctx \<and> oc_PeerCount ctx = 1 \<and> oc_FaultyCount ctx = 0"
proof -
  obtain s0 where s0: "NewServer (\<lambda>_. ''0'') rbt_lib demo_opts = Ok s0"
    by (simp add: NewServer_def demo_opts_def)
  let ?s = "register_handlers s0"
  let ?r = "handleNewPeer witness_prims rbt_lib plain_lib (demo_net True) (NewPeer ''p'' ''a'') ?s"
  have step: "server_step witness_prims rbt_lib plain_lib ?s (demo_running ?s)"
    unfolding demo_running_def
    by (rule server_step.peer [where r = "fst ?r" and out = "snd (snd ?r)"]) simp
  from s0 have "\<not> sv_peerLock ?s" "sv_peerCountChan ?s = []"
    by (auto simp: NewServer_def register_handlers_def split: if_splits)
  then have "sv_peerCountChan (demo_running ?s) \<noteq> []"
    unfolding demo_running_def
    using handleNewPeer_count [of witness_prims rbt_lib plain_lib "demo_net True" "NewPeer ''p'' ''a''" ?s
        "fst ?r" "fst (snd ?r)" "snd (snd ?r)"] by (auto simp: peerCountChan_cap_def)
  then obtain o1 where "OCR_Start demo_running (NewOCR witness_prims two_list_lib s0) = Ok o1"
    by (auto simp: OCR_Start_def NewOCR_def read_peer_count_def neq_Nil_conv)
  with no_fault_tolerance [where running = demo_running, OF rbt.avl_tree_axioms s0 r_into_rtranclp
      [of "server_step witness_prims rbt_lib plain_lib", OF step]] s0 show ?thesis
    by blast
qed

theorem ocr_role_witness:
  "\<exists>p' es re. Pacemaker_Start witness_prims rbt_lib two_list_lib (demo_run 0 ''a'') (demo_pacemaker ''b'') = (Ok (), p', es) \<and>
     pm_Reporter p' = Some re \<and>
     o_state (OCR_readLoop (state_messages es) (NewOCR witness_prims two_list_lib demo_server)) =
       (if re_isLeader re then LEADING else FOLLOWING)"
proof -
  obtain p' es where "Pacemaker_Start witness_prims rbt_lib two_list_lib (demo_run 0 ''a'') (demo_pacemaker ''b'') =
      (Ok (), p', es)" using demo_follower_start by blast
  with ocr_role [OF this] show ?thesis by blast
qed

end
