(* ===== verification/Rounds.thy ===== *)
theory Rounds
  imports Signatures Ocr
begin

text \<open>
  One message exchange between two nodes, from the sender's engine through encoding, transport, decoder
  and router to the receiver's engine: first for any message of the reporter topic, then for the signed
  responses, and the observation phase put together from both.
\<close>

section \<open>Messages between two nodes\<close>

text \<open>A built message passes the transport's read loop and the server's decoder and router.\<close>

lemma message_arrives:
  assumes "payload_wf ff p" and "known_payload p" and "ascii i"
    and "sv_Codec srv = JSONCodec ff" and "map_of (handlers (sv_RPCProcessor srv)) TopicReporter = Some h"
  shows "\<exists>b rm. rpc_bytes a (JSONCodec ff) i (header_of p) TopicReporter p s = Ok b \<and>
           decode_chunk (JSONCodec ff) b = [rm] \<and>
           server_receive rm srv =
             (srv, Some (\<lparr>dm_FromId = i, dm_Topic = TopicReporter, dm_Data = Ptr (rcv_payload p),
                dm_Signature = (if keeps_signature p then s else zero_Signature)\<rparr>, h))"
proof -
  let ?msg = "\<lparr>dm_FromId = i, dm_Topic = TopicReporter, dm_Data = Ptr (rcv_payload p),
    dm_Signature = (if keeps_signature p then s else zero_Signature)\<rparr>"
  obtain b where b: "rpc_bytes a (JSONCodec ff) i (header_of p) TopicReporter p s = Ok b"
      "receive (JSONCodec ff) b = Ok ?msg"
    using jc.receive_rpc_bytes [of ff p i s "rcv_payload p" a TopicReporter] assms(1-3) by auto
  then obtain rm where rm: "Decode (JSONCodec ff) TRPC b = Some (WRPC rm)"
      "DefaultRPCDecoder (JSONCodec ff) rm = Ok ?msg"
    by (auto simp: receive_def split: option.splits wire.splits)
  moreover have "TopicReporter \<noteq> TopicServer" by (simp add: topics)
  ultimately have "server_receive rm srv = (srv, Some (?msg, h))"
    using assms(4,5) by (simp add: server_receive_def Processor_ProcessMessage_def)
  with b(1) rm(1) show ?thesis by (auto simp: decode_chunk_def)
qed

text \<open>A follower that is in the leader's epoch and round and follows it.\<close>

definition follows :: "ReportingEngine \<Rightarrow> ReportingEngine \<Rightarrow> bool" where
  "follows fo le \<longleftrightarrow>
     re_ready fo \<and> \<not> re_mu fo \<and> re_epoch fo = re_epoch le \<and> re_curRound fo = re_curRound le \<and>
     re_leader fo = re_leader le"

lemma follower_dispatch:
  assumes "follows fo le" and "dm_Data msg = Ptr p" and "typeToPhase p \<noteq> None"
    and "common_fields p = Some (re_epoch le, re_curRound le, re_leader le)"
  shows "ReportingEngine_ProcessMessage env msg fo = dispatch env msg (Ptr p) fo"
  using assms
  by (auto simp: ReportingEngine_ProcessMessage_def rpcMsgPrechecks_def getCommonFieldsAndPhase_def follows_def)

text \<open>
  A node on the network: its engine has a messaging layer, both use the codec of the program, and the
  engine is registered for the topic of the reporter.
\<close>

definition network_node :: "(float64 \<Rightarrow> string) \<Rightarrow> ReportingEngine \<Rightarrow> 't Server \<Rightarrow> bool" where
  "network_node ff re srv \<longleftrightarrow>
     re_msgService re \<and> si_Codec (re_serverOpts re) = JSONCodec ff \<and> ascii (si_ID (re_serverOpts re)) \<and>
     ascii (re_leader re) \<and> sv_Codec srv = JSONCodec ff \<and>
     map_of (handlers (sv_RPCProcessor srv)) TopicReporter = Some HReporter"

text \<open>A node whose identity is the text of its public key, with a key pair of the curve.\<close>

definition signing_node :: "cprims \<Rightarrow> ReportingEngine \<Rightarrow> bool" where
  "signing_node P re \<longleftrightarrow>
     (\<exists>C. compressed_points P C \<and> priv_pub (re_signer re) \<in> C) \<and> 256 ^ 31 \<le> pk_X (priv_pub (re_signer re)) \<and>
     key_pair P (re_signer re) \<and> si_ID (re_serverOpts re) = PublicKey_String (priv_pub (re_signer re))"

text \<open>A signed response reaches the leader's engine, and its signature verifies there.\<close>

lemma response_arrives:
  assumes "network_node ff fo srv_f" and "signing_node (en_prims env_f) fo"
    and "network_node ff le srv_l" and "en_prims env_l = en_prims env_f"
    and "payload_wf ff p" and "keeps_signature p"
  shows "\<exists>b rm msg. respond env_f (header_of p) p fo = (Ok (), fo, [ESend (re_leader fo) b]) \<and>
           decode_chunk (JSONCodec ff) b = [rm] \<and> server_receive rm srv_l = (srv_l, Some (msg, HReporter)) \<and>
           dm_FromId msg = si_ID (re_serverOpts fo) \<and> dm_Data msg = Ptr (rcv_payload p) \<and>
           verify_response env_l le msg (rcv_payload p) = Ok (Some True)"
proof -
  let ?i = "si_ID (re_serverOpts fo)" and ?sk = "re_signer fo"
  have codec: "si_Codec (re_serverOpts fo) = JSONCodec ff" "si_Codec (re_serverOpts le) = JSONCodec ff"
    using assms(1,3) by (simp_all add: network_node_def)
  have bytes: "\<exists>pb. payload_bytes_re re q = Some pb" if "si_Codec (re_serverOpts re) = JSONCodec ff" "payload_wf ff q" for re q
    using payload_wire [OF that(2)] that(1) by (auto simp: payload_bytes_re_def payload_Bytes_def JSONCodec_def)
  obtain pb where pb: "payload_bytes_re fo p = Some pb" using bytes [OF codec(1) assms(5)] by blast
  obtain sg where sg: "PrivateKey_Sign (en_prims env_f) (en_rnd env_f) ?sk pb = Ok sg"
      "StringToPublicKey (en_prims env_f) ?i = Ok (priv_pub ?sk)"
      "Signature_Verify (en_prims env_f) sg pb (priv_pub ?sk) = (Ok True :: (engine_error, bool) res)"
    using sign_verify assms(2) unfolding signing_node_def by metis
  let ?msg = "\<lparr>dm_FromId = ?i, dm_Topic = TopicReporter, dm_Data = Ptr (rcv_payload p), dm_Signature = sg\<rparr>"
  have known: "known_payload p" using assms(6) by (cases p) (simp_all add: keeps_signature_def known_payload_def)
  obtain b rm where b: "rpc_bytes (si_Addr (re_serverOpts fo)) (JSONCodec ff) ?i (header_of p) TopicReporter p sg = Ok b"
      "decode_chunk (JSONCodec ff) b = [rm]" "server_receive rm srv_l = (srv_l, Some (?msg, HReporter))"
    using message_arrives [OF assms(5) known, of ?i srv_l HReporter "si_Addr (re_serverOpts fo)" sg] assms(1,3,6)
    by (auto simp: network_node_def)
  have "respond env_f (header_of p) p fo = (Ok (), fo, [ESend (re_leader fo) b])"
    using assms(1) sg(1) b(1)
    by (simp add: respond_def signed_bytes_def pb act_defs SignMessage_def engine_bytes_def codec must_def SendMsg_re_def
        network_node_def)
  moreover obtain h where h: "common_fields p = Some h" "common_fields (rcv_payload p) = Some h"
    using assms(6) by (cases p) (simp_all add: keeps_signature_def)
  moreover have "payload_bytes_re le p = Some pb" using pb by (simp add: payload_bytes_re_def codec)
  moreover have "payload_wf ff (rcv_payload p)"
    using assms(5,6) by (cases p) (simp_all add: keeps_signature_def reports_wf_def gm_wf_sort_key)
  then obtain qb where "payload_bytes_re le (rcv_payload p) = Some qb" using bytes [OF codec(2)] by blast
  moreover have "VerifySignature env_l pb (dm_FromId ?msg) (dm_Signature ?msg) = Ok True"
    by (simp add: VerifySignature_def assms(4) sg)
  ultimately show ?thesis using b(2,3) verify_response_forged [OF codec(2) h(1)] h(2)
    by (metis DecodedMsg.select_convs(1,3))
qed

section \<open>The observation phase\<close>

text \<open>
  The jobs the leader has scheduled for its round, the description it sends of a job, and the job a
  follower makes from it.
\<close>

definition scheduled :: "ReportingEngine \<Rightarrow> DirectRequest list" where
  "scheduled re = (case re_jobSchedule re of None \<Rightarrow> [] | Some m \<Rightarrow> gm_get0 [] m (re_curRound re))"

definition job_info :: "DirectRequest \<Rightarrow> JobInfo" where
  "job_info job = \<lparr>ji_JobID = dr_JobID job, ji_JobType = dr_JobType job, ji_Template = TParams (dr_params job),
     ji_Timeout = dr_timeout job\<rparr>"

definition fresh_job :: "DirectRequest \<Rightarrow> DirectRequest" where
  "fresh_job job = job\<lparr>dr_Results := [], dr_assembler := None\<rparr>"

definition job_wf :: "(float64 \<Rightarrow> string) \<Rightarrow> DirectRequest \<Rightarrow> bool" where
  "job_wf ff job \<longleftrightarrow> dr_JobType job = DirectReqJob \<and> ascii (dr_JobID job) \<and> params_wf ff (dr_params job)"

text \<open>The jobs all run at the follower and give the responses \<open>rs\<close>, in the order of the schedule.\<close>

definition round_results :: "env \<Rightarrow> DirectRequest list \<Rightarrow> JobObservationResponse list \<Rightarrow> bool" where
  "round_results env jobs rs \<longleftrightarrow>
     map (\<lambda>(i, job). observe_job env i (fresh_job job, job_info job)) (enumerate 0 jobs) = map Ok rs"

lemma GetJobInfos_scheduled: "GetJobInfosForCurrRound re = map job_info (scheduled re)"
  by (simp add: GetJobInfosForCurrRound_def scheduled_def job_info_def DirectRequest_Payload_def TaskTimeout_def Let_def)

lemma NewJobFromInfo_job_info:
  assumes "job_wf (shortest env) job"
  shows "NewJobFromInfo env (rcv_jobinfo (job_info job)) = Ok (fresh_job job)"
proof -
  have wf: "params_wf (shortest env) (dr_params job)" using assms by (simp add: job_wf_def)
  obtain j where "val_json (shortest env) (params_val (dr_params job)) = Some (params_sorted (shortest env) (dr_params job))"
    "json_wf (params_sorted (shortest env) (dr_params job))"
    "decode_struct set_params zero_params (params_sorted (shortest env) (dr_params job)) = Some (dr_params job)"
    by (rule params_wire [OF wf])
  then show ?thesis using assms
    by (simp add: NewJobFromInfo_def template_json_def json_parse_print job_info_def fresh_job_def job_wf_def)
qed

lemma make_jobs_scheduled:
  "\<forall>job\<in>set jobs. job_wf (shortest env) job \<Longrightarrow>
     make_jobs env (map rcv_jobinfo (map job_info jobs)) = (map fresh_job jobs, False)"
  by (induction jobs) (simp_all add: NewJobFromInfo_job_info del: rcv_jobinfo.simps)

lemma res_map_Ok: "res_Oks (map Ok rs) = rs" "res_Errs (map Ok rs) = []" "res_panic (map Ok rs) = None"
  by (induction rs) simp_all

lemma by_finish_map: "by_finish env (map f xs) = map f (by_finish env xs)"
proof -
  have "enumerate 0 (map f xs) = map (\<lambda>(i, x). (i, f x)) (enumerate 0 xs)"
    by (simp add: enumerate_eq_zip zip_map2)
  then show ?thesis by (simp add: by_finish_def sort_key_map comp_def case_prod_unfold)
qed

lemma set_by_finish: "set (by_finish env xs) = set xs"
proof -
  have "set (by_finish env xs) = set (map snd (enumerate 0 xs))" unfolding by_finish_def set_map set_sort ..
  then show ?thesis by simp
qed

lemma observed_job_ids:
  assumes "round_results env jobs rs" and "r \<in> set rs"
  shows "JobId r \<in> dr_JobID ` set jobs"
proof -
  have "Ok r \<in> set (map (\<lambda>(i, job). observe_job env i (fresh_job job, job_info job)) (enumerate 0 jobs))"
    using assms by (simp add: round_results_def)
  then obtain i job where "(i, job) \<in> set (enumerate 0 jobs)" "observe_job env i (fresh_job job, job_info job) = Ok r"
    by auto
  then show ?thesis
    by (auto simp: observe_job_def go_simps enumerate_eq_zip job_info_def dest!: set_zip_rightD)
qed

lemma observe_round_answers:
  assumes "round_results env jobs rs" and "\<forall>job\<in>set jobs. job_wf (shortest (en_job env)) job"
  obtains ran where "observe_round env (map rcv_jobinfo (map job_info jobs)) fo =
     thenA (upd (\<lambda>re. re\<lparr>re_cacheLayer := (re_cacheLayer re)\<lparr>c_jobs := c_jobs (re_cacheLayer re) @ ran\<rparr>\<rparr>))
       (respond env MessageObserveRes (PObserveResp \<lparr>or_Epoch = re_epoch fo, or_Round = re_curRound fo,
          or_Leader = re_leader fo, or_JobResponses = by_finish env rs\<rparr>)) fo"
proof -
  let ?started = "zip (map fresh_job jobs) (map rcv_jobinfo (map job_info jobs))"
  have "observe_job env i (fresh_job job, rcv_jobinfo (job_info job)) = observe_job env i (fresh_job job, job_info job)" for i job
    by (simp add: observe_job_def job_ctx_def)
  moreover have "enumerate 0 ?started = map (\<lambda>(i, job). (i, fresh_job job, rcv_jobinfo (job_info job))) (enumerate 0 jobs)"
    by (rule nth_equalityI) (simp_all add: nth_enumerate_eq)
  ultimately have "map (\<lambda>(i, ji). observe_job env i ji) (enumerate 0 ?started) = map Ok rs"
    using assms(1) by (simp add: round_results_def case_prod_unfold comp_def del: rcv_jobinfo.simps)
  then show thesis
    by (intro that [of "map (\<lambda>(i, ji). job_after env i ji) (enumerate 0 ?started)"])
       (simp add: observe_round_def make_jobs_scheduled [OF assms(2)] reading_def Let_def by_finish_map res_map_Ok
          del: rcv_jobinfo.simps map_map)
qed

lemma handleObserve_broadcasts:
  assumes "re_msgService le"
    and "engine_bytes le MessageObserveReq TopicReporter
           (PObserveReq \<lparr>oq_Epoch = re_epoch le, oq_Round = re_curRound le, oq_Leader = re_leader le,
              oq_Jobs = GetJobInfosForCurrRound le\<rparr>) zero_Signature = Ok b"
  shows "\<exists>t. handleObserve le =
     (Ok (), le\<lparr>re_LeaderState := (re_LeaderState le)\<lparr>ls_TimerRoundTimeout := Some t, ls_Phase := PhaseObserve\<rparr>\<rparr>,
      [EBroadcast b])"
  using assms
  by (auto simp: handleObserve_def BroadcastMsg_re_def NewTimer_def RoundTmeout_def act_defs must_def Let_def)

lemma follower_observes:
  assumes "follows fo le" and "\<not> word_of_nat MAX_ROUNDS <s re_curRound fo" and "round_results env jobs rs"
    and "\<forall>job\<in>set jobs. job_wf (shortest (en_job env)) job"
    and "dm_Data msg = Ptr (PObserveReq \<lparr>oq_Epoch = re_epoch le, oq_Round = re_curRound le, oq_Leader = re_leader le,
           oq_Jobs = map rcv_jobinfo (map job_info jobs)\<rparr>)"
  obtains fo1 where "ReportingEngine_ProcessMessage env msg fo =
      respond env MessageObserveRes (PObserveResp \<lparr>or_Epoch = re_epoch le, or_Round = re_curRound le,
          or_Leader = re_leader le, or_JobResponses = by_finish env rs\<rparr>) fo1"
    "re_msgService fo1 = re_msgService fo" "re_serverOpts fo1 = re_serverOpts fo" "re_leader fo1 = re_leader fo"
    "re_signer fo1 = re_signer fo"
proof -
  let ?infos = "map rcv_jobinfo (map job_info jobs)"
  obtain ran where ran: "observe_round env ?infos fo =
      thenA (upd (\<lambda>re. re\<lparr>re_cacheLayer := (re_cacheLayer re)\<lparr>c_jobs := c_jobs (re_cacheLayer re) @ ran\<rparr>\<rparr>))
       (respond env MessageObserveRes (PObserveResp \<lparr>or_Epoch = re_epoch fo, or_Round = re_curRound fo,
          or_Leader = re_leader fo, or_JobResponses = by_finish env rs\<rparr>)) fo"
    by (rule observe_round_answers [OF assms(3,4)])
  have "upd (\<lambda>re. re\<lparr>re_curRound := re_curRound le\<rparr>) fo = (Ok (), fo, [])" "finish_rounds fo = (Ok (), fo, [])"
    using assms(1,2) by (simp_all add: follows_def upd_def finish_rounds_def reading_def ret_def)
  moreover have "ReportingEngine_ProcessMessage env msg fo = process_ObserveReq env
      \<lparr>oq_Epoch = re_epoch le, oq_Round = re_curRound le, oq_Leader = re_leader le, oq_Jobs = ?infos\<rparr> fo"
    using follower_dispatch [OF assms(1,5)] by (simp add: typeToPhase_def del: rcv_jobinfo.simps map_map)
  ultimately have "ReportingEngine_ProcessMessage env msg fo = observe_round env ?infos fo"
    by (simp add: process_ObserveReq_def thenA_def seqA_def case_prod_unfold del: rcv_jobinfo.simps map_map)
  also have "\<dots> = respond env MessageObserveRes (PObserveResp \<lparr>or_Epoch = re_epoch le, or_Round = re_curRound le,
          or_Leader = re_leader le, or_JobResponses = by_finish env rs\<rparr>)
      (fo\<lparr>re_cacheLayer := (re_cacheLayer fo)\<lparr>c_jobs := c_jobs (re_cacheLayer fo) @ ran\<rparr>\<rparr>)"
    unfolding ran using assms(1) by (simp add: thenA_def seqA_def upd_def follows_def)
  finally show thesis by (rule that) simp_all
qed

text \<open>
  C3: The observation phase, from the leader's schedule to the leader's collection. The leader broadcasts
  one request with the jobs of its round. It arrives at a follower of the round, which makes the same jobs
  from it, runs them, and, when all of them give a result, sends the leader exactly one signed response
  with these results in the order in which the jobs finished. The response arrives at the leader,
  its signature verifies, and the leader stores the results under the follower's identity and
  counts them.
\<close>

theorem observation_phase:
  assumes "leading le" and "network_node ff le srv_l"
    and "\<forall>job\<in>set (scheduled le). job_wf ff job" and "shortest (en_job env_f) = ff"
    and "follows fo le" and "network_node ff fo srv_f" and "signing_node (en_prims env_f) fo"
    and "\<not> word_of_nat MAX_ROUNDS <s re_curRound fo"
    and "round_results env_f (scheduled le) rs"
    and "en_prims env_l = en_prims env_f"
  shows "\<exists>b1 rm1 msg1 le1 fo1 b2 rm2 msg2 le2 es.
     handleObserve le = (Ok (), le1, [EBroadcast b1]) \<and>
     decode_chunk (JSONCodec ff) b1 = [rm1] \<and> server_receive rm1 srv_f = (srv_f, Some (msg1, HReporter)) \<and>
     ReportingEngine_ProcessMessage env_f msg1 fo = (Ok (), fo1, [ESend (re_leader le) b2]) \<and>
     decode_chunk (JSONCodec ff) b2 = [rm2] \<and> server_receive rm2 srv_l = (srv_l, Some (msg2, HReporter)) \<and>
     ReportingEngine_ProcessMessage env_l msg2 le1 = (Ok (), le2, es) \<and>
     Load (ls_observations (re_LeaderState le2)) (si_ID (re_serverOpts fo)) =
       Some (group_responses (by_finish env_f rs)) \<and>
     observe_n (re_cacheLayer le2) = observe_n (re_cacheLayer le) + 1"
proof -
  let ?infos = "map job_info (scheduled le)"
  let ?p = "PObserveReq \<lparr>oq_Epoch = re_epoch le, oq_Round = re_curRound le, oq_Leader = re_leader le, oq_Jobs = ?infos\<rparr>"
  let ?m = "\<lparr>or_Epoch = re_epoch le, or_Round = re_curRound le, or_Leader = re_leader le,
    or_JobResponses = by_finish env_f rs\<rparr>"
  have p: "payload_wf ff ?p" "known_payload ?p" using assms(2,3)
    by (auto simp: network_node_def known_payload_def job_info_def job_wf_def DirectReqJob_def ascii_def)
  let ?id = "si_ID (re_serverOpts le)"
  obtain b1 rm1 msg1 where b1: "engine_bytes le MessageObserveReq TopicReporter ?p zero_Signature = Ok b1"
      "decode_chunk (JSONCodec ff) b1 = [rm1]" "server_receive rm1 srv_f = (srv_f, Some (msg1, HReporter))"
    and msg1: "dm_Data msg1 = Ptr (rcv_payload ?p)"
    using message_arrives [OF p, of ?id srv_f HReporter "si_Addr (re_serverOpts le)" zero_Signature] assms(2,6)
    by (auto simp: network_node_def engine_bytes_def simp del: rcv_jobinfo.simps)
  have srv: "re_msgService le" using assms(2) by (simp add: network_node_def)
  obtain t where le1: "handleObserve le =
     (Ok (), le\<lparr>re_LeaderState := (re_LeaderState le)\<lparr>ls_TimerRoundTimeout := Some t, ls_Phase := PhaseObserve\<rparr>\<rparr>,
      [EBroadcast b1])" (is "_ = (_, ?le1, _)")
    using handleObserve_broadcasts [OF srv b1(1) [folded GetJobInfos_scheduled]] by blast
  obtain fo1 where fo1: "ReportingEngine_ProcessMessage env_f msg1 fo = respond env_f MessageObserveRes (PObserveResp ?m) fo1"
      "re_msgService fo1 = re_msgService fo" "re_serverOpts fo1 = re_serverOpts fo" "re_leader fo1 = re_leader fo"
      "re_signer fo1 = re_signer fo"
    by (rule follower_observes [OF assms(5,8,9), of msg1])
       (use assms(3,4) msg1 in \<open>simp_all del: rcv_jobinfo.simps map_map\<close>)
  have "ascii (JobId r)" if "r \<in> set rs" for r
    using observed_job_ids [OF assms(9) that] assms(3) by (auto simp: job_wf_def)
  then have wf: "payload_wf ff (PObserveResp ?m)" using assms(2) by (simp add: network_node_def set_by_finish)
  have nodes: "network_node ff fo1 srv_f" "signing_node (en_prims env_f) fo1" "network_node ff ?le1 srv_l"
    using assms(2,6,7) fo1 by (simp_all add: network_node_def signing_node_def)
  obtain b2 rm2 msg2 where b2: "respond env_f MessageObserveRes (PObserveResp ?m) fo1 = (Ok (), fo1, [ESend (re_leader fo1) b2])"
      "decode_chunk (JSONCodec ff) b2 = [rm2]" "server_receive rm2 srv_l = (srv_l, Some (msg2, HReporter))"
    and msg2: "dm_FromId msg2 = si_ID (re_serverOpts fo1)" "dm_Data msg2 = Ptr (PObserveResp ?m)"
      "verify_response env_l ?le1 msg2 (PObserveResp ?m) = Ok (Some True)"
    using response_arrives [OF nodes assms(10) wf] by (auto simp: keeps_signature_def)
  have "leading ?le1" "valid_observation env_l ?le1 msg2"
    using assms(1) msg2 by (simp_all add: leading_def valid_observation_def)
  from observation_step [OF this] obtain le2 es where "ReportingEngine_ProcessMessage env_l msg2 ?le1 = (Ok (), le2, es)"
      "observe_n (re_cacheLayer le2) = observe_n (re_cacheLayer ?le1) + 1"
      "ls_observations (re_LeaderState le2) =
         Store (fst (observed_jobs msg2)) (snd (observed_jobs msg2)) (ls_observations (re_LeaderState ?le1))"
    by metis
  moreover have "observed_jobs msg2 = (si_ID (re_serverOpts fo), group_responses (by_finish env_f rs))"
    using msg2 fo1(3) by (simp add: observed_jobs_def)
  moreover have "re_leader fo1 = re_leader le" using fo1(4) assms(5) by (simp add: follows_def)
  ultimately show ?thesis using le1 b1 fo1(1) b2 by (fastforce simp: obs.get_put)
qed

section \<open>Witnesses\<close>

definition demo_job :: DirectRequest where
  "demo_job = \<lparr>dr_JobID = ''i'', dr_JobType = DirectReqJob, dr_params = numeric_params, dr_Results = [],
     dr_timeout = 7, dr_assembler = None\<rparr>"

definition observing_leader :: ReportingEngine where
  "observing_leader = (demo_engine True ''a'')\<lparr>re_jobSchedule := Some [(1, [demo_job])]\<rparr>"

definition fetching_env :: env where
  "fetching_env = demo_env\<lparr>en_job := echo_env\<rparr>"

lemma demo_node: "ascii i \<Longrightarrow> network_node (\<lambda>_. ''0'') (demo_engine b i) (register_handlers demo_server)"
  by (simp add: network_node_def demo_defs register_handlers_def demo_server_def RegisterHandler_def)

lemma demo_signing_node: "signing_node witness_prims (demo_engine b (PublicKey_String witness_key))"
proof -
  have "compressed_points witness_prims {witness_key}"
    unfolding witness_prims_def by (rule single_key_prims_points) (simp add: witness_key_def)
  moreover have "key_pair witness_prims demo_key"
    by (simp add: key_pair_def witness_prims_def single_key_prims_def)
  moreover have "256 ^ 31 \<le> pk_X witness_key" by (simp add: witness_key_def)
  ultimately show ?thesis
    unfolding signing_node_def by (simp add: demo_engine_def NewReportingEngine_def demo_info_def demo_key_def) blast
qed

lemma demo_round_results: "round_results fetching_env [demo_job] [\<lparr>JobId = ''i'', Response = ''42''\<rparr>]"
  by (simp add: round_results_def observe_job_def fresh_job_def job_info_def demo_job_def fetching_env_def job_ctx_def
      demo_env_def Run_unfold Result_def numeric_params_def ctx_done_def Execute_def echo_env_def zero_task_def)

theorem observation_phase_witness:
  "\<exists>b1 rm1 msg1 le1 fo1 b2 rm2 msg2 le2 es.
     handleObserve observing_leader = (Ok (), le1, [EBroadcast b1]) \<and>
     decode_chunk (JSONCodec (\<lambda>_. ''0'')) b1 = [rm1] \<and>
     server_receive rm1 (register_handlers demo_server) = (register_handlers demo_server, Some (msg1, HReporter)) \<and>
     ReportingEngine_ProcessMessage fetching_env msg1 (demo_engine False (PublicKey_String witness_key)) =
       (Ok (), fo1, [ESend ''a'' b2]) \<and>
     decode_chunk (JSONCodec (\<lambda>_. ''0'')) b2 = [rm2] \<and>
     server_receive rm2 (register_handlers demo_server) = (register_handlers demo_server, Some (msg2, HReporter)) \<and>
     ReportingEngine_ProcessMessage demo_env msg2 le1 = (Ok (), le2, es) \<and>
     Load (ls_observations (re_LeaderState le2)) (PublicKey_String witness_key) =
       Some (group_responses (by_finish fetching_env [\<lparr>JobId = ''i'', Response = ''42''\<rparr>]))"
proof -
  let ?fo = "demo_engine False (PublicKey_String witness_key)" and ?srv = "register_handlers demo_server"
  have le: "leading observing_leader" "network_node (\<lambda>_. ''0'') observing_leader ?srv"
      "scheduled observing_leader = [demo_job]" "re_leader observing_leader = ''a''"
    using demo_node [of "''a''" True]
    by (simp_all add: observing_leader_def leading_def network_node_def scheduled_def demo_defs gm_get0_def)
  have jobs: "\<forall>job\<in>set (scheduled observing_leader). job_wf (\<lambda>_. ''0'') job" "shortest (en_job fetching_env) = (\<lambda>_. ''0'')"
    using numeric_params_wf by (simp_all add: le(3) job_wf_def demo_job_def fetching_env_def echo_env_def ascii_def)
  have fo: "follows ?fo observing_leader" "\<not> word_of_nat MAX_ROUNDS <s re_curRound ?fo"
      "si_ID (re_serverOpts ?fo) = PublicKey_String witness_key"
    by (simp_all add: follows_def observing_leader_def demo_defs MAX_ROUNDS_def word_sless_alt)
  have net: "network_node (\<lambda>_. ''0'') ?fo ?srv" by (rule demo_node) (simp add: PublicKey_String_def)
  have env: "signing_node (en_prims fetching_env) ?fo" "en_prims demo_env = en_prims fetching_env"
    using demo_signing_node by (simp_all add: fetching_env_def demo_env_def)
  from observation_phase [OF le(1,2) jobs fo(1) net env(1) fo(2) demo_round_results [folded le(3)] env(2)]
  show ?thesis unfolding fo(3) le(4) by blast
qed

end
