(* ===== verification/WellFormed.thy ===== *)
theory WellFormed
  imports Protocol
begin

text \<open>
  Soundness of the encoding of the engine's maps. A Go map has no key twice by the rules of the language;
  the model has association lists in their place, and \<open>engine_wf\<close> says of every map the engine collects,
  in its leader state and in its cache, that its list has no key twice. The decoder only gives messages
  whose maps are so, every operation of the engine keeps \<open>engine_wf\<close>, and so this hypothesis of the
  theorems on the final report holds in every state of a running engine: it restricts nothing.
\<close>

section \<open>Definitions\<close>

definition maps_wf :: "ObservationSafeMap \<Rightarrow> bool" where
  "maps_wf obs \<longleftrightarrow> gm_wf obs \<and> (\<forall>(i, m)\<in>set obs. gm_wf m)"

definition engine_wf :: "ReportingEngine \<Rightarrow> bool" where
  "engine_wf re \<longleftrightarrow>
     maps_wf (ls_observations (re_LeaderState re)) \<and>
     (\<forall>r\<in>set (ls_reports (re_LeaderState re)). gm_wf (rep_reports r)) \<and>
     maps_wf (follower_observations (re_cacheLayer re)) \<and> gm_wf (jobReports (re_cacheLayer re))"

fun payload_maps_wf :: "payload \<Rightarrow> bool" where
  "payload_maps_wf (PReportRes m) = gm_wf (rr_Reports m)"
| "payload_maps_wf _ = True"

definition msg_wf :: "DecodedMsg \<Rightarrow> bool" where
  "msg_wf msg \<longleftrightarrow> payload_maps_wf (any_payload (dm_Data msg))"

text \<open>The states of an engine that gets its messages from the decoder of the program.\<close>

inductive engine_run :: "codec \<Rightarrow> 'q fifo_lib \<Rightarrow> ReportingEngine \<Rightarrow> bool" for c lib where
  new: "engine_run c lib zero_engine"
| init: "engine_run c lib re \<Longrightarrow> initReporter l e ld si pg sg re = Ok re' \<Longrightarrow> engine_run c lib re'"
| start: "engine_run c lib re \<Longrightarrow> ReportingEngine_Start lib q reg re = ((r, re', es), q') \<Longrightarrow> engine_run c lib re'"
| message: "engine_run c lib re \<Longrightarrow> DefaultRPCDecoder c rm = Ok msg \<Longrightarrow>
    ReportingEngine_ProcessMessage env msg re = (r, re', es) \<Longrightarrow> engine_run c lib re'"
| task: "engine_run c lib re \<Longrightarrow> run_task env t re = (r, re', es) \<Longrightarrow> engine_run c lib re'"

section \<open>Lemmas\<close>

subsection \<open>Decoded maps\<close>

lemma foldO_invariant:
  assumes "\<And>x s s'. f x s = Some s' \<Longrightarrow> I s \<Longrightarrow> I s'"
  shows "foldO f xs s = Some s' \<Longrightarrow> I s \<Longrightarrow> I s'"
  by (induction xs arbitrary: s) (auto split: option.splits intro: assms)

lemma gm_wf_fold_put: "gm_wf m \<Longrightarrow> gm_wf (fold (\<lambda>(k, v). gm_put k v) kvs m)"
  by (induction kvs arbitrary: m) (auto simp: gm_wf_put)

lemma decode_struct_invariant:
  assumes "\<And>k v s s'. setf k v s = Some s' \<Longrightarrow> I s \<Longrightarrow> I s'" and "decode_struct setf z j = Some s" and "I z"
  shows "I s"
  using assms(2,3)
  by (auto simp: decode_struct_def split: json.splits intro: assms(1) foldO_invariant [where I = I, rotated])

lemma set_payload_wf:
  assumes "set_payload k v p = Some p'" and "payload_maps_wf p"
  shows "payload_maps_wf p'"
proof -
  have "gm_wf m'" if "dec_reports v m = Some m'" "gm_wf m" for m m'
    using that by (cases v) (auto simp: gm_wf_fold_put split: option.splits goval.splits)
  with assms show ?thesis
    by (cases p) (auto split: if_splits)
qed

lemma dec_gomap_wf:
  assumes "dec_gomap d j = Some m" and "\<And>j v. d j = Some v \<Longrightarrow> P v"
  shows "gm_wf m \<and> (\<forall>(k, v)\<in>set m. P v)"
proof (cases j)
  case (JObj kvs)
  show ?thesis
    by (rule foldO_invariant [where I = "\<lambda>m. gm_wf m \<and> (\<forall>(k, v)\<in>set m. P v)" and s = "[]"])
      (use assms JObj in \<open>auto simp: gm_wf_put dest!: set_gm_put_subset [THEN subsetD]\<close>)
qed (use assms in auto)

lemma maps_wf_Store: "maps_wf obs \<Longrightarrow> gm_wf m \<Longrightarrow> maps_wf (Store i m obs)"
  using set_gm_put_subset [of i m obs] by (auto simp: maps_wf_def Store_def gm_wf_put)

lemma Unmarshal_wf: "ObservationSafeMap_UnmarshalJSON d [] = Some obs \<Longrightarrow> maps_wf obs"
proof -
  assume "ObservationSafeMap_UnmarshalJSON d [] = Some obs"
  then obtain j tmp where tmp: "json_obs j = Some tmp" "obs = fold (\<lambda>(key, v). Store key v) tmp []"
    by (auto simp: ObservationSafeMap_UnmarshalJSON_def bind_eq_Some_conv split: option.splits)
  from dec_gomap_wf [OF tmp(1) [unfolded json_obs_def], of gm_wf] dec_gomap_wf [where P = "\<lambda>_. True"]
  have "\<forall>(k, v)\<in>set tmp. gm_wf v" by blast
  then have "maps_wf acc \<Longrightarrow> maps_wf (fold (\<lambda>(key, v). Store key v) tmp acc)" for acc
    by (induction tmp arbitrary: acc) (auto simp: maps_wf_Store)
  moreover have "maps_wf []" by (simp add: maps_wf_def)
  ultimately show ?thesis unfolding tmp(2) by blast
qed

lemma decoded_msg_wf: "DefaultRPCDecoder (JSONCodec ff) rm = Ok msg \<Longrightarrow> msg_wf msg"
proof -
  assume "DefaultRPCDecoder (JSONCodec ff) rm = Ok msg"
  then obtain t d p where p: "Decode (JSONCodec ff) t d = Some (WPayload p)" "dm_Data msg = Ptr p"
    by (auto simp: DefaultRPCDecoder_def decoded_def Let_def split: option.splits wire.splits if_splits)
  then obtain j z where "zero_payload t = Some z" "decode_struct set_payload z j = Some p"
    by (cases t) (auto simp: JSONCodec_def bind_eq_Some_conv split: option.splits)
  moreover from this(1) have "payload_maps_wf z" by (cases t) auto
  ultimately have "payload_maps_wf p"
    using decode_struct_invariant [where I = payload_maps_wf] set_payload_wf by blast
  with p(2) show ?thesis by (simp add: msg_wf_def)
qed

subsection \<open>The operations of the engine\<close>

definition keeps_wf :: "ReportingEngine \<Rightarrow> ReportingEngine \<Rightarrow> bool" where
  "keeps_wf re re' \<longleftrightarrow> (engine_wf re \<longrightarrow> engine_wf re')"

lemma Stop_wf: "ReportingEngine_Stop re = Ok re' \<Longrightarrow> keeps_wf re re'"
  by (auto simp: ReportingEngine_Stop_def cleanupFunc_def keeps_wf_def engine_wf_def res_bind_Ok_iff)

interpretation wf: handler_frame keeps_wf "\<lambda>_. True"
proof unfold_locales
  show "ReportingEngine_Stop re = Ok re' \<Longrightarrow> keeps_wf re re'" for re re' by (rule Stop_wf)
  show "keeps_wf re (re\<lparr>re_cacheLayer := (re_cacheLayer re)\<lparr>follower_observations := obs\<rparr>\<rparr>)"
    if "ObservationSafeMap_UnmarshalJSON d [] = Some obs" for re d obs
    using Unmarshal_wf [OF that] by (simp add: keeps_wf_def engine_wf_def)
  show "keeps_wf a b \<Longrightarrow> keeps_wf b c \<Longrightarrow> keeps_wf a c" for a b c by (simp add: keeps_wf_def)
qed (simp_all add: keeps_wf_def engine_wf_def set_phase_def)

lemma group_responses_wf: "gm_wf (group_responses rs)"
  unfolding group_responses_fold by (rule gm_wf_fold_group) simp

lemma ObserveResp_wf: "keeps keeps_wf (\<lambda>_. True) (process_ObserveResp env msg m)"
  unfolding process_ObserveResp_def
  by (intro wf.keeps_reading wf.keeps_if wf.keeps_seq wf.keeps_then wf.keeps_upd wf.keeps_lift wf.keeps_ret wf.keeps_phase wf.R_phase)
    (auto simp: keeps_wf_def engine_wf_def store_observation_def maps_wf_Store group_responses_wf)

lemma ReportRes_wf: "gm_wf (rr_Reports m) \<Longrightarrow> keeps keeps_wf (\<lambda>_. True) (process_ReportRes env msg m)"
  unfolding process_ReportRes_def
  by (intro wf.keeps_reading wf.keeps_if wf.keeps_seq wf.keeps_then wf.keeps_upd wf.keeps_lift wf.keeps_ret)
    (auto simp: keeps_wf_def engine_wf_def add_report_def set_phase_def split: option.split res.split
      intro!: wf.keeps_then wf.keeps_upd wf.keeps_phase wf.keeps_ret wf.keeps_lift)

lemma dispatch_wf:
  assumes "payload_maps_wf (any_payload d)"
  shows "keeps keeps_wf (\<lambda>_. True) (dispatch env msg d)"
proof (cases "(env, msg, d)" rule: dispatch.cases)
  case (1 env msg m)
  have "keeps keeps_wf (\<lambda>_. True) (process_ObserveReq env m)"
    unfolding process_ObserveReq_def
    by (intro wf.keeps_then wf.keeps_upd wf.keeps_handlers) (simp add: keeps_wf_def engine_wf_def)
  with 1 show ?thesis by simp
qed (use assms in \<open>auto intro!: wf.keeps_handlers wf.keeps_ret wf.keeps_ProgressRound ObserveResp_wf ReportRes_wf\<close>)

lemma message_wf:
  assumes "ReportingEngine_ProcessMessage env msg re = (r, re', es)" and "msg_wf msg" and "engine_wf re"
  shows "engine_wf re'"
proof (cases rule: ProcessMessage_cases [of re env msg])
  case accepted
  with assms(1) have "dispatch env msg (dm_Data msg) re = (r, re', es)" by simp
  from keepsD [OF dispatch_wf this] assms(2,3) show ?thesis by (simp add: msg_wf_def keeps_wf_def)
qed (use assms in \<open>auto simp: engine_wf_def\<close>)

lemma task_wf_engine: "keeps keeps_wf (\<lambda>_. True) (run_task env t)"
proof (cases t)
  case HTransmit
  have transmit: "keeps keeps_wf (\<lambda>_. True) (\<lambda>re. (Ok (), re, fst (transmit_all re fr jobs)))" for fr jobs
    by (simp add: keeps_def wf.R_refl list_all_iff)
  have "keeps keeps_wf (\<lambda>_. True) (handleTransmit env)"
    unfolding handleTransmit_def
    by (auto split: option.split intro!: wf.keeps_reading wf.keeps_seq wf.keeps_then wf.keeps_lift wf.keeps_ret
        wf.keeps_emit wf.keeps_signed wf.msg_rules transmit)
  with HTransmit show ?thesis by simp
next
  case HProgress
  then show ?thesis
    by (auto simp: progressToNextRound_def Let_def keeps_wf_def engine_wf_def zero_CacheLayer_def zero_Report_def
        maps_wf_def intro!: wf.keeps_upd)
qed (use wf.keeps_task [of t env] in simp_all)

lemma start_wf:
  assumes "ReportingEngine_Start lib q reg re = ((r, re', es), q')" and "engine_wf re"
  shows "engine_wf re'"
  using assms
  by (auto simp: ReportingEngine_Start_def Let_def act_defs send_phase_def engine_wf_def
      split: if_splits option.splits res.splits prod.splits chan.splits)

text \<open>
  The association lists of the engine are maps. In every state an engine can reach by initialisation, starts,
  goroutines and messages decoded from the wire, whatever bytes arrive, no map of its leader state or its
  cache has a key twice; in particular every collected report is a map, as the theorems on the final
  report require.
\<close>

theorem engine_types:
  assumes "engine_run (JSONCodec ff) lib re"
  shows "engine_wf re"
  using assms
proof (induction rule: engine_run.induct)
  case new
  show ?case by (simp add: engine_wf_def maps_wf_def zero_engine_def zero_CacheLayer_def)
next
  case (init re l e ld si pg sg re')
  then show ?case
    by (auto simp: initReporter_def engine_wf_def maps_wf_def fresh_LeaderState_def zero_CacheLayer_def zero_Report_def
        split: if_splits)
next
  case (start re q reg r re' es q')
  then show ?case by (blast intro: start_wf)
next
  case (message re rm msg env r re' es)
  then show ?case by (blast intro: message_wf decoded_msg_wf)
next
  case (task re env t r re' es)
  from keepsD [OF task_wf_engine task.hyps(2)] task.IH show ?case by (simp add: keeps_wf_def)
qed

section \<open>Witness\<close>

theorem engine_types_witness:
  "\<exists>re. initReporter True 3 ''a'' (demo_info ''a'') \<lparr>pg_n = 4, pg_f = 1\<rparr> demo_key zero_engine = Ok re \<and> engine_wf re"
proof -
  obtain re where re: "initReporter True 3 ''a'' (demo_info ''a'') \<lparr>pg_n = 4, pg_f = 1\<rparr> demo_key zero_engine = Ok re"
    by (simp add: initReporter_def zero_engine_def)
  with engine_types [OF engine_run.init [OF engine_run.new]] show ?thesis by blast
qed

end
