(* ===== verification/KeyFile.thy ===== *)
theory KeyFile
  imports JsonFraming
begin

text \<open>
  The key files: \<open>crypto/gen_keys.go\<close>, which generates keys and writes them, the constructors of keys of
  \<open>crypto/keypairs.go\<close>, and the reader of the file, \<open>ocr/config_reader.go\<close>. The random source, the
  multiplication of the base point and the file system are arguments.
\<close>

section \<open>Definitions\<close>

subsection \<open>Private keys\<close>

text \<open>\<open>big.Int.SetBytes\<close>: the number with the given big-endian bytes.\<close>

definition setBytes :: "bytes \<Rightarrow> nat" where
  "setBytes bs = foldl (\<lambda>n b. 256 * n + of_char b) 0 bs"

datatype convert_error = DecodeBase64 | InvalidKeyLength nat | NilCoordinates

text \<open>
  \<open>baseMult\<close> is \<open>ScalarBaseMult\<close> of the curve, \<open>None\<close> when it answers nil coordinates.
\<close>

definition ConvertBase64ToECDSAPrivateKey ::
  "(bytes \<Rightarrow> PublicKey option) \<Rightarrow> string \<Rightarrow> (convert_error, PrivateKey) res" where
  "ConvertBase64ToECDSAPrivateKey baseMult base64Key =
     (case b64decode base64Key of
        None \<Rightarrow> Err DecodeBase64
      | Some keyBytes \<Rightarrow>
          if length keyBytes \<noteq> 32 then Err (InvalidKeyLength (length keyBytes))
          else let d = setBytes keyBytes in
            (case baseMult (bigBytes d) of
               None \<Rightarrow> Err NilCoordinates
             | Some pub \<Rightarrow> Ok \<lparr>priv_D = d, priv_pub = pub\<rparr>))"

text \<open>\<open>generated\<close> is what \<open>ecdsa.GenerateKey\<close> made of the reader, \<open>None\<close> for an error.\<close>

definition NewPrivateKeyUsingReader :: "PrivateKey option \<Rightarrow> ('e, PrivateKey) res" where
  "NewPrivateKeyUsingReader generated =
     (case generated of None \<Rightarrow> Panicked (ExplicitPanic ''ecdsa.GenerateKey'') | Some key \<Rightarrow> Ok key)"

definition GeneratePrivateKey :: "(nat \<Rightarrow> PrivateKey option) \<Rightarrow> nat \<Rightarrow> ('e, PrivateKey) res" where
  "GeneratePrivateKey rand i = NewPrivateKeyUsingReader (rand i)"

subsection \<open>Indented JSON\<close>

text \<open>\<open>json.MarshalIndent\<close> with an empty prefix and two spaces for every level.\<close>

definition new_line :: "nat \<Rightarrow> string" where
  "new_line d = CHR 0x0A # replicate (2 * d) (CHR '' '')"

fun print_indent :: "nat \<Rightarrow> json \<Rightarrow> string"
  and indent_elems :: "nat \<Rightarrow> json list \<Rightarrow> string"
  and indent_members :: "nat \<Rightarrow> (string \<times> json) list \<Rightarrow> string" where
  "print_indent d JNull = print_json JNull"
| "print_indent d (JBool b) = print_json (JBool b)"
| "print_indent d (JNum n) = print_json (JNum n)"
| "print_indent d (JStr s) = print_json (JStr s)"
| "print_indent d (JArr js) =
     (if js = [] then ''[]'' else ''['' @ new_line (Suc d) @ indent_elems (Suc d) js @ new_line d @ '']'')"
| "print_indent d (JObj kvs) =
     (if kvs = [] then ''{}'' else ''{'' @ new_line (Suc d) @ indent_members (Suc d) kvs @ new_line d @ ''}'')"
| "indent_elems d [] = []"
| "indent_elems d [j] = print_indent d j"
| "indent_elems d (j # j' # js) = print_indent d j @ '','' @ new_line d @ indent_elems d (j' # js)"
| "indent_members d [] = []"
| "indent_members d [(k, v)] = print_string k @ '': '' @ print_indent d v"
| "indent_members d ((k, v) # kv # kvs) =
     print_string k @ '': '' @ print_indent d v @ '','' @ new_line d @ indent_members d (kv # kvs)"

subsection \<open>Writing the file\<close>

record KeyPair =
  kp_PrivateKey :: string
  kp_PublicKey :: string
  kp_ListenAddr :: string

definition keypair_json :: "KeyPair \<Rightarrow> json" where
  "keypair_json k =
     JObj [(''privateKey'', JStr (kp_PrivateKey k)), (''publicKey'', JStr (kp_PublicKey k)),
           (''listenAddr'', JStr (kp_ListenAddr k))]"

definition key_pair_of :: "PrivateKey \<Rightarrow> KeyPair" where
  "key_pair_of privKey =
     \<lparr>kp_PrivateKey = hexEncode (bigBytes (priv_D privKey)),
      kp_PublicKey = PublicKey_String (PrivateKey_PublicKey privKey),
      kp_ListenAddr = ''127.0.0.1:4000''\<rparr>"

fun gen_loop :: "(nat \<Rightarrow> PrivateKey option) \<Rightarrow> nat \<Rightarrow> nat \<Rightarrow> KeyPair list \<Rightarrow> ('e, KeyPair list) res" where
  "gen_loop rand 0 i keyPairs = Ok keyPairs"
| "gen_loop rand (Suc n) i keyPairs =
     res_bind (GeneratePrivateKey rand i) (\<lambda>privKey.
       gen_loop rand n (Suc i) (keyPairs @ [key_pair_of privKey]))"

datatype keygen_error = WriteKeyFile

text \<open>
  The file system is a map from names to contents; \<open>writable\<close> says whether \<open>os.WriteFile\<close> succeeds.
  A negative count makes \<open>make\<close> panic. Marshalling three strings does not fail.
\<close>

definition GenerateKeyPairsJSON ::
  "(nat \<Rightarrow> PrivateKey option) \<Rightarrow> (string \<Rightarrow> bool) \<Rightarrow> int \<Rightarrow> string \<Rightarrow> (string \<rightharpoonup> bytes) \<Rightarrow>
   (keygen_error, string \<rightharpoonup> bytes) res" where
  "GenerateKeyPairsJSON rand writable x outputFile fs =
     (if x < 0 then Panicked (ExplicitPanic ''makeslice: cap out of range'')
      else res_bind (gen_loop rand (nat x) 0 []) (\<lambda>keyPairs.
        if writable outputFile
        then Ok (fs(outputFile \<mapsto> print_indent 0 (JArr (map keypair_json keyPairs))))
        else Err WriteKeyFile))"

subsection \<open>Reading the file\<close>

record PeerInfo =
  pi_PrivateKey :: string
  pi_PublicKey :: string
  pi_ListenAddr :: string

definition set_peerinfo :: "string \<Rightarrow> json \<Rightarrow> PeerInfo \<Rightarrow> PeerInfo option" where
  "set_peerinfo k v p =
     (if k = ''privatekey'' then map_option (\<lambda>x. p\<lparr>pi_PrivateKey := x\<rparr>) (dec_str v (pi_PrivateKey p))
      else if k = ''publickey'' then map_option (\<lambda>x. p\<lparr>pi_PublicKey := x\<rparr>) (dec_str v (pi_PublicKey p))
      else if k = ''listenaddr'' then map_option (\<lambda>x. p\<lparr>pi_ListenAddr := x\<rparr>) (dec_str v (pi_ListenAddr p))
      else Some p)"

datatype config_error = ReadPeerFile | UnmarshalPeers

definition GetPeerInfo :: "(string \<Rightarrow> bytes option) \<Rightarrow> string \<Rightarrow> (config_error, PeerInfo list) res" where
  "GetPeerInfo readFile fileName =
     (case readFile fileName of
        None \<Rightarrow> Err ReadPeerFile
      | Some data \<Rightarrow>
          (case Option.bind (json_parse data)
                  (dec_slice (decode_struct set_peerinfo
                     \<lparr>pi_PrivateKey = [], pi_PublicKey = [], pi_ListenAddr = []\<rparr>)) of
             None \<Rightarrow> Err UnmarshalPeers
           | Some peers \<Rightarrow> Ok peers))"

section \<open>Lemmas\<close>

subsection \<open>Reading indented JSON\<close>

lemma skip_ws_new_line [simp]: "skip_ws (new_line d @ s) = skip_ws s" "skip_ws (CHR '' '' # s) = skip_ws s"
proof -
  have "dropWhile is_ws (replicate n (CHR '' '') @ s) = dropWhile is_ws s" for n
    by (induction n) (simp_all add: is_ws_def)
  then show "skip_ws (new_line d @ s) = skip_ws s" by (simp add: skip_ws_def new_line_def is_ws_def)
qed (simp add: skip_ws_def is_ws_def)

lemma parse_skip_ws:
  assumes "skip_ws s = skip_ws t"
  shows "parse_value n s = parse_value n t" "parse_elems n s = parse_elems n t" "parse_members n s = parse_members n t"
proof -
  show v: "parse_value n s = parse_value n t" for n by (cases n) (simp_all add: assms)
  show "parse_elems n s = parse_elems n t" by (cases n) (simp_all add: v)
  show "parse_members n s = parse_members n t" by (cases n) (simp_all add: assms)
qed

lemma num_stop_new_line [simp]: "num_stop (new_line d @ r)"
  by (simp add: num_stop_def new_line_def is_digit_def)

lemma print_indent_start: "json_wf j \<Longrightarrow> \<exists>c r. print_indent d j = c # r \<and> \<not> is_ws c \<and> c \<noteq> CHR '']''"
proof (cases j)
  case (JNum n)
  assume "json_wf j"
  with print_json_start [of j] JNum show ?thesis by simp
qed (simp_all add: is_ws_def print_string_def)

lemma indent_elems_start:
  "json_wf (JArr (j # js)) \<Longrightarrow> \<exists>c r. indent_elems d (j # js) = c # r \<and> \<not> is_ws c \<and> c \<noteq> CHR '']''"
  using print_indent_start [of j d] by (cases js) auto

lemma indent_members_start: "\<exists>r. indent_members d (kv # kvs) = CHR 0x22 # r"
  by (cases kv; cases kvs) (auto simp: print_string_def)

lemma parse_print_indent:
  "json_wf j \<Longrightarrow> num_stop r \<Longrightarrow> 2 * length (print_indent d j) \<le> n \<Longrightarrow>
     parse_value n (print_indent d j @ r) = Some (j, r)"
  "json_wf (JArr js) \<Longrightarrow> js \<noteq> [] \<Longrightarrow> 2 * length (indent_elems d js) < n \<Longrightarrow>
     parse_elems n (indent_elems d js @ new_line e @ CHR '']'' # r) = Some (js, r)"
  "json_wf (JObj kvs) \<Longrightarrow> kvs \<noteq> [] \<Longrightarrow> 2 * length (indent_members d kvs) < n \<Longrightarrow>
     parse_members n (indent_members d kvs @ new_line e @ CHR ''}'' # r) = Some (kvs, r)"
proof (induction d j and d js and d kvs arbitrary: n r and n r e and n r e
    rule: print_indent_indent_elems_indent_members.induct)
  case (5 d js)
  then obtain m where n: "n = Suc m" by (cases n) (auto split: if_splits)
  show ?case
  proof (cases "js = []")
    case False
    with 5 have "parse_elems m (new_line (Suc d) @ indent_elems (Suc d) js @ new_line d @ CHR '']'' # r) = Some (js, r)"
      by (subst parse_skip_ws(2) [OF skip_ws_new_line(1)], intro "5.IH") (simp_all add: n)
    moreover obtain c t where "indent_elems (Suc d) js = c # t" "\<not> is_ws c" "c \<noteq> CHR '']''"
      using "5.prems"(1) False indent_elems_start by (cases js) blast+
    ultimately show ?thesis using False by (simp add: n skip_ws_Cons)
  qed (simp add: n)
next
  case (6 d kvs)
  then obtain m where n: "n = Suc m" by (cases n) (auto split: if_splits)
  show ?case
  proof (cases "kvs = []")
    case False
    with 6 have "parse_members m (new_line (Suc d) @ indent_members (Suc d) kvs @ new_line d @ CHR ''}'' # r) = Some (kvs, r)"
      by (subst parse_skip_ws(3) [OF skip_ws_new_line(1)], intro "6.IH") (simp_all add: n)
    moreover obtain t where "indent_members (Suc d) kvs = CHR 0x22 # t"
      using indent_members_start False by (cases kvs) blast+
    ultimately show ?thesis using False by (simp add: n)
  qed (simp add: n)
next
  case (8 d j)
  then obtain m where n: "n = Suc m" by (cases n) auto
  from 8 show ?case by (simp add: n)
next
  case (9 d j j' js)
  then obtain m where n: "n = Suc m" by (cases n) auto
  from 9 show ?case by (simp add: n parse_skip_ws(2) [OF skip_ws_new_line(1)])
next
  case (11 d k v)
  then obtain m where n: "n = Suc m" by (cases n) auto
  from 11 show ?case by (simp add: n print_string_def parse_string_body_print parse_skip_ws(1) [OF skip_ws_new_line(2)])
next
  case (12 d k v kv kvs)
  then obtain m where n: "n = Suc m" by (cases n) auto
  from 12 show ?case
    by (simp add: n print_string_def parse_string_body_print parse_skip_ws(1) [OF skip_ws_new_line(2)]
        parse_skip_ws(3) [OF skip_ws_new_line(1)])
qed (use parse_print(1) in \<open>simp_all del: print_json.simps parse_value.simps\<close>)

lemma json_parse_indent: "json_wf j \<Longrightarrow> json_parse (print_indent d j) = Some j"
  using parse_print_indent(1) [of j "[]" d "2 * length (print_indent d j) + 1"] by (simp add: json_parse_def)

subsection \<open>Keys in text form\<close>

lemma b64dec_unpadded:
  "b64dec s = Some bs \<Longrightarrow> CHR ''='' \<notin> set s \<Longrightarrow> 3 dvd length bs"
proof (induction s arbitrary: bs rule: b64dec.induct)
  case (2 w x y z r)
  then obtain bs' where "b64dec r = Some bs'" "length bs = 3 + length bs'" "3 dvd length bs'"
    by (auto split: option.splits if_splits)
  then show ?case by (metis dvd_add dvd_refl)
qed auto

lemma hexEncode_chars:
  assumes "c \<in> set (hexEncode bs)" shows "c \<notin> {CHR ''='', CHR 0x0A, CHR 0x0D}"
proof -
  obtain x where "c = hexDigit (of_char x div 16) \<or> c = hexDigit (of_char x mod 16)"
    using assms by (auto simp: hexEncode_def)
  moreover have "of_char x div 16 < (16 :: nat)" "of_char x mod 16 < (16 :: nat)" by simp_all
  ultimately obtain n where "n < 16" "c = hexDigit n" by metis
  then show ?thesis using fromHexChar_hexDigit [of n] by (auto simp: fromHexChar_def)
qed

lemma setBytes_fixedBytes: "x < 256 ^ n \<Longrightarrow> setBytes (fixedBytes n x) = x"
proof (induction n arbitrary: x)
  case (Suc n)
  then have "x div 256 < 256 ^ n" by (simp add: div_less_iff_less_mult)
  with Suc.IH show ?case by (simp add: setBytes_def)
qed (simp add: setBytes_def)

text \<open>
  C40: The program cannot read the private keys it writes. \<open>GenerateKeyPairsJSON\<close> writes a private key in
  hexadecimal, and \<open>ConvertBase64ToECDSAPrivateKey\<close> refuses every hexadecimal text, whatever key it stands
  for; it accepts the Base64 form of the 32 bytes of a key, and gives that key back.
\<close>

theorem private_key_text:
  assumes "d < 256 ^ 32" and "baseMult (bigBytes d) = Some pub"
  shows "(\<exists>e. ConvertBase64ToECDSAPrivateKey baseMult (kp_PrivateKey (key_pair_of \<lparr>priv_D = d, priv_pub = pub\<rparr>)) = Err e) \<and>
         ConvertBase64ToECDSAPrivateKey baseMult (b64encode (fixedBytes 32 d)) = Ok \<lparr>priv_D = d, priv_pub = pub\<rparr>"
proof
  let ?t = "hexEncode (bigBytes d)"
  have "b64decode ?t = b64dec ?t"
    using hexEncode_chars [of _ "bigBytes d"] unfolding b64decode_def by (subst filter_True) auto
  moreover have "length bs \<noteq> 32" if "b64dec ?t = Some bs" for bs
  proof -
    have "3 dvd length bs" using that hexEncode_chars [of "CHR ''=''" "bigBytes d"] b64dec_unpadded by blast
    moreover have "\<not> 3 dvd (32 :: nat)" by simp
    ultimately show ?thesis by metis
  qed
  ultimately show "\<exists>e. ConvertBase64ToECDSAPrivateKey baseMult (kp_PrivateKey (key_pair_of \<lparr>priv_D = d, priv_pub = pub\<rparr>)) = Err e"
    by (auto simp: ConvertBase64ToECDSAPrivateKey_def key_pair_of_def split: option.split)
  show "ConvertBase64ToECDSAPrivateKey baseMult (b64encode (fixedBytes 32 d)) = Ok \<lparr>priv_D = d, priv_pub = pub\<rparr>"
    using assms by (simp add: ConvertBase64ToECDSAPrivateKey_def setBytes_fixedBytes Let_def del: fixedBytes.simps)
qed

subsection \<open>The file\<close>

definition peer_info_of :: "KeyPair \<Rightarrow> PeerInfo" where
  "peer_info_of k =
     \<lparr>pi_PrivateKey = kp_PrivateKey k, pi_PublicKey = kp_PublicKey k, pi_ListenAddr = kp_ListenAddr k\<rparr>"

lemma gen_loop_keys:
  "(\<And>k. i \<le> k \<Longrightarrow> k < i + n \<Longrightarrow> rand k = Some (keys k)) \<Longrightarrow>
     gen_loop rand n i acc = (Ok (acc @ map (\<lambda>k. key_pair_of (keys k)) [i..<i + n]) :: ('e, KeyPair list) res)"
proof (induction n arbitrary: i acc)
  case (Suc n)
  have "rand i = Some (keys i)" using Suc.prems by simp
  moreover have "gen_loop rand n (Suc i) acc' =
      (Ok (acc' @ map (\<lambda>k. key_pair_of (keys k)) [Suc i..<Suc i + n]) :: ('e, KeyPair list) res)" for acc'
    by (rule Suc.IH) (use Suc.prems in simp)
  ultimately show ?case
    by (simp add: GeneratePrivateKey_def NewPrivateKeyUsingReader_def upt_conv_Cons del: upt_Suc)
qed simp

lemma read_keypairs:
  assumes "\<forall>k\<in>set ks. ascii (kp_PrivateKey k) \<and> ascii (kp_PublicKey k) \<and> ascii (kp_ListenAddr k)"
    and "fs out = Some (print_indent 0 (JArr (map keypair_json ks)))"
  shows "GetPeerInfo fs out = Ok (map peer_info_of ks)"
proof -
  have keys: "map lower ''privateKey'' = ''privatekey''" "map lower ''publicKey'' = ''publickey''"
      "map lower ''listenAddr'' = ''listenaddr''" by code_simp+
  have "json_wf (JArr (map keypair_json ks))" using assms(1) by (auto simp: keypair_json_def ascii_def)
  moreover have "mapO (decode_struct set_peerinfo \<lparr>pi_PrivateKey = [], pi_PublicKey = [], pi_ListenAddr = []\<rparr>)
      (map keypair_json ks) = Some (map peer_info_of ks)"
    by (rule mapO_map) (simp add: decode_struct_def keypair_json_def keys set_peerinfo_def peer_info_of_def del: list.map)
  ultimately show ?thesis using assms(2)
    by (simp add: GetPeerInfo_def json_parse_indent del: print_indent.simps)
qed

text \<open>
  C32: The key file. When the random source gives keys and the file can be written, \<open>GenerateKeyPairsJSON\<close>
  changes no other file and writes, indented, one entry for every key in order; \<open>GetPeerInfo\<close> reads
  from it exactly the identities and the texts that were written, also for no keys at all.
\<close>

theorem key_file_roundtrip:
  assumes "0 \<le> x" and "writable out" and "\<And>i. i < nat x \<Longrightarrow> rand i = Some (keys i)"
  shows "\<exists>fs'. GenerateKeyPairsJSON rand writable x out fs = Ok fs' \<and>
           (\<forall>name. name \<noteq> out \<longrightarrow> fs' name = fs name) \<and>
           GetPeerInfo fs' out = Ok (map (\<lambda>i. peer_info_of (key_pair_of (keys i))) [0..<nat x])"
proof -
  let ?ks = "map (\<lambda>i. key_pair_of (keys i)) [0..<nat x]"
  let ?fs' = "fs(out \<mapsto> print_indent 0 (JArr (map keypair_json ?ks)))"
  have loop: "gen_loop rand (nat x) 0 [] = (Ok ?ks :: (keygen_error, KeyPair list) res)"
    using gen_loop_keys [of 0 "nat x" rand keys "[]"] assms(3) by simp
  have "GenerateKeyPairsJSON rand writable x out fs = Ok ?fs'"
    using assms(1,2) loop by (simp add: GenerateKeyPairsJSON_def not_less del: print_indent.simps)
  moreover have "GetPeerInfo ?fs' out = Ok (map peer_info_of ?ks)"
    by (rule read_keypairs) (auto simp: key_pair_of_def PublicKey_String_def ascii_def [of "''127.0.0.1:4000''"] simp del: print_indent.simps)
  ultimately show ?thesis by (auto simp: comp_def simp del: print_indent.simps)
qed

section \<open>Witnesses\<close>

theorem private_key_text_witness:
  "\<exists>e. ConvertBase64ToECDSAPrivateKey (\<lambda>_. Some \<lparr>pk_X = 1, pk_Y = 2\<rparr>)
         (kp_PrivateKey (key_pair_of \<lparr>priv_D = 7, priv_pub = \<lparr>pk_X = 1, pk_Y = 2\<rparr>\<rparr>)) = Err e"
  using private_key_text [of 7 "\<lambda>_. Some \<lparr>pk_X = 1, pk_Y = 2\<rparr>" "\<lparr>pk_X = 1, pk_Y = 2\<rparr>"] by simp

theorem key_file_roundtrip_witness:
  "\<exists>fs'. GenerateKeyPairsJSON (\<lambda>i. Some \<lparr>priv_D = i, priv_pub = \<lparr>pk_X = i, pk_Y = 2\<rparr>\<rparr>) (\<lambda>_. True) 2 ''peers.json'' Map.empty = Ok fs' \<and>
     GetPeerInfo fs' ''peers.json'' =
       Ok (map (\<lambda>i. peer_info_of (key_pair_of \<lparr>priv_D = i, priv_pub = \<lparr>pk_X = i, pk_Y = 2\<rparr>\<rparr>)) [0..<nat 2])"
  using key_file_roundtrip [where x = 2 and writable = "\<lambda>_. True" and out = "''peers.json''" and fs = Map.empty
      and rand = "\<lambda>i. Some \<lparr>priv_D = i, priv_pub = \<lparr>pk_X = i, pk_Y = 2\<rparr>\<rparr>"
      and keys = "\<lambda>i. \<lparr>priv_D = i, priv_pub = \<lparr>pk_X = i, pk_Y = 2\<rparr>\<rparr>", OF _ TrueI refl] by auto

end
