(* ===== verification/Spec2Isabelle.thy ===== *)
theory Spec2Isabelle
  imports Rounds WellFormed KeyFile
begin

text \<open>
  Verification of an off-chain reporting (OCR) node written in Go.

  \<^bold>\<open>The program.\<close> A node runs jobs that fetch and transform data, and a group of nodes agrees on the
  reported values. Its parts, from the outside in: \<open>OCR\<close> (\<open>ocr/ocr.go\<close>) owns a \<open>Server\<close>
  (\<open>ocr/server.go\<close>) and a \<open>Pacemaker\<close> (\<open>ocr/pacemaker.go\<close>). The server discovers peers and moves
  bytes through a libp2p transport (\<open>network/libp2p_transport.go\<close>), decodes what arrives and routes it
  by topic (\<open>ocr/server_rpc_processor.go\<close>). The pacemaker elects the leader of an epoch
  (\<open>ocr/leader_selection.go\<close>) and starts the \<open>ReportingEngine\<close> (\<open>ocr/reporter.go\<close>, \<open>ocr/leader.go\<close>,
  \<open>ocr/utils.go\<close>). In a round the leader asks for observations, collects them until a grace period ends,
  broadcasts the observation map (\<open>ocr/observation_map.go\<close>), collects signed reports, assembles the
  final report when \<open>f + 1\<close> agree, and transmits it. Jobs are in \<open>ocr/jobs/\<close>, messages and codecs
  in \<open>rpc/\<close>, keys and addresses in \<open>crypto/\<close>.

  \<^bold>\<open>Conventions.\<close> Go values are modelled as described in the theory \<open>Prelude\<close>: bytes are characters, 64-bit
  integers are words, maps are association lists with distinct keys whose order is one order of
  iteration, a fallible call returns a value, an error, a panic or blocks for ever. Nil and empty slices
  and maps are identified except where the program tells them apart. Counters that the program
  compares but that cannot reach the word size are natural numbers. Code outside the repository
  (cryptography, the AVL tree, the FIFO queue, libp2p, TOML, HTTP, float formatting, the clock, the order
  of map iteration and of goroutines) is an argument of the definitions; what is relied on of it is
  stated as a locale or as a hypothesis, and a concrete instance satisfies it in the witnesses. A
  goroutine that panics ends the process; the model gives the panic as the result of the operation. Where a
  theorem follows a message through \<open>decode_chunk\<close>, one read has returned the whole message: it fits the
  read buffer of 4096 bytes and the network did not split it; \<open>Transport\<close> says what happens otherwise.

  \<^bold>\<open>The theories\<close>, in the order of the imports:

  \<^item> \<open>Prelude\<close>: shared types, Go maps, results, channels, loops with an error exit, word lemmas.
  \<^item> \<open>Crypto\<close>: \<open>crypto/address.go\<close>, \<open>crypto/keypairs.go\<close>: text forms and their round trips, signatures
    and how much of a message they cover.
  \<^item> \<open>KeyFile\<close>: \<open>crypto/gen_keys.go\<close>, the constructors of keys of \<open>crypto/keypairs.go\<close>, \<open>ocr/config_reader.go\<close>:
    writing and reading key files, and which texts of private keys are accepted.
  \<^item> \<open>Json\<close>, \<open>JsonFraming\<close>, \<open>Values\<close>: what the program uses of \<open>encoding/json\<close>, \<open>encoding/base64\<close>,
    \<open>strconv\<close> and IEEE doubles: writer, reader, the round trip, and what the reader does with partial and
    trailing text. The reader's fuel is twice the length of the text plus one; \<open>parse_print\<close> shows
    that it suffices for every written value and \<open>parse_fuel\<close> that more changes nothing.
  \<^item> \<open>Jobs\<close>: \<open>ocr/jobs/\<close>: the task pipeline, the mean assembler, job files, the wire form of a job.
  \<^item> \<open>Rpc\<close>, \<open>JsonCodec\<close>: \<open>rpc/\<close>: structs, builders, the interface of a codec (locale \<open>wire_codec\<close>) and
    the JSON codec that satisfies it (interpretation \<open>jc\<close>).
  \<^item> \<open>Processor\<close>: \<open>ocr/server_rpc_processor.go\<close>: decoding by header, routing by topic; delivery of
    every known message, and which messages are never delivered.
  \<^item> \<open>ObservationMap\<close>: \<open>ocr/observation_map.go\<close>, \<open>utils/common.go\<close> (locale \<open>keyed_store\<close>).
  \<^item> \<open>LeaderSelection\<close>: \<open>ocr/leader_selection.go\<close> and \<open>exponentialBackoff\<close> (locale \<open>avl_tree\<close>); the
    loop is a partial function whose value \<open>None\<close> is not returning, and \<open>backoff_liveness\<close> says when.
  \<^item> \<open>Timer\<close>: \<open>ocr/timer.go\<close> as a step relation in which a call of \<open>Stop\<close> is three steps: safe when calls do
    not overlap, and how two overlapping calls panic.
  \<^item> \<open>FinalReport\<close>: \<open>assembleFinalReport\<close>: exactly the values with \<open>f + 1\<close> equal reports, in every order
    of iteration, and validity against \<open>f\<close> faulty senders.
  \<^item> \<open>Engine\<close>, \<open>Leader\<close>, \<open>Reporter\<close>: the reporting engine's state, its operations as actions on that state
    with their effects, the leader's phases, one definition per message.
  \<^item> \<open>EngineFrame\<close>, \<open>Protocol\<close>: what the handlers keep (locales \<open>frame\<close>, \<open>handler_frame\<close>,
    \<open>response_frame\<close>), the reachable states of an engine (\<open>engine_reach\<close>), which observations a report
    is made of, authenticity of collected responses, the grace threshold, acceptance of final reports.
  \<^item> \<open>WellFormed\<close>: the association lists that stand for the engine's maps have no key twice (interpretation
    \<open>wf\<close> of \<open>handler_frame\<close>), for messages decoded from arbitrary bytes: a check of the encoding, which
    discharges that hypothesis of the theorems on the final report.
  \<^item> \<open>Signatures\<close>: a signature covers epoch, round and leader of a message and nothing else; forged
    observations, and the quorum of a final report.
  \<^item> \<open>Schedule\<close>: the job schedule against its reference \<open>jobs_of_round\<close> (locale \<open>fifo_queue\<close>).
  \<^item> \<open>Transport\<close>: \<open>network/libp2p_transport.go\<close>: the stream cache, framing of reads, the message channel as
    a step relation of any number of streams opened at any time, their read loops, and the server's loop,
    which may hang in a handler or end.
  \<^item> \<open>Server\<close>: \<open>ocr/server.go\<close>: the peer registry and its invariant under \<open>server_step\<close> and, with the
    receive of the peer count, \<open>node_step\<close>; the handshake, the lock; the server satisfies the interface of \<open>ocr/messaging_layer.go\<close> (locale \<open>messaging_layer\<close>).
  \<^item> \<open>Pacemaker\<close>: \<open>ocr/pacemaker.go\<close>: NEWEPOCH counting, waiting for events (a partial function that
    is shown to return within twenty polls), starting the engine as leader or follower.
  \<^item> \<open>Ocr\<close>: \<open>ocr/ocr.go\<close>, \<open>ocr/ocr_builder.go\<close>: the peer count and the number of faulty nodes, the state of
    the object.
  \<^item> \<open>Rounds\<close>: messages between two nodes through transport and router, and the observation phase from
    the leader's schedule to the leader's collection.
  \<^item> This theory: the report phase from the leader's state through transport and router to a
    follower, whose reports are specified by the leader's observations (\<open>job_observations\<close>, \<open>report_of\<close>),
    back to the leader, and into its collection.

  \<^bold>\<open>What the theorems show.\<close> The core of the protocol does what it means to: final reports are valid and
  complete, only responses with a verified signature are collected, messages survive the wire, correct
  nodes agree on the leader, and the observation phase and the report phase work end to end. The
  theorems also pin down where the running
  program falls short of its intention: the node always runs with \<open>f = 0\<close>, an epoch never changes, the
  first round never ends, a leader has no jobs, a signature is valid for every message of its round, private
  keys are written in a form that is not read, messages that share a read are lost, and several error paths
  leave a lock held.

  \<^bold>\<open>Not modelled.\<close> The logger and the main program (pure input and output), libp2p's host, streams and discovery (third party), the building of
  transactions in the transmitter (empty in the source), the gob encodings (never called). Data races
  between goroutines on unprotected fields are outside the model: each operation is one step, except
  where a step relation splits it (\<open>Stop\<close> of a timer, the peer handler that waits for room in a channel, the
  read loops and the server's loop). The goroutine of the pacemaker that starts the job listeners has run
  when the pacemaker begins to wait for events.
\<close>

section \<open>Properties that span the components\<close>

subsection \<open>Lemmas\<close>

lemma follower_map:
  assumes "follows fo le" and "obs_wf obs"
    and "dm_Data msg = Ptr (PObservationMap \<lparr>om_Epoch = re_epoch le, om_Round = re_curRound le,
           om_Leader = re_leader le, om_Observations = ObservationSafeMap_MarshalJSON obs\<rparr>)"
  shows "ReportingEngine_ProcessMessage env msg fo =
     (Ok (), fo\<lparr>re_cacheLayer := (re_cacheLayer fo)\<lparr>follower_observations := obs_norm obs\<rparr>\<rparr>, [])"
  using follower_dispatch [OF assms(1,3)] obs_roundtrip [OF assms(2)]
  by (simp add: typeToPhase_def process_ObservationMap_def upd_def)

text \<open>What a follower does with its reports, once it has assembled them.\<close>

definition answer_reports :: "env \<Rightarrow> ReportingEngine \<Rightarrow> JobReports \<Rightarrow> unit act" where
  "answer_reports env fo vs =
     thenA (upd (\<lambda>re. re\<lparr>re_cacheLayer := (re_cacheLayer re)\<lparr>jobReports := vs\<rparr>\<rparr>))
       (respond env MessageReportRes
          (PReportRes \<lparr>rr_Epoch = re_epoch fo, rr_Round = re_curRound fo, rr_Leader = re_leader fo, rr_Reports = vs\<rparr>))"

lemma follower_request:
  assumes "follows fo le" and "obs_wf obs"
    and "follower_observations (re_cacheLayer fo) = obs_norm obs"
    and "dm_Data msg = Ptr (PReportReq \<lparr>rq_Epoch = re_epoch le, rq_Round = re_curRound le,
           rq_Leader = re_leader le, rq_Observations = ObservationSafeMap_MarshalJSON obs\<rparr>)"
  shows "ReportingEngine_ProcessMessage env msg fo =
     seqA (lift_res (foldM (assemble_job (re_jobRegistry fo)) (group_by_job (en_obs_order env (obs_norm obs))) []))
       (answer_reports env fo) fo"
  using follower_dispatch [OF assms(1,4)] obs_roundtrip [OF assms(2)] assms(3)
  by (simp add: typeToPhase_def process_ReportReq_def reading_def answer_reports_def [abs_def])

lemma handleReport_broadcasts:
  assumes "re_msgService le" 
    and "engine_bytes le MessageObservationMap TopicReporter
           (PObservationMap \<lparr>om_Epoch = re_epoch le, om_Round = re_curRound le, om_Leader = re_leader le,
              om_Observations = ObservationSafeMap_MarshalJSON (ls_observations (re_LeaderState le))\<rparr>)
           zero_Signature = Ok b1"
    and "engine_bytes le MessageReportReq TopicReporter
           (PReportReq \<lparr>rq_Epoch = re_epoch le, rq_Round = re_curRound le, rq_Leader = re_leader le,
              rq_Observations = ObservationSafeMap_MarshalJSON (ls_observations (re_LeaderState le))\<rparr>)
           zero_Signature = Ok b2"
  shows "handleReport le = (Ok (), le, [EBroadcast b1, EBroadcast b2])"
  using assms
  by (simp add: handleReport_def broadcastObservationMap_def BroadcastMsg_re_def act_defs must_def Let_def)

subsection \<open>The report phase\<close>

text \<open>The answer reaches the leader's engine, and its signature verifies there.\<close>

lemma answer_arrives:
  assumes "network_node ff fo srv_f" and "signing_node (en_prims env_f) fo" and "network_node ff le srv_l"
    and "en_prims env_l = en_prims env_f" and "reports_wf ff vs"
  defines "m \<equiv> \<lparr>rr_Epoch = re_epoch fo, rr_Round = re_curRound fo, rr_Leader = re_leader fo, rr_Reports = sort_key fst vs\<rparr>"
  shows "\<exists>b rm msg. answer_reports env_f fo vs fo =
       (Ok (), fo\<lparr>re_cacheLayer := (re_cacheLayer fo)\<lparr>jobReports := vs\<rparr>\<rparr>, [ESend (re_leader fo) b]) \<and>
     decode_chunk (JSONCodec ff) b = [rm] \<and> server_receive rm srv_l = (srv_l, Some (msg, HReporter)) \<and>
     dm_FromId msg = si_ID (re_serverOpts fo) \<and> dm_Data msg = Ptr (PReportRes m) \<and>
     verify_response env_l le msg (PReportRes m) = Ok (Some True)"
proof -
  let ?m = "\<lparr>rr_Epoch = re_epoch fo, rr_Round = re_curRound fo, rr_Leader = re_leader fo, rr_Reports = vs\<rparr>"
  let ?fo1 = "fo\<lparr>re_cacheLayer := (re_cacheLayer fo)\<lparr>jobReports := vs\<rparr>\<rparr>"
  have nodes: "network_node ff ?fo1 srv_f" "signing_node (en_prims env_f) ?fo1"
    using assms(1,2) by (simp_all add: network_node_def signing_node_def)
  have "payload_wf ff (PReportRes ?m)" using assms(1,5) by (simp add: network_node_def)
  from response_arrives [OF nodes assms(3,4) this] obtain b rm msg where
      b: "respond env_f MessageReportRes (PReportRes ?m) ?fo1 = (Ok (), ?fo1, [ESend (re_leader fo) b])"
      "decode_chunk (JSONCodec ff) b = [rm]" "server_receive rm srv_l = (srv_l, Some (msg, HReporter))"
    and msg: "dm_FromId msg = si_ID (re_serverOpts fo)" "dm_Data msg = Ptr (PReportRes m)"
      "verify_response env_l le msg (PReportRes m) = Ok (Some True)"
    by (auto simp: keeps_signature_def m_def)
  have "answer_reports env_f fo vs fo = (Ok (), ?fo1, [ESend (re_leader fo) b])"
    using b(1) by (simp add: answer_reports_def thenA_def seqA_def upd_def)
  with b msg show ?thesis by blast
qed

text \<open>
  A registry that can report on an observation map: it holds every observed job with its assembler, and
  what a job assembles from its observations, in whatever order, is a value the codec can write.
\<close>

definition can_report ::
  "(float64 \<Rightarrow> string) \<Rightarrow> (string, DirectRequest) gomap option \<Rightarrow> ObservationSafeMap \<Rightarrow> bool" where
  "can_report ff reg obs \<longleftrightarrow>
     (\<forall>j. observed obs j \<longrightarrow>
        (\<exists>job a. registered reg j = Some job \<and> dr_assembler job = Some a \<and>
           (\<forall>xs v. mset xs = job_observations obs j \<longrightarrow> Job_Assemble job xs = Ok v \<longrightarrow> scalar_wf ff v)))"

lemma follower_reports:
  assumes "obs_wf obs" and "mset obs' = mset (obs_norm obs)" and "can_report ff reg obs"
  shows "\<exists>vs. foldM (assemble_job reg) (group_by_job obs') [] = Ok vs \<and> reports_wf ff vs \<and>
     (\<forall>j. \<exists>xs. mset xs = job_observations obs j \<and>
        map_of vs j = (if observed obs j then report_of reg j xs else None))"
proof -
  note order = observations_any_order [OF assms(1,2)]
  note group = group_by_job_observations [OF order(3)]
  have wf: "gm_wf (group_by_job obs')" unfolding group_by_job_fold by (rule gm_wf_fold_group) simp
  have jobs: "\<forall>(j, xs)\<in>set (group_by_job obs'). \<exists>job a. registered reg j = Some job \<and> dr_assembler job = Some a"
  proof clarify
    fix j xs
    assume "(j, xs) \<in> set (group_by_job obs')"
    then have "observed obs j" using group(1) [of j] order(2) [of j] by (simp add: gm_wf_map_of [OF wf])
    then show "\<exists>job a. registered reg j = Some job \<and> dr_assembler job = Some a"
      using assms(3) unfolding can_report_def by blast
  qed
  obtain vs where vs: "foldM (assemble_job reg) (group_by_job obs') [] = Ok vs" "gm_wf vs"
    and lookup: "\<forall>j. map_of vs j = (case Option.bind (map_of (group_by_job obs') j) (report_of reg j) of
        None \<Rightarrow> map_of [] j | Some v \<Rightarrow> Some v)"
    using assemble_all [OF jobs wf, of "[]"] by auto
  have map: "map_of vs j = Option.bind (map_of (group_by_job obs') j) (report_of reg j)" for j
    using lookup by (simp split: option.splits)
  have spec: "\<exists>xs. mset xs = job_observations obs j \<and> map_of vs j = (if observed obs j then report_of reg j xs else None)" for j
  proof (cases "map_of (group_by_job obs') j")
    case None
    obtain xs where "mset xs = job_observations obs j" by (metis ex_mset)
    with None group(1) [of j] order(2) show ?thesis by (auto simp: map)
  next
    case (Some xs)
    then have "observed obs j" using group(1) [of j] order(2) [of j] by simp
    moreover have "mset xs = job_observations obs j" using group(2) [OF Some] order(1) by simp
    ultimately show ?thesis using Some by (auto simp: map)
  qed
  have "ascii j \<and> scalar_wf ff v" if v: "map_of vs j = Some v" for j v
  proof
    obtain xs where xs: "mset xs = job_observations obs j" "observed obs j" "report_of reg j xs = Some v"
      using spec [of j] v by (metis option.distinct(1))
    then show "scalar_wf ff v" using assms(3) by (fastforce simp: can_report_def report_of_def split: option.splits res.splits)
    from xs(2) show "ascii j" using assms(1) by (fastforce simp: observed_def obs_wf_def dest: map_of_SomeD)
  qed
  then have "reports_wf ff vs" using vs(2) by (auto simp: reports_wf_def gm_wf_map_of)
  with vs(1) spec show ?thesis by blast
qed

text \<open>
  C5: The report phase, from the leader's state to the follower's answer at the leader. A leader in the
  report phase broadcasts exactly two messages, its observation map and the report request. Each of them,
  read by a follower's transport in one piece, is decoded and routed to the follower's engine. A follower
  in the same epoch and round stores the map and finds the copy in the request equal to it. It then reports,
  for every job that some peer has observed, what its registered job assembles from exactly the
  observations of all peers for this job, each as often as the leader has it and in any order; a job that
  fails to assemble or that nobody observed has no report. It keeps these reports and sends them in one
  signed message, which reaches the leader's engine with the follower's identity and the same reports. The
  order in which the maps are iterated is arbitrary. The follower's registry has to hold the observed
  jobs with their assemblers; what happens otherwise is stated below.
\<close>

theorem report_phase:
  assumes "network_node ff le srv_l" and "network_node ff fo srv_f" and "follows fo le"
    and "signing_node (en_prims env) fo"
    and "ls_observations (re_LeaderState le) = obs" and "obs_wf obs"
    and "mset (en_obs_order env (obs_norm obs)) = mset (obs_norm obs)"
    and "can_report ff (re_jobRegistry fo) obs"
  shows "\<exists>b1 b2 rm1 rm2 msg1 msg2 fo1 vs b3 rm3 msg3 m.
     handleReport le = (Ok (), le, [EBroadcast b1, EBroadcast b2]) \<and>
     decode_chunk (JSONCodec ff) b1 = [rm1] \<and> server_receive rm1 srv_f = (srv_f, Some (msg1, HReporter)) \<and>
     decode_chunk (JSONCodec ff) b2 = [rm2] \<and> server_receive rm2 srv_f = (srv_f, Some (msg2, HReporter)) \<and>
     ReportingEngine_ProcessMessage env msg1 fo = (Ok (), fo1, []) \<and>
     obs_eq (follower_observations (re_cacheLayer fo1)) obs \<and>
     (\<forall>j. \<exists>xs. mset xs = job_observations obs j \<and>
        map_of vs j = (if observed obs j then report_of (re_jobRegistry fo) j xs else None)) \<and>
     ReportingEngine_ProcessMessage env msg2 fo1 =
       (Ok (), fo1\<lparr>re_cacheLayer := (re_cacheLayer fo1)\<lparr>jobReports := vs\<rparr>\<rparr>, [ESend (re_leader le) b3]) \<and>
     decode_chunk (JSONCodec ff) b3 = [rm3] \<and> server_receive rm3 srv_l = (srv_l, Some (msg3, HReporter)) \<and>
     dm_FromId msg3 = si_ID (re_serverOpts fo) \<and> dm_Data msg3 = Ptr (PReportRes m) \<and> gm_eq (rr_Reports m) vs"
proof -
  let ?data = "ObservationSafeMap_MarshalJSON obs"
  let ?p1 = "PObservationMap \<lparr>om_Epoch = re_epoch le, om_Round = re_curRound le, om_Leader = re_leader le,
    om_Observations = ?data\<rparr>"
  let ?p2 = "PReportReq \<lparr>rq_Epoch = re_epoch le, rq_Round = re_curRound le, rq_Leader = re_leader le,
    rq_Observations = ?data\<rparr>"
  let ?msg = "\<lambda>p. \<lparr>dm_FromId = si_ID (re_serverOpts le), dm_Topic = TopicReporter, dm_Data = Ptr p,
    dm_Signature = zero_Signature\<rparr>"
  have le: "re_msgService le" "si_Codec (re_serverOpts le) = JSONCodec ff" "ascii (si_ID (re_serverOpts le))"
      "ascii (re_leader le)" and srv: "sv_Codec srv_f = JSONCodec ff"
      "map_of (handlers (sv_RPCProcessor srv_f)) TopicReporter = Some HReporter"
    using assms(1,2) by (simp_all add: network_node_def)
  have arrive: "\<exists>b rm. engine_bytes le (header_of p) TopicReporter p zero_Signature = Ok b \<and>
      decode_chunk (JSONCodec ff) b = [rm] \<and> server_receive rm srv_f = (srv_f, Some (?msg p, HReporter))"
    if "payload_wf ff p" "known_payload p" "rcv_payload p = p" for p
    using message_arrives [OF that(1,2) le(3) srv, of "si_Addr (re_serverOpts le)" zero_Signature] that(3) le(2)
    by (simp add: engine_bytes_def)
  obtain b1 rm1 where b1: "engine_bytes le MessageObservationMap TopicReporter ?p1 zero_Signature = Ok b1"
      "decode_chunk (JSONCodec ff) b1 = [rm1]" "server_receive rm1 srv_f = (srv_f, Some (?msg ?p1, HReporter))"
    using arrive [of ?p1] le(4) by (auto simp: known_payload_def)
  obtain b2 rm2 where b2: "engine_bytes le MessageReportReq TopicReporter ?p2 zero_Signature = Ok b2"
      "decode_chunk (JSONCodec ff) b2 = [rm2]" "server_receive rm2 srv_f = (srv_f, Some (?msg ?p2, HReporter))"
    using arrive [of ?p2] le(4) by (auto simp: known_payload_def)
  let ?fo1 = "fo\<lparr>re_cacheLayer := (re_cacheLayer fo)\<lparr>follower_observations := obs_norm obs\<rparr>\<rparr>"
  have first: "ReportingEngine_ProcessMessage env (?msg ?p1) fo = (Ok (), ?fo1, [])"
    by (rule follower_map [OF assms(3,6)]) simp
  obtain vs where vs: "foldM (assemble_job (re_jobRegistry fo)) (group_by_job (en_obs_order env (obs_norm obs))) [] = Ok vs"
      "reports_wf ff vs" and spec: "\<forall>j. \<exists>xs. mset xs = job_observations obs j \<and>
        map_of vs j = (if observed obs j then report_of (re_jobRegistry fo) j xs else None)"
    using follower_reports [OF assms(6,7,8)] by blast
  have fo1: "follows ?fo1 le" "network_node ff ?fo1 srv_f" "signing_node (en_prims env) ?fo1" "re_leader fo = re_leader le"
    using assms(2,3,4) by (simp_all add: follows_def network_node_def signing_node_def)
  have second: "ReportingEngine_ProcessMessage env (?msg ?p2) ?fo1 = answer_reports env ?fo1 vs ?fo1"
    using follower_request [OF fo1(1) assms(6), of "?msg ?p2" env] vs(1) by (simp add: seqA_def lift_res_def case_prod_beta)
  obtain b3 rm3 msg3 m where b3: "answer_reports env ?fo1 vs ?fo1 =
      (Ok (), ?fo1\<lparr>re_cacheLayer := (re_cacheLayer ?fo1)\<lparr>jobReports := vs\<rparr>\<rparr>, [ESend (re_leader le) b3])"
      "decode_chunk (JSONCodec ff) b3 = [rm3]" "server_receive rm3 srv_l = (srv_l, Some (msg3, HReporter))"
      "dm_FromId msg3 = si_ID (re_serverOpts fo)" "dm_Data msg3 = Ptr (PReportRes m)" "rr_Reports m = sort_key fst vs"
    using answer_arrives [OF fo1(2,3) assms(1) refl vs(2)] fo1(4) by fastforce
  have "handleReport le = (Ok (), le, [EBroadcast b1, EBroadcast b2])"
    by (rule handleReport_broadcasts [OF le(1)]) (use b1(1) b2(1) assms(5) in simp_all)
  note facts = this b1(2,3) b2(2,3) first
  have reports: "gm_eq (rr_Reports m) vs" using vs(2) b3(6) by (simp add: gm_eq_sort_key reports_wf_def)
  have stored: "obs_eq (follower_observations (re_cacheLayer ?fo1)) obs" using obs_norm_eq [OF assms(6)] by simp
  show ?thesis
    by (rule exI [where x = b1], rule exI [where x = b2], rule exI [where x = rm1], rule exI [where x = rm2],
        rule exI [where x = "?msg ?p1"], rule exI [where x = "?msg ?p2"], rule exI [where x = ?fo1], rule exI [where x = vs],
        rule exI [where x = b3], rule exI [where x = rm3], rule exI [where x = msg3], rule exI [where x = m],
        intro conjI facts reports stored spec b3(2-5) trans [OF second b3(1)])
qed

text \<open>The leader keeps a verified report, whatever it does next.\<close>

lemma ReportRes_adds:
  assumes "verify_response env re msg (PReportRes m) = Ok (Some True)"
  shows "ls_reports (re_LeaderState (fst (snd (process_ReportRes env msg m re)))) =
     ls_reports (re_LeaderState re) @
       [\<lparr>rep_from = dm_FromId msg, rep_reports = rr_Reports m, rep_sig = dm_Signature msg\<rparr>]"
  using assms
  by (auto simp: process_ReportRes_def act_defs send_phase_def set_phase_def add_report_def
      split: res.splits option.splits prod.splits chan.splits)

text \<open>
  C6: The other half of the report phase: what a follower has assembled reaches the leader's collection. The
  follower keeps its reports and sends exactly one signed message to the leader; it arrives, its
  signature verifies, and the leader appends to its reports one with the follower's identity and
  the same values for the same jobs.
\<close>

theorem report_collected:
  assumes "leading le" and "network_node ff le srv_l" and "follows fo le" and "network_node ff fo srv_f"
    and "signing_node (en_prims env_f) fo" and "en_prims env_l = en_prims env_f" and "reports_wf ff vs"
  shows "\<exists>b rm msg fo1 r le1 es rep.
     answer_reports env_f fo vs fo = (Ok (), fo1, [ESend (re_leader le) b]) \<and> jobReports (re_cacheLayer fo1) = vs \<and>
     decode_chunk (JSONCodec ff) b = [rm] \<and> server_receive rm srv_l = (srv_l, Some (msg, HReporter)) \<and>
     ReportingEngine_ProcessMessage env_l msg le = (r, le1, es) \<and>
     ls_reports (re_LeaderState le1) = ls_reports (re_LeaderState le) @ [rep] \<and>
     rep_from rep = si_ID (re_serverOpts fo) \<and> gm_eq (rep_reports rep) vs"
proof -
  let ?p' = "\<lparr>rr_Epoch = re_epoch fo, rr_Round = re_curRound fo, rr_Leader = re_leader fo, rr_Reports = sort_key fst vs\<rparr>"
  obtain b rm msg where
      b: "answer_reports env_f fo vs fo =
        (Ok (), fo\<lparr>re_cacheLayer := (re_cacheLayer fo)\<lparr>jobReports := vs\<rparr>\<rparr>, [ESend (re_leader le) b])"
      "decode_chunk (JSONCodec ff) b = [rm]" "server_receive rm srv_l = (srv_l, Some (msg, HReporter))"
    and msg: "dm_FromId msg = si_ID (re_serverOpts fo)" "dm_Data msg = Ptr (PReportRes ?p')"
      "verify_response env_l le msg (PReportRes ?p') = Ok (Some True)"
    using answer_arrives [OF assms(4,5,2,6,7)] assms(3) by (auto simp: follows_def)
  have disp: "ReportingEngine_ProcessMessage env_l msg le = process_ReportRes env_l msg ?p' le"
    using assms(1,3) msg(2)
    by (simp add: ReportingEngine_ProcessMessage_def rpcMsgPrechecks_def getCommonFieldsAndPhase_def typeToPhase_def
        leading_def follows_def)
  obtain r le1 es where p: "process_ReportRes env_l msg ?p' le = (r, le1, es)" by (metis prod_cases3)
  have "gm_eq (sort_key fst vs) vs" using assms(7) by (simp add: gm_eq_sort_key reports_wf_def)
  with b disp p ReportRes_adds [OF msg(3)] msg(1) show ?thesis by fastforce
qed

text \<open>
  C36: A follower crashes on the first report request with an observation. Its job registry is the one
  of its pacemaker, which reads job files only on the leader, and so it is empty: a request whose map
  holds the observations of some job makes the engine call a method of a nil job, in every order of
  iteration over the map.
\<close>

theorem report_request_crash:
  assumes "follows fo le" and "obs_wf obs" and "follower_observations (re_cacheLayer fo) = obs_norm obs"
    and "dm_Data msg = Ptr (PReportReq \<lparr>rq_Epoch = re_epoch le, rq_Round = re_curRound le,
           rq_Leader = re_leader le, rq_Observations = ObservationSafeMap_MarshalJSON obs\<rparr>)"
    and "re_jobRegistry fo = Some []" and "set (en_obs_order env (obs_norm obs)) = set (obs_norm obs)"
    and "(p, js) \<in> set obs" and "js \<noteq> []"
  shows "ReportingEngine_ProcessMessage env msg fo = (Panicked NilDeref, fo, [])"
proof -
  from assms(7) have "(p, sort_key fst js) \<in> set (en_obs_order env (obs_norm obs))"
    unfolding assms(6) by (force simp: obs_norm_def)
  moreover have "sort_key fst js \<noteq> []" using assms(8) by (metis length_0_conv length_sort)
  ultimately have "concat (map snd (en_obs_order env (obs_norm obs))) \<noteq> []" by (force simp: concat_eq_Nil_conv)
  then have "group_by_job (en_obs_order env (obs_norm obs)) \<noteq> []"
    unfolding group_by_job_fold by (cases "concat (map snd (en_obs_order env (obs_norm obs)))" rule: rev_cases)
      (auto split: prod.splits)
  then have "foldM (assemble_job (Some [])) (group_by_job (en_obs_order env (obs_norm obs))) [] =
      (Panicked NilDeref :: (engine_error, JobReports) res)"
    by (cases "group_by_job (en_obs_order env (obs_norm obs))") (auto simp: assemble_job_def split: prod.splits)
  then show ?thesis
    using follower_request [OF assms(1-4), of env] assms(5) by (simp add: seqA_def lift_res_def)
qed

section \<open>Witnesses\<close>

definition reporting_leader :: ReportingEngine where
  "reporting_leader =
     (demo_engine True ''a'')\<lparr>re_LeaderState :=
        (re_LeaderState (demo_engine True ''a''))\<lparr>ls_observations := two_peers\<rparr>\<rparr>"

lemma demo_follows: "follows (demo_engine False ''b'') reporting_leader"
  by (simp add: follows_def reporting_leader_def demo_defs)

lemma two_peers_wf: "obs_wf two_peers"
  by (auto simp: two_peers_def obs_wf_def gm_wf_def)

text \<open>Two peers observed 1 and -1; the reported mean is 0.\<close>

definition balanced_obs :: ObservationSafeMap where
  "balanced_obs = [(''b'', [(''j'', whole_obs ''j'' [1])]), (''a'', [(''j'', whole_obs ''j'' [- 1])])]"

definition balanced_leader :: ReportingEngine where
  "balanced_leader =
     (demo_engine True ''a'')\<lparr>re_LeaderState :=
        (re_LeaderState (demo_engine True ''a''))\<lparr>ls_observations := balanced_obs\<rparr>\<rparr>"

definition balanced_follower :: ReportingEngine where
  "balanced_follower = (demo_engine False (PublicKey_String witness_key))\<lparr>re_jobRegistry :=
     Some [(''j'', demo_job\<lparr>dr_assembler := Some (MeanValueAssembler DirectReqJob numeric_params)\<rparr>)]\<rparr>"

lemma zero_written: "ff_ok (\<lambda>_. ''0'') (FFin 0)"
proof -
  have "int_str 0 = ''0''" by code_simp
  with is_number_int_str [of 0] lit_float64_int_str [of 0] show ?thesis by (simp add: ff_ok_def)
qed

lemma mset_two:
  assumes "mset xs = {#a, b#}"
  shows "xs = [a, b] \<or> xs = [b, a]"
proof -
  have "length xs = 2" using arg_cong [OF assms, of size] by simp
  then obtain x y where "xs = [x, y]" by (auto simp: numeral_2_eq_2 length_Suc_conv)
  with assms show ?thesis by (auto simp: add_eq_conv_ex)
qed

lemma balanced_mean:
  assumes "mset xs = job_observations balanced_obs ''j''"
  shows "Assemble (MeanValueAssembler DirectReqJob numeric_params) xs = Ok (VNum (FFin 0))"
proof -
  let ?a = "hd (whole_obs ''j'' [1])" and ?b = "hd (whole_obs ''j'' [- 1])"
  have "mset xs = {#?a, ?b#}"
    using assms by (simp add: job_observations_def balanced_obs_def whole_obs_def gm_get0_def add_mset_commute)
  then have "xs = [?a, ?b] \<or> xs = [?b, ?a]" by (rule mset_two)
  moreover have "fround 1 = FFin 1" by (simp add: fround_eval)
  ultimately show ?thesis
    using response_float_int_str [of 1] response_float_int_str [of "- 1"]
    by (auto simp: whole_obs_def numeric_params_def fadd_def fdiv_def Let_def sround_def float64_of_int_exact fround_def)
qed

theorem report_phase_witness:
  "\<exists>b1 b2 msg1 msg2 fo1 vs b3. handleReport balanced_leader = (Ok (), balanced_leader, [EBroadcast b1, EBroadcast b2]) \<and>
     ReportingEngine_ProcessMessage demo_env msg1 balanced_follower = (Ok (), fo1, []) \<and>
     map_of vs ''j'' = Some (VNum (FFin 0)) \<and>
     ReportingEngine_ProcessMessage demo_env msg2 fo1 =
       (Ok (), fo1\<lparr>re_cacheLayer := (re_cacheLayer fo1)\<lparr>jobReports := vs\<rparr>\<rparr>, [ESend ''a'' b3])"
proof -
  let ?srv = "register_handlers demo_server"
  have key_node: "network_node (\<lambda>_. ''0'') (demo_engine False (PublicKey_String witness_key)) ?srv"
    by (rule demo_node) (simp add: PublicKey_String_def)
  have node: "network_node (\<lambda>_. ''0'') balanced_leader ?srv" "network_node (\<lambda>_. ''0'') balanced_follower ?srv"
    using demo_node [of "''a''" True] key_node
    by (simp_all add: network_node_def balanced_leader_def balanced_follower_def)
  have fo: "follows balanced_follower balanced_leader" "re_leader balanced_leader = ''a''"
    by (simp_all add: follows_def balanced_follower_def balanced_leader_def demo_defs)
  have sgn: "signing_node (en_prims demo_env) balanced_follower"
    using demo_signing_node [of False] by (simp add: demo_env_def balanced_follower_def signing_node_def)
  have obs: "ls_observations (re_LeaderState balanced_leader) = balanced_obs" "obs_wf balanced_obs"
    by (auto simp: balanced_leader_def balanced_obs_def whole_obs_def obs_wf_def gm_wf_def ascii_def)
  have only: "observed balanced_obs j \<longleftrightarrow> j = ''j''" for j by (auto simp: observed_def balanced_obs_def)
  have job: "registered (re_jobRegistry balanced_follower) ''j'' =
      Some (demo_job\<lparr>dr_assembler := Some (MeanValueAssembler DirectReqJob numeric_params)\<rparr>)"
    by (simp add: registered_def balanced_follower_def)
  have "can_report (\<lambda>_. ''0'') (re_jobRegistry balanced_follower) balanced_obs"
    unfolding can_report_def only using balanced_mean
    by (auto simp: job Job_Assemble_def simp del: Assemble.simps intro: zero_written)
  from report_phase [OF node fo(1) sgn obs(1,2) _ this]
  obtain b1 b2 msg1 msg2 fo1 vs b3 where "handleReport balanced_leader = (Ok (), balanced_leader, [EBroadcast b1, EBroadcast b2])"
      "ReportingEngine_ProcessMessage demo_env msg1 balanced_follower = (Ok (), fo1, [])"
      "ReportingEngine_ProcessMessage demo_env msg2 fo1 =
        (Ok (), fo1\<lparr>re_cacheLayer := (re_cacheLayer fo1)\<lparr>jobReports := vs\<rparr>\<rparr>, [ESend ''a'' b3])"
      and vs: "\<forall>j. \<exists>xs. mset xs = job_observations balanced_obs j \<and>
        map_of vs j = (if observed balanced_obs j then report_of (re_jobRegistry balanced_follower) j xs else None)"
    unfolding fo(2) by (auto simp: demo_env_def)
  moreover from vs obtain xs where "mset xs = job_observations balanced_obs ''j''"
      "map_of vs ''j'' = report_of (re_jobRegistry balanced_follower) ''j'' xs" unfolding only by metis
  then have "map_of vs ''j'' = Some (VNum (FFin 0))" using balanced_mean by (simp add: report_of_def job Job_Assemble_def)
  ultimately show ?thesis by blast
qed

theorem report_collected_witness:
  "\<exists>msg r le1 es rep. ReportingEngine_ProcessMessage demo_env msg (demo_engine True ''a'') = (r, le1, es) \<and>
     ls_reports (re_LeaderState le1) = ls_reports (re_LeaderState (demo_engine True ''a'')) @ [rep] \<and>
     gm_eq (rep_reports rep) [(''j'', VStr ''7'')]"
proof -
  let ?le = "demo_engine True ''a''" and ?fo = "demo_engine False (PublicKey_String witness_key)"
    and ?srv = "register_handlers demo_server"
  have "leading ?le" "follows ?fo ?le" by (simp_all add: leading_def follows_def demo_defs)
  moreover have "network_node (\<lambda>_. ''0'') ?le ?srv" "network_node (\<lambda>_. ''0'') ?fo ?srv"
    by (rule demo_node, simp add: PublicKey_String_def)+
  moreover have "signing_node (en_prims demo_env) ?fo" using demo_signing_node by (simp add: demo_env_def)
  moreover have "reports_wf (\<lambda>_. ''0'') [(''j'', VStr ''7'')]" by (simp add: reports_wf_def gm_wf_def ascii_def)
  ultimately show ?thesis
    using report_collected [where le = ?le and fo = ?fo and ff = "\<lambda>_. ''0''" and srv_l = ?srv and srv_f = ?srv
        and env_f = demo_env and env_l = demo_env and vs = "[(''j'', VStr ''7'')]"] by meson
qed

theorem report_request_crash_witness:
  "\<exists>fo msg. ReportingEngine_ProcessMessage demo_env msg fo = (Panicked NilDeref, fo, [])"
proof -
  let ?fo = "(demo_engine False ''b'')\<lparr>re_cacheLayer := zero_CacheLayer\<lparr>follower_observations := obs_norm two_peers\<rparr>\<rparr>"
  let ?m = "\<lparr>rq_Epoch = re_epoch reporting_leader, rq_Round = re_curRound reporting_leader,
    rq_Leader = re_leader reporting_leader, rq_Observations = ObservationSafeMap_MarshalJSON two_peers\<rparr>"
  let ?msg = "\<lparr>dm_FromId = ''a'', dm_Topic = TopicReporter, dm_Data = Ptr (PReportReq ?m), dm_Signature = zero_Signature\<rparr>"
  have f: "follows ?fo reporting_leader" and reg: "re_jobRegistry ?fo = Some []"
    using demo_follows by (simp_all add: follows_def demo_defs)
  have mem: "(''b'', [(''j'', [\<lparr>JobId = ''j'', Response = ''1''\<rparr>])]) \<in> set two_peers"
    by (simp add: two_peers_def)
  have "ReportingEngine_ProcessMessage demo_env ?msg ?fo = (Panicked NilDeref, ?fo, [])"
    by (rule report_request_crash [OF f two_peers_wf _ _ reg _ mem]) (simp_all add: demo_env_def)
  then show ?thesis by blast
qed

end
